(* ===== verification/Jay_Prelude.thy ===== *)
theory Jay_Prelude
  imports Main "HOL-Library.Word" "HOL-Library.AList"
begin

text \<open>
  Shared material of the development: the machine integers of the source as words, the
  collections of rewrite rules the component proofs use, bit fields of a word, and the
  associative container \<^verbatim>\<open>std::unordered_map\<close> with the laws the components rely on.
\<close>

unbundle bit_operations_syntax

section \<open>Machine integers\<close>

type_synonym u8 = "8 word"
type_synonym u16 = "16 word"
type_synonym u32 = "32 word"
type_synonym u64 = "64 word"

section \<open>Collections of rewrite rules\<close>

named_theorems j1939_consts \<open>definitions of the protocol constants\<close>
named_theorems name_defs \<open>definitions of the operations on names\<close>
named_theorems header_defs \<open>definitions of the operations on frame headers\<close>
named_theorems network_defs \<open>definitions of the operations on the network\<close>
named_theorems machine_defs \<open>definitions of the guards and actions of the address state machine\<close>
named_theorems tp_defs \<open>definitions of the transport protocol operations\<close>

section \<open>Words\<close>

lemma bit_word_less: "bit (x :: 'a::len word) n \<Longrightarrow> n < LENGTH('a)"
  by (rule bit_imp_le_length)

lemma ucast_u8_bit: "bit (ucast (x :: u8) :: 'a::len word) n \<longleftrightarrow> n < LENGTH('a) \<and> n < 8 \<and> bit x n"
  by (auto simp: bit_simps dest: bit_word_less)

lemma ucast_take_bit_ucast:
  "LENGTH('a) \<le> LENGTH('b) \<Longrightarrow>
     ucast (take_bit w (ucast (x :: 'a::len word)) :: 'b::len word) = take_bit w x"
  by (rule bit_word_eqI) (auto simp: bit_simps)

lemma unat_plus_1:
  assumes "a < (b :: 'a::len word)"
  shows "unat (a + 1) = Suc (unat a)"
proof -
  have "Suc (unat a) \<le> unat b"
    using assms by (simp add: word_less_nat_alt)
  also have "unat b < 2 ^ LENGTH('a)"
    by (rule unsigned_less)
  finally show ?thesis
    by (simp add: unat_word_ariths)
qed

text \<open>\<^verbatim>\<open>std::clamp\<close>\<close>

definition clamp :: "'a::linorder \<Rightarrow> 'a \<Rightarrow> 'a \<Rightarrow> 'a" where
  "clamp v lo hi = (if v < lo then lo else if hi < v then hi else v)"

subsection \<open>Bit fields\<close>

text \<open>
  A field of \<open>w\<close> bits at bit \<open>s\<close>. The classes of the source read a field with
  \<^verbatim>\<open>(x & mask) >> start\<close> and write it with \<^verbatim>\<open>(x & ~mask) | ((v << start) & mask)\<close>;
  these are the laws of that pair.
\<close>

locale bit_field =
  fixes msk :: "'a::len word" and s :: nat and w :: nat
  assumes msk: "msk = push_bit s (mask w)"
    and fits: "s + w \<le> LENGTH('a)"
begin

lemma bit_msk: "bit msk n \<longleftrightarrow> s \<le> n \<and> n < s + w"
  using fits by (auto simp: msk bit_simps)

lemma get_eq: "drop_bit s (x AND msk) = take_bit w (drop_bit s x)"
  using fits by (intro bit_word_eqI) (auto simp: msk bit_simps)

lemma get_put: "drop_bit s (((x AND NOT msk) OR (push_bit s v AND msk)) AND msk) = take_bit w v"
  using fits by (intro bit_word_eqI) (auto simp: msk bit_simps)

lemma get_push: "drop_bit s (push_bit s v AND msk) = take_bit w v"
  using fits by (intro bit_word_eqI) (auto simp: msk bit_simps)

lemma put_elsewhere:
  assumes "m AND msk = 0"
  shows "((x AND NOT msk) OR (push_bit s v AND msk)) AND m = x AND m"
proof (rule bit_word_eqI)
  fix n
  assume n: "n < LENGTH('a)"
  have "\<not> (bit m n \<and> bit msk n)"
    using assms n by (metis bit_0_eq bit_and_iff bot_apply bot_bool_def)
  then show "bit (((x AND NOT msk) OR (push_bit s v AND msk)) AND m) n = bit (x AND m) n"
    using n by (auto simp: bit_simps)
qed

lemma put_get: "(x AND NOT msk) OR (push_bit s (drop_bit s (x AND msk)) AND msk) = x"
  using fits by (intro bit_word_eqI) (auto simp: msk bit_simps)

end

section \<open>The associative container\<close>

text \<open>
  \<^verbatim>\<open>std::unordered_map\<close> as an association list with pairwise distinct keys: \<open>um_find\<close> is
  \<^verbatim>\<open>find\<close>, \<open>um_assign\<close> is \<^verbatim>\<open>m[k] = v\<close>, \<open>um_erase\<close> is \<^verbatim>\<open>erase(k)\<close>, \<open>um_try_emplace\<close> is
  \<^verbatim>\<open>try_emplace\<close>, \<open>um_index\<close> is \<^verbatim>\<open>m[k]\<close> read as a value, which first inserts the
  value-initialised element \<open>d\<close> when the key is missing, and \<open>um_size\<close> is \<^verbatim>\<open>size\<close>. The order
  of the list stands for the (unspecified) order of iteration.
\<close>

type_synonym ('k, 'v) umap = "('k \<times> 'v) list"

definition um_find :: "('k, 'v) umap \<Rightarrow> 'k \<Rightarrow> 'v option" where
  "um_find m k = map_of m k"

definition um_assign :: "'k \<Rightarrow> 'v \<Rightarrow> ('k, 'v) umap \<Rightarrow> ('k, 'v) umap" where
  "um_assign k v m = AList.update k v m"

definition um_erase :: "'k \<Rightarrow> ('k, 'v) umap \<Rightarrow> ('k, 'v) umap" where
  "um_erase k m = AList.delete k m"

definition um_try_emplace :: "'k \<Rightarrow> 'v \<Rightarrow> ('k, 'v) umap \<Rightarrow> ('k, 'v) umap" where
  "um_try_emplace k v m = (case um_find m k of None \<Rightarrow> um_assign k v m | Some _ \<Rightarrow> m)"

definition um_index :: "'k \<Rightarrow> 'v \<Rightarrow> ('k, 'v) umap \<Rightarrow> 'v \<times> ('k, 'v) umap" where
  "um_index k d m = (case um_find m k of None \<Rightarrow> (d, um_assign k d m) | Some v \<Rightarrow> (v, m))"

definition um_size :: "('k, 'v) umap \<Rightarrow> nat" where
  "um_size m = length m"

definition um_wf :: "('k, 'v) umap \<Rightarrow> bool" where
  "um_wf m = distinct (map fst m)"

text \<open>What a user of the container relies on, and what follows from it.\<close>

locale unordered_map =
  fixes empty :: 'm
    and find :: "'m \<Rightarrow> 'k \<Rightarrow> 'v option"
    and assign :: "'k \<Rightarrow> 'v \<Rightarrow> 'm \<Rightarrow> 'm"
    and erase :: "'k \<Rightarrow> 'm \<Rightarrow> 'm"
    and size :: "'m \<Rightarrow> nat"
    and wf :: "'m \<Rightarrow> bool"
  assumes find_empty: "find empty = Map.empty"
    and find_assign: "find (assign k v m) = (find m)(k \<mapsto> v)"
    and find_erase: "find (erase k m) = (find m)(k := None)"
    and wf_empty: "wf empty"
    and wf_assign: "wf m \<Longrightarrow> wf (assign k v m)"
    and wf_erase: "wf m \<Longrightarrow> wf (erase k m)"
    and finite_dom: "finite (dom (find m))"
    and size_card: "wf m \<Longrightarrow> size m = card (dom (find m))"
begin

lemma size_assign:
  "wf m \<Longrightarrow> size (assign k v m) = (if find m k = None then Suc (size m) else size m)"
  by (auto simp: size_card wf_assign find_assign finite_dom card_insert_if domIff)

lemma size_erase:
  "wf m \<Longrightarrow> size (erase k m) = (if find m k = None then size m else size m - 1)"
  by (auto simp: size_card wf_erase find_erase finite_dom domIff)

lemma size_bound: "wf m \<Longrightarrow> finite A \<Longrightarrow> dom (find m) \<subseteq> A \<Longrightarrow> size m \<le> card A"
  by (simp add: size_card card_mono)

lemma size_eq_card_iff:
  "wf m \<Longrightarrow> finite A \<Longrightarrow> dom (find m) \<subseteq> A \<Longrightarrow> size m = card A \<longleftrightarrow> dom (find m) = A"
  by (metis size_card card_subset_eq)

end

interpretation um: unordered_map "[]" um_find um_assign um_erase um_size um_wf
proof
  show "um_find ([] :: ('k, 'v) umap) = Map.empty"
    by (simp add: um_find_def fun_eq_iff)
  show "um_wf m \<Longrightarrow> um_size m = card (dom (um_find m))" for m :: "('k, 'v) umap"
  proof -
    assume "um_wf m"
    then have "card (fst ` set m) = length m"
      using distinct_card [of "map fst m"] by (simp add: um_wf_def)
    then show ?thesis
      by (simp add: um_size_def um_find_def [abs_def] dom_map_of_conv_image_fst)
  qed
qed (simp_all add: um_find_def [abs_def] um_assign_def um_erase_def um_wf_def
      update_conv' delete_conv' distinct_update distinct_delete finite_dom_map_of)

lemmas um_simps [simp] = um.find_empty um.find_assign um.find_erase um.wf_empty
  um.wf_assign um.wf_erase um.finite_dom

lemma um_find_try_emplace [simp]:
  "um_find (um_try_emplace k v m) = (um_find m)(k := Some (case um_find m k of None \<Rightarrow> v | Some x \<Rightarrow> x))"
  by (auto simp: um_try_emplace_def split: option.splits)

lemma um_wf_try_emplace [simp]: "um_wf m \<Longrightarrow> um_wf (um_try_emplace k v m)"
  by (simp add: um_try_emplace_def split: option.splits)

lemma um_find_index [simp]:
  "um_find (snd (um_index k d m)) = (um_find m)(k := Some (fst (um_index k d m)))"
  by (auto simp: um_index_def split: option.splits)

lemma um_wf_index [simp]: "um_wf m \<Longrightarrow> um_wf (snd (um_index k d m))"
  by (simp add: um_index_def split: option.splits)

lemma fst_um_index: "fst (um_index k d m) = (case um_find m k of None \<Rightarrow> d | Some v \<Rightarrow> v)"
  by (simp add: um_index_def split: option.splits)

lemma um_in_set: "um_wf m \<Longrightarrow> (k, v) \<in> set m \<longleftrightarrow> um_find m k = Some v"
  by (simp add: um_wf_def um_find_def map_of_eq_Some_iff)

lemma um_ball:
  "um_wf m \<Longrightarrow> (\<forall>(k, v) \<in> set m. P k v) \<longleftrightarrow> (\<forall>k v. um_find m k = Some v \<longrightarrow> P k v)"
  by (simp add: Ball_def um_in_set)

lemmas um_eval = um_find_def um_assign_def um_erase_def um_try_emplace_def um_index_def
  um_size_def um_wf_def

definition drop_nth :: "nat \<Rightarrow> 'a list \<Rightarrow> 'a list" where
  "drop_nth i xs = take i xs @ drop (Suc i) xs"

lemma length_drop_nth [simp]: "i < length xs \<Longrightarrow> length (drop_nth i xs) = length xs - 1"
  by (simp add: drop_nth_def)

lemma nth_drop_nth: "i < length xs \<Longrightarrow> j < length xs - 1 \<Longrightarrow> drop_nth i xs ! j = xs ! (if j < i then j else Suc j)"
  by (auto simp: drop_nth_def nth_append)

lemma drop_nth_other:
  assumes "i < length xs" and "k < length xs" and "i \<noteq> k"
  shows "\<exists>k' < length (drop_nth i xs). drop_nth i xs ! k' = xs ! k
    \<and> (\<forall>j < length (drop_nth i xs). j \<noteq> k' \<longrightarrow> (\<exists>j' < length xs. j' \<noteq> k \<and> drop_nth i xs ! j = xs ! j'))"
proof (rule exI [of _ "if k < i then k else k - 1"], intro conjI allI impI)
  fix j assume "j < length (drop_nth i xs)" "j \<noteq> (if k < i then k else k - 1)"
  with assms show "\<exists>j' < length xs. j' \<noteq> k \<and> drop_nth i xs ! j = xs ! j'"
    by (intro exI [of _ "if j < i then j else Suc j"]) (auto simp: nth_drop_nth split: if_splits)
qed (use assms in \<open>auto simp: nth_drop_nth\<close>)

lemma list_all_drop_nth: "list_all P xs \<Longrightarrow> list_all P (drop_nth i xs)"
  by (auto simp: drop_nth_def list_all_iff dest: in_set_takeD in_set_dropD)

lemma drop_eq_ConsD:
  assumes "x # ys = drop n zs"
  shows "n < length zs" "zs ! n = x" "ys = drop (Suc n) zs"
proof -
  show n: "n < length zs" using assms by (cases "n < length zs") simp_all
  show "zs ! n = x" "ys = drop (Suc n) zs" using assms unfolding Cons_nth_drop_Suc [OF n, symmetric] by simp_all
qed

lemma map_sum_Inr: "map_sum f g x = Inr y \<longleftrightarrow> (\<exists>z. x = Inr z \<and> y = g z)"
  by (cases x) auto

end
