(* ===== verification/Jay_Types.thy ===== *)
theory Jay_Types
  imports Jay_Prelude
begin

text \<open>
  The integer types and protocol constants of \<^verbatim>\<open>src/include/jay/j1939_type.hpp\<close>, and the
  two transport protocol group numbers of \<^verbatim>\<open>src/include/jay/transport_protocol.hpp\<close>.
\<close>

section \<open>Types\<close>

type_synonym priority_t = u8
type_synonym address_t = u8
type_synonym name_t = u64
type_synonym pgn_t = u32

section \<open>Constants\<close>

definition PF_PDU1_MAX :: u8 where [j1939_consts]: "PF_PDU1_MAX = 0xEF"

definition PF_ADDRESS_CLAIM :: u8 where [j1939_consts]: "PF_ADDRESS_CLAIM = 0xEE"

definition PF_REQUEST :: u8 where [j1939_consts]: "PF_REQUEST = 0xEA"

definition PF_ACKNOWLEDGE :: u8 where [j1939_consts]: "PF_ACKNOWLEDGE = 0xE8"

definition J1939_MAX_UNICAST_ADDR :: address_t where
  [j1939_consts]: "J1939_MAX_UNICAST_ADDR = 0xFD"

definition J1939_IDLE_ADDR :: address_t where [j1939_consts]: "J1939_IDLE_ADDR = 0xFE"

definition J1939_NO_ADDR :: address_t where [j1939_consts]: "J1939_NO_ADDR = 0xFF"

definition J1939_NO_NAME :: name_t where [j1939_consts]: "J1939_NO_NAME = 0"

definition J1939_PGN_REQUEST :: pgn_t where [j1939_consts]: "J1939_PGN_REQUEST = 0x0EA00"

definition J1939_PGN_ADDRESS_CLAIMED :: pgn_t where
  [j1939_consts]: "J1939_PGN_ADDRESS_CLAIMED = 0x0EE00"

definition J1939_PGN_ADDRESS_COMMANDED :: pgn_t where
  [j1939_consts]: "J1939_PGN_ADDRESS_COMMANDED = 0x0FED8"

definition J1939_PGN_PDU1_MAX :: pgn_t where [j1939_consts]: "J1939_PGN_PDU1_MAX = 0x3FF00"

definition J1939_PGN_MAX :: pgn_t where [j1939_consts]: "J1939_PGN_MAX = 0x3FFFF"

definition PGN_TP_CM :: u32 where [j1939_consts]: "PGN_TP_CM = 0x00EC00"

definition PGN_TP_DT :: u32 where [j1939_consts]: "PGN_TP_DT = 0x00EB00"

section \<open>Address ranges\<close>

text \<open>
  Addresses 0 to 253 name one device. The two above them are the idle address of a device
  without an address and the global address.
\<close>

abbreviation unicast :: "address_t \<Rightarrow> bool" where
  "unicast a \<equiv> a \<le> J1939_MAX_UNICAST_ADDR"

lemma unicast_unat: "unicast a \<longleftrightarrow> unat a < 254"
  by (simp add: j1939_consts word_le_nat_alt) arith

lemma not_unicast_cases: "\<not> unicast a \<longleftrightarrow> a = J1939_IDLE_ADDR \<or> a = J1939_NO_ADDR"
proof -
  have "unat a < 2 ^ LENGTH(8)"
    by (rule unsigned_less)
  then have "\<not> unat a < 254 \<longleftrightarrow> unat a = unat J1939_IDLE_ADDR \<or> unat a = unat J1939_NO_ADDR"
    by (auto simp: j1939_consts)
  then show ?thesis
    by (simp add: unicast_unat word_unat_eq_iff)
qed

lemma special_addresses [simp]:
  "\<not> unicast J1939_IDLE_ADDR" "\<not> unicast J1939_NO_ADDR"
  "J1939_MAX_UNICAST_ADDR < J1939_IDLE_ADDR" "J1939_MAX_UNICAST_ADDR < J1939_NO_ADDR"
  "J1939_IDLE_ADDR \<noteq> J1939_NO_ADDR" "J1939_NO_ADDR \<noteq> J1939_IDLE_ADDR"
  by (simp_all add: j1939_consts)

lemma unicast_neq:
  "unicast a \<Longrightarrow> a \<noteq> J1939_IDLE_ADDR" "unicast a \<Longrightarrow> a \<noteq> J1939_NO_ADDR"
  by auto

lemma card_unicast: "card {a. unicast a} = 254"
proof -
  have "bij_betw unat {a. unicast a} {..<254}"
    by (rule bij_betw_byWitness [where f' = word_of_nat])
      (auto simp: unicast_unat unat_of_nat word_unat_eq_iff)
  then show ?thesis
    using bij_betw_same_card by fastforce
qed

lemma finite_unicast [simp]: "finite {a. unicast a}"
  by (rule card_ge_0_finite) (simp add: card_unicast)

end
