(* ===== verification/Jay_Name.thy ===== *)
theory Jay_Name
  imports Jay_Types
begin

text \<open>
  The class \<^verbatim>\<open>jay::name\<close> of \<^verbatim>\<open>src/include/jay/name.hpp\<close>: a 64-bit device name made of nine
  fields, its setters and getters, its comparison operators, its hash function and its
  conversion to and from the eight payload bytes of an address claim.
\<close>

section \<open>Data\<close>

datatype name = Name (name_val: name_t)

text \<open>The class converts implicitly to \<^verbatim>\<open>name_t\<close>; the operators it does not define
  (\<^verbatim>\<open><=\<close> and, in C++17, \<^verbatim>\<open>!=\<close>) are the built-in ones on the converted values. The library's
  order on names is that built-in order.\<close>

instantiation name :: linorder
begin

definition less_eq_name :: "name \<Rightarrow> name \<Rightarrow> bool" where
  "less_eq_name a b = (name_val a \<le> name_val b)"

definition less_name :: "name \<Rightarrow> name \<Rightarrow> bool" where
  "less_name a b = (name_val a < name_val b)"

instance
  by standard (auto simp: less_eq_name_def less_name_def name.expand)

end

section \<open>Masks and start bits\<close>

definition slf_cfg_addr_mask :: name_t where [name_defs]: "slf_cfg_addr_mask = 0x8000000000000000"
definition ind_grp_mask :: name_t where [name_defs]: "ind_grp_mask = 0x7000000000000000"
definition dev_cls_inst_mask :: name_t where [name_defs]: "dev_cls_inst_mask = 0x0F00000000000000"
definition dev_cls_mask :: name_t where [name_defs]: "dev_cls_mask = 0x00FE000000000000"
definition func_mask :: name_t where [name_defs]: "func_mask = 0x0000FF0000000000"
definition func_inst_mask :: name_t where [name_defs]: "func_inst_mask = 0x000000F800000000"
definition ecu_inst_mask :: name_t where [name_defs]: "ecu_inst_mask = 0x0000000700000000"
definition man_code_mask :: name_t where [name_defs]: "man_code_mask = 0x00000000FFE00000"
definition id_num_mask :: name_t where [name_defs]: "id_num_mask = 0x00000000001FFFFF"

definition slf_cfg_addr_start_bit :: nat where [name_defs]: "slf_cfg_addr_start_bit = 63"
definition ind_grp_start_bit :: nat where [name_defs]: "ind_grp_start_bit = 60"
definition dev_cls_inst_start_bit :: nat where [name_defs]: "dev_cls_inst_start_bit = 56"
definition dev_cls_start_bit :: nat where [name_defs]: "dev_cls_start_bit = 49"
definition func_start_bit :: nat where [name_defs]: "func_start_bit = 40"
definition func_inst_start_bit :: nat where [name_defs]: "func_inst_start_bit = 35"
definition ecu_inst_start_bit :: nat where [name_defs]: "ecu_inst_start_bit = 32"
definition man_code_start_bit :: nat where [name_defs]: "man_code_start_bit = 21"
definition id_num_start_bit :: nat where [name_defs]: "id_num_start_bit = 0"

section \<open>Construction\<close>

definition name_default :: name where
  [name_defs]: "name_default = Name J1939_NO_NAME"

definition name_of_fields ::
  "u32 \<Rightarrow> u16 \<Rightarrow> u8 \<Rightarrow> u8 \<Rightarrow> u8 \<Rightarrow> u8 \<Rightarrow> u8 \<Rightarrow> u8 \<Rightarrow> u8 \<Rightarrow> name" where
  [name_defs]: "name_of_fields id_num man_code ecu_inst func_inst func dev_cls dev_cls_inst ind_grp
     slf_cfg_addr = Name
      ((push_bit slf_cfg_addr_start_bit (ucast slf_cfg_addr) AND slf_cfg_addr_mask)
       OR (push_bit ind_grp_start_bit (ucast ind_grp) AND ind_grp_mask)
       OR (push_bit dev_cls_inst_start_bit (ucast dev_cls_inst) AND dev_cls_inst_mask)
       OR (push_bit dev_cls_start_bit (ucast dev_cls) AND dev_cls_mask)
       OR (push_bit func_start_bit (ucast func) AND func_mask)
       OR (push_bit func_inst_start_bit (ucast func_inst) AND func_inst_mask)
       OR (push_bit ecu_inst_start_bit (ucast ecu_inst) AND ecu_inst_mask)
       OR (push_bit man_code_start_bit (ucast man_code) AND man_code_mask)
       OR (push_bit id_num_start_bit (ucast id_num) AND id_num_mask))"

definition name_of_value :: "name_t \<Rightarrow> name" where
  [name_defs]: "name_of_value v = Name v"

text \<open>The eight payload bytes are a list; \<^verbatim>\<open>std::array<uint8_t, 8>\<close> fixes its length to 8.\<close>

definition name_of_payload :: "u8 list \<Rightarrow> name" where
  [name_defs]: "name_of_payload payload = Name
      (ucast (payload ! 0)
       OR push_bit 8 (ucast (payload ! 1))
       OR push_bit 16 (ucast (payload ! 2))
       OR push_bit 24 (ucast (payload ! 3))
       OR push_bit 32 (ucast (payload ! 4))
       OR push_bit 40 (ucast (payload ! 5))
       OR push_bit 48 (ucast (payload ! 6))
       OR push_bit 56 (ucast (payload ! 7)))"

section \<open>Setters\<close>

definition set_identity_number :: "u32 \<Rightarrow> name \<Rightarrow> name" where
  [name_defs]: "set_identity_number id_num n = Name ((name_val n AND NOT id_num_mask)
      OR (ucast (push_bit id_num_start_bit id_num) AND id_num_mask))"

definition set_manufacturer_code :: "u16 \<Rightarrow> name \<Rightarrow> name" where
  [name_defs]: "set_manufacturer_code man_code n = Name ((name_val n AND NOT man_code_mask)
      OR (push_bit man_code_start_bit (ucast man_code) AND man_code_mask))"

definition set_ecu_instance :: "u8 \<Rightarrow> name \<Rightarrow> name" where
  [name_defs]: "set_ecu_instance ecu_inst n = Name ((name_val n AND NOT ecu_inst_mask)
      OR (push_bit ecu_inst_start_bit (ucast ecu_inst) AND ecu_inst_mask))"

definition set_function_instance :: "u8 \<Rightarrow> name \<Rightarrow> name" where
  [name_defs]: "set_function_instance func_inst n = Name ((name_val n AND NOT func_inst_mask)
      OR (push_bit func_inst_start_bit (ucast func_inst) AND func_inst_mask))"

definition set_function :: "u8 \<Rightarrow> name \<Rightarrow> name" where
  [name_defs]: "set_function func n = Name ((name_val n AND NOT func_mask)
      OR (push_bit func_start_bit (ucast func) AND func_mask))"

definition set_device_class :: "u8 \<Rightarrow> name \<Rightarrow> name" where
  [name_defs]: "set_device_class dev_cls n = Name ((name_val n AND NOT dev_cls_mask)
      OR (push_bit dev_cls_start_bit (ucast dev_cls) AND dev_cls_mask))"

definition set_device_class_instance :: "u8 \<Rightarrow> name \<Rightarrow> name" where
  [name_defs]: "set_device_class_instance dev_cls_inst n = Name ((name_val n AND NOT dev_cls_inst_mask)
      OR (push_bit dev_cls_inst_start_bit (ucast dev_cls_inst) AND dev_cls_inst_mask))"

definition set_industry_group :: "u8 \<Rightarrow> name \<Rightarrow> name" where
  [name_defs]: "set_industry_group ind_grp n = Name ((name_val n AND NOT ind_grp_mask)
      OR (push_bit ind_grp_start_bit (ucast ind_grp) AND ind_grp_mask))"

definition set_self_config_address :: "u8 \<Rightarrow> name \<Rightarrow> name" where
  [name_defs]: "set_self_config_address slf_cfg_addr n = Name ((name_val n AND NOT slf_cfg_addr_mask)
      OR (push_bit slf_cfg_addr_start_bit (ucast slf_cfg_addr) AND slf_cfg_addr_mask))"

section \<open>Getters\<close>

definition identity_number :: "name \<Rightarrow> u32" where
  [name_defs]: "identity_number n = ucast (name_val n AND id_num_mask)"

definition manufacturer_code :: "name \<Rightarrow> u16" where
  [name_defs]: "manufacturer_code n = ucast (drop_bit man_code_start_bit (name_val n AND man_code_mask))"

definition ecu_instance :: "name \<Rightarrow> u8" where
  [name_defs]: "ecu_instance n = ucast (drop_bit ecu_inst_start_bit (name_val n AND ecu_inst_mask))"

definition function_instance :: "name \<Rightarrow> u8" where
  [name_defs]: "function_instance n = ucast (drop_bit func_inst_start_bit (name_val n AND func_inst_mask))"

definition function_code :: "name \<Rightarrow> u8" where
  [name_defs]: "function_code n = ucast (drop_bit func_start_bit (name_val n AND func_mask))"

definition device_class :: "name \<Rightarrow> u8" where
  [name_defs]: "device_class n = ucast (drop_bit dev_cls_start_bit (name_val n AND dev_cls_mask))"

definition device_class_instance :: "name \<Rightarrow> u8" where
  [name_defs]: "device_class_instance n =
     ucast (drop_bit dev_cls_inst_start_bit (name_val n AND dev_cls_inst_mask))"

definition industry_group :: "name \<Rightarrow> u8" where
  [name_defs]: "industry_group n = ucast (drop_bit ind_grp_start_bit (name_val n AND ind_grp_mask))"

definition self_config_address :: "name \<Rightarrow> u8" where
  [name_defs]: "self_config_address n =
     ucast (drop_bit slf_cfg_addr_start_bit (name_val n AND slf_cfg_addr_mask))"

section \<open>Comparison, hash and conversion\<close>

text \<open>\<^verbatim>\<open>operator<\<close>, \<^verbatim>\<open>operator>\<close> and \<^verbatim>\<open>operator==\<close> leave out the self-configuration bit;
  the hash takes the whole value. \<^verbatim>\<open>std::hash<uint64_t>\<close> is the value itself.\<close>

definition name_less :: "name \<Rightarrow> name \<Rightarrow> bool" where
  "name_less l r \<longleftrightarrow> (name_val l AND NOT slf_cfg_addr_mask) < (name_val r AND NOT slf_cfg_addr_mask)"

definition name_greater :: "name \<Rightarrow> name \<Rightarrow> bool" where
  "name_greater l r \<longleftrightarrow> (name_val l AND NOT slf_cfg_addr_mask) > (name_val r AND NOT slf_cfg_addr_mask)"

definition name_eq :: "name \<Rightarrow> name \<Rightarrow> bool" where
  "name_eq l r \<longleftrightarrow> (name_val l AND NOT slf_cfg_addr_mask) = (name_val r AND NOT slf_cfg_addr_mask)"

definition name_less_value :: "name \<Rightarrow> name_t \<Rightarrow> bool" where
  "name_less_value n rhs = name_less n (name_of_value rhs)"

definition name_greater_value :: "name \<Rightarrow> name_t \<Rightarrow> bool" where
  "name_greater_value n rhs = name_greater n (name_of_value rhs)"

definition name_eq_value :: "name \<Rightarrow> name_t \<Rightarrow> bool" where
  "name_eq_value n rhs = name_eq n (name_of_value rhs)"

definition name_to_value :: "name \<Rightarrow> name_t" where
  "name_to_value n = name_val n"

definition name_hash :: "name \<Rightarrow> u64" where
  "name_hash n = name_val n"

definition name_to_payload :: "name \<Rightarrow> u8 list" where
  [name_defs]: "name_to_payload n =
     [ucast (name_val n),
      ucast (drop_bit 8 (name_val n)),
      ucast (drop_bit 16 (name_val n)),
      ucast (drop_bit 24 (name_val n)),
      ucast (drop_bit 32 (name_val n)),
      ucast (drop_bit 40 (name_val n)),
      ucast (drop_bit 48 (name_val n)),
      ucast (drop_bit 56 (name_val n))]"

section \<open>The nine fields, uniformly\<close>

text \<open>
  One index for the nine fields, so that the laws of the getters and setters are stated once:
  \<open>get_field\<close> and \<open>set_field\<close> dispatch to the member functions above, with the parameter
  cast to the member's parameter type.
\<close>

datatype name_field = Identity_number | Manufacturer_code | Ecu_instance | Function_instance
  | Function_code | Device_class | Device_class_instance | Industry_group | Self_config_address

fun get_field :: "name_field \<Rightarrow> name \<Rightarrow> u64" where
  "get_field Identity_number n = ucast (identity_number n)"
| "get_field Manufacturer_code n = ucast (manufacturer_code n)"
| "get_field Ecu_instance n = ucast (ecu_instance n)"
| "get_field Function_instance n = ucast (function_instance n)"
| "get_field Function_code n = ucast (function_code n)"
| "get_field Device_class n = ucast (device_class n)"
| "get_field Device_class_instance n = ucast (device_class_instance n)"
| "get_field Industry_group n = ucast (industry_group n)"
| "get_field Self_config_address n = ucast (self_config_address n)"

fun set_field :: "name_field \<Rightarrow> u64 \<Rightarrow> name \<Rightarrow> name" where
  "set_field Identity_number v n = set_identity_number (ucast v) n"
| "set_field Manufacturer_code v n = set_manufacturer_code (ucast v) n"
| "set_field Ecu_instance v n = set_ecu_instance (ucast v) n"
| "set_field Function_instance v n = set_function_instance (ucast v) n"
| "set_field Function_code v n = set_function (ucast v) n"
| "set_field Device_class v n = set_device_class (ucast v) n"
| "set_field Device_class_instance v n = set_device_class_instance (ucast v) n"
| "set_field Industry_group v n = set_industry_group (ucast v) n"
| "set_field Self_config_address v n = set_self_config_address (ucast v) n"

fun field_mask :: "name_field \<Rightarrow> u64" where
  "field_mask Identity_number = id_num_mask"
| "field_mask Manufacturer_code = man_code_mask"
| "field_mask Ecu_instance = ecu_inst_mask"
| "field_mask Function_instance = func_inst_mask"
| "field_mask Function_code = func_mask"
| "field_mask Device_class = dev_cls_mask"
| "field_mask Device_class_instance = dev_cls_inst_mask"
| "field_mask Industry_group = ind_grp_mask"
| "field_mask Self_config_address = slf_cfg_addr_mask"

fun field_start :: "name_field \<Rightarrow> nat" where
  "field_start Identity_number = id_num_start_bit"
| "field_start Manufacturer_code = man_code_start_bit"
| "field_start Ecu_instance = ecu_inst_start_bit"
| "field_start Function_instance = func_inst_start_bit"
| "field_start Function_code = func_start_bit"
| "field_start Device_class = dev_cls_start_bit"
| "field_start Device_class_instance = dev_cls_inst_start_bit"
| "field_start Industry_group = ind_grp_start_bit"
| "field_start Self_config_address = slf_cfg_addr_start_bit"

text \<open>The widths that the class comment gives for the fields.\<close>

fun field_width :: "name_field \<Rightarrow> nat" where
  "field_width Identity_number = 21"
| "field_width Manufacturer_code = 11"
| "field_width Ecu_instance = 3"
| "field_width Function_instance = 5"
| "field_width Function_code = 8"
| "field_width Device_class = 7"
| "field_width Device_class_instance = 4"
| "field_width Industry_group = 3"
| "field_width Self_config_address = 1"

interpretation nf: bit_field "field_mask f" "field_start f" "field_width f" for f
  by unfold_locales (cases f; simp add: name_defs mask_eq_exp_minus_1)+

lemma field_masks_disjoint: "g \<noteq> f \<Longrightarrow> field_mask g AND field_mask f = 0"
  by (cases f; cases g; simp add: name_defs)

lemma bit_field_mask: "bit (field_mask f) n \<longleftrightarrow> field_start f \<le> n \<and> n < field_start f + field_width f"
  by (rule nf.bit_msk)

lemmas field_bits =
  bit_field_mask [of Identity_number, unfolded field_mask.simps]
  bit_field_mask [of Manufacturer_code, unfolded field_mask.simps]
  bit_field_mask [of Ecu_instance, unfolded field_mask.simps]
  bit_field_mask [of Function_instance, unfolded field_mask.simps]
  bit_field_mask [of Function_code, unfolded field_mask.simps]
  bit_field_mask [of Device_class, unfolded field_mask.simps]
  bit_field_mask [of Device_class_instance, unfolded field_mask.simps]
  bit_field_mask [of Industry_group, unfolded field_mask.simps]
  bit_field_mask [of Self_config_address, unfolded field_mask.simps]

lemmas start_bits = slf_cfg_addr_start_bit_def ind_grp_start_bit_def dev_cls_inst_start_bit_def
  dev_cls_start_bit_def func_start_bit_def func_inst_start_bit_def ecu_inst_start_bit_def
  man_code_start_bit_def id_num_start_bit_def

lemmas getter_defs = identity_number_def manufacturer_code_def ecu_instance_def
  function_instance_def function_code_def device_class_def device_class_instance_def
  industry_group_def self_config_address_def

lemmas setter_defs = set_identity_number_def set_manufacturer_code_def set_ecu_instance_def
  set_function_instance_def set_function_def set_device_class_def set_device_class_instance_def
  set_industry_group_def set_self_config_address_def

text \<open>No getter loses bits in its cast, and no setter needs bits that its parameter type lacks.\<close>

lemma get_field_eq: "get_field f n = drop_bit (field_start f) (name_val n AND field_mask f)"
  by (cases f; rule bit_word_eqI; auto simp: getter_defs field_bits start_bits bit_simps)

lemma set_field_eq:
  "name_val (set_field f v n) =
     (name_val n AND NOT (field_mask f)) OR (push_bit (field_start f) v AND field_mask f)"
  by (cases f; rule bit_word_eqI; auto simp: setter_defs field_bits start_bits bit_simps)

lemma get_set_field:
  "get_field g (set_field f v n) = (if g = f then take_bit (field_width f) v else get_field g n)"
  by (cases "g = f") (simp_all only: get_field_eq set_field_eq nf.get_put nf.put_elsewhere
      field_masks_disjoint simp_thms if_True if_False not_False_eq_True)

lemma get_field_width: "take_bit (field_width f) (get_field f n) = get_field f n"
  by (simp only: get_field_eq nf.get_eq take_bit_take_bit min.idem)

lemma self_config_address_bit: "self_config_address n = of_bool (bit (name_val n) 63)"
  by (rule bit_word_eqI)
    (auto simp: self_config_address_def field_bits start_bits bit_simps dest: bit_word_less)

lemma self_config_address_range: "self_config_address n = 0 \<or> self_config_address n = 1"
  by (simp add: self_config_address_bit)

section \<open>The priority part of a name\<close>

text \<open>What the comparison operators look at: the name without its self-configuration bit.\<close>

definition name_prio :: "name \<Rightarrow> u64" where
  "name_prio n = name_val n AND NOT slf_cfg_addr_mask"

lemma name_order_prio:
  "name_less l r \<longleftrightarrow> name_prio l < name_prio r"
  "name_greater l r \<longleftrightarrow> name_prio r < name_prio l"
  "name_eq l r \<longleftrightarrow> name_prio l = name_prio r"
  by (simp_all add: name_less_def name_greater_def name_eq_def name_prio_def)

lemma name_prio_self_config: "name_prio (set_self_config_address v n) = name_prio n"
  by (rule bit_word_eqI)
    (auto simp: name_prio_def set_self_config_address_def field_bits start_bits bit_simps)

lemma name_val_split:
  "name_val n = name_prio n OR push_bit 63 (ucast (self_config_address n))"
proof (rule bit_word_eqI)
  fix i
  assume "i < LENGTH(64)"
  then have "i < 63 \<or> i = 63" by auto
  then show "bit (name_val n) i =
      bit (name_prio n OR push_bit 63 (ucast (self_config_address n))) i"
    by (auto simp: name_prio_def self_config_address_bit field_bits start_bits bit_simps)
qed

lemma name_eq_same_config:
  "name_eq a b \<Longrightarrow> self_config_address a = self_config_address b \<Longrightarrow> a = b"
  by (metis name.expand name_order_prio(3) name_val_split)

lemma name_order_trichotomy: "name_less a b \<or> name_eq a b \<or> name_greater a b"
  by (auto simp: name_order_prio)

section \<open>Payload bytes\<close>

lemma length_name_to_payload [simp]: "length (name_to_payload n) = 8"
  by (simp add: name_to_payload_def)

lemma byte_index_cases:
  assumes "(q::nat) < 8"
  obtains "q = 0" | "q = 1" | "q = 2" | "q = 3" | "q = 4" | "q = 5" | "q = 6" | "q = 7"
  using assms by linarith

lemma bit_name_of_payload_at:
  assumes "q < 8" and "r < 8"
  shows "bit (name_val (name_of_payload p)) (8 * q + r) \<longleftrightarrow> bit (p ! q) r"
  using assms(1)
  by (cases rule: byte_index_cases)
    (use assms(2) in \<open>simp_all add: name_of_payload_def bit_or_iff bit_push_bit_iff ucast_u8_bit\<close>)

lemma bit_name_of_payload:
  assumes "i < 64"
  shows "bit (name_val (name_of_payload p)) i \<longleftrightarrow> bit (p ! (i div 8)) (i mod 8)"
proof -
  have "i div 8 < 8" "i mod 8 < 8" "8 * (i div 8) + i mod 8 = i"
    using assms by auto
  then show ?thesis
    using bit_name_of_payload_at [of "i div 8" "i mod 8" p] by simp
qed

lemma bit_name_to_payload:
  assumes "q < 8" and "r < 8"
  shows "bit (name_to_payload n ! q) r \<longleftrightarrow> bit (name_val n) (8 * q + r)"
  using assms(1)
  by (cases rule: byte_index_cases)
    (use assms(2) in \<open>simp_all add: name_to_payload_def bit_ucast_iff bit_drop_bit_eq\<close>)

lemma name_of_to_payload [simp]: "name_of_payload (name_to_payload n) = n"
  by (rule name.expand, rule bit_word_eqI) (simp add: bit_name_of_payload bit_name_to_payload)

lemma name_to_of_payload:
  assumes "length p = 8"
  shows "name_to_payload (name_of_payload p) = p"
proof (rule nth_equalityI)
  fix q
  assume "q < length (name_to_payload (name_of_payload p))"
  then show "name_to_payload (name_of_payload p) ! q = p ! q"
    by (intro bit_word_eqI) (simp add: bit_name_of_payload bit_name_to_payload)
qed (simp add: assms)

section \<open>Properties\<close>

text \<open>The elements of the nine-argument constructor, by field.\<close>

fun field_arg :: "name_field \<Rightarrow> u32 \<Rightarrow> u16 \<Rightarrow> u8 \<Rightarrow> u8 \<Rightarrow> u8 \<Rightarrow> u8 \<Rightarrow> u8 \<Rightarrow> u8 \<Rightarrow> u8 \<Rightarrow> u64" where
  "field_arg Identity_number idn mc ei fi fc dc dci ig sca = ucast idn"
| "field_arg Manufacturer_code idn mc ei fi fc dc dci ig sca = ucast mc"
| "field_arg Ecu_instance idn mc ei fi fc dc dci ig sca = ucast ei"
| "field_arg Function_instance idn mc ei fi fc dc dci ig sca = ucast fi"
| "field_arg Function_code idn mc ei fi fc dc dci ig sca = ucast fc"
| "field_arg Device_class idn mc ei fi fc dc dci ig sca = ucast dc"
| "field_arg Device_class_instance idn mc ei fi fc dc dci ig sca = ucast dci"
| "field_arg Industry_group idn mc ei fi fc dc dci ig sca = ucast ig"
| "field_arg Self_config_address idn mc ei fi fc dc dci ig sca = ucast sca"

lemma name_of_fields_masked:
  "name_val (name_of_fields idn mc ei fi fc dc dci ig sca) AND field_mask f =
     push_bit (field_start f) (field_arg f idn mc ei fi fc dc dci ig sca) AND field_mask f"
  by (cases f) (simp_all add: name_defs bit.conj_disj_distrib2 and.assoc)

lemma get_field_name_of_fields:
  "get_field f (name_of_fields idn mc ei fi fc dc dci ig sca) =
     take_bit (field_width f) (field_arg f idn mc ei fi fc dc dci ig sca)"
  by (simp only: get_field_eq name_of_fields_masked nf.get_push)

lemma getter_get_field:
  "identity_number n = ucast (get_field Identity_number n)"
  "manufacturer_code n = ucast (get_field Manufacturer_code n)"
  "ecu_instance n = ucast (get_field Ecu_instance n)"
  "function_instance n = ucast (get_field Function_instance n)"
  "function_code n = ucast (get_field Function_code n)"
  "device_class n = ucast (get_field Device_class n)"
  "device_class_instance n = ucast (get_field Device_class_instance n)"
  "industry_group n = ucast (get_field Industry_group n)"
  "self_config_address n = ucast (get_field Self_config_address n)"
  by (simp_all add: ucast_up_ucast_id is_up)

text \<open>
  C36. Building a name from its nine elements and reading them back gives every element,
  cut to the width of its field: 21, 11, 3, 5, 8, 7, 4, 3 and 1 bits.
\<close>

theorem name_of_fields_getters:
  "let n = name_of_fields idn mc ei fi fc dc dci ig sca in
     identity_number n = take_bit 21 idn \<and> manufacturer_code n = take_bit 11 mc
     \<and> ecu_instance n = take_bit 3 ei \<and> function_instance n = take_bit 5 fi
     \<and> function_code n = fc \<and> device_class n = take_bit 7 dc
     \<and> device_class_instance n = take_bit 4 dci \<and> industry_group n = take_bit 3 ig
     \<and> self_config_address n = take_bit 1 sca"
  unfolding Let_def getter_get_field get_field_name_of_fields field_arg.simps field_width.simps
  by (intro conjI; subst ucast_take_bit_ucast; simp add: take_bit_length_eq [where 'a = 8, simplified])

text \<open>
  A setter writes its own field, cut to the field's width, and leaves the eight others
  and the reserved bit as they are.
\<close>

theorem set_field_frame:
  "get_field g (set_field f v n) = (if g = f then take_bit (field_width f) v else get_field g n)
   \<and> (bit (name_val (set_field f v n)) 48 \<longleftrightarrow> bit (name_val n) 48)"
proof -
  have "\<not> bit (field_mask f) 48"
    by (cases f) (simp_all add: field_bits start_bits)
  then show ?thesis
    by (simp add: get_set_field set_field_eq bit_simps)
qed

text \<open>
  C34. The eight payload bytes of a name determine it and every eight bytes are the payload
  of a name: the conversion and the payload constructor are inverse to each other.
\<close>

theorem name_payload_roundtrip:
  "name_of_payload (name_to_payload n) = n
   \<and> (length p = 8 \<longrightarrow> name_to_payload (name_of_payload p) = p)"
  by (simp add: name_to_of_payload)

theorem name_payload_roundtrip_witness:
  "name_to_payload (name_of_payload [0, 0, 0x20, 0x80, 0x84, 0x80, 0x80, 0xC8])
     = [0, 0, 0x20, 0x80, 0x84, 0x80, 0x80, 0xC8]"
  using name_payload_roundtrip [of name_default "[0, 0, 0x20, 0x80, 0x84, 0x80, 0x80, 0xC8]"]
  by simp



text \<open>
  Names that \<^verbatim>\<open>operator==\<close> makes equal need not have the same hash: the requirement of
  \<^verbatim>\<open>std::unordered_map\<close> on its hash function fails for every name and its copy with the
  self-configuration bit flipped, and holds for all other pairs of equal names.
\<close>

theorem name_hash_not_consistent:
  "name_eq a b \<Longrightarrow> name_hash a = name_hash b \<longleftrightarrow> self_config_address a = self_config_address b"
  by (metis name_eq_same_config name_hash_def self_config_address_bit)

theorem name_hash_not_consistent_witness:
  "name_eq (Name 0xFF) (Name 0x80000000000000FF)
   \<and> name_hash (Name 0xFF) \<noteq> name_hash (Name 0x80000000000000FF)"
proof -
  have e: "name_eq (Name 0xFF) (Name 0x80000000000000FF)"
    by (simp add: name_eq_def slf_cfg_addr_mask_def)
  have "self_config_address (Name 0xFF) \<noteq> self_config_address (Name 0x80000000000000FF)"
    by (simp add: self_config_address_bit)
  with e name_hash_not_consistent [OF e] show ?thesis
    by simp
qed

end
