(* ===== verification/Jay_Network.thy ===== *)
theory Jay_Network
  imports Jay_Name
begin

text \<open>
  The class \<^verbatim>\<open>jay::network\<close> of \<^verbatim>\<open>src/include/jay/network.hpp\<close>: the table of the devices on a
  bus, with a map from names to addresses and a map from addresses to names. Every operation
  runs under the lock of the object, so each is one step on its state; \<open>Jay_Sharing\<close> shows this for
  operations of several threads.

  The name map is an \<^verbatim>\<open>unordered_map\<close> with \<^verbatim>\<open>name::hash\<close> and \<^verbatim>\<open>operator==\<close>. A stored
  element is found when its stored hash and its key both agree with the argument; the hash is
  the whole value, so the keys of the model are the whole names.
\<close>

section \<open>State\<close>

text \<open>
  \<open>on_new_name_set\<close> says whether a callback is installed, \<open>new_names\<close> records its calls.
\<close>

record network =
  interface_name :: string
  on_new_name_set :: bool
  new_names :: "(name \<times> address_t) list"
  name_addr_map :: "(name, address_t) umap"
  addr_name_map :: "(address_t, name) umap"

definition net_new :: "string \<Rightarrow> bool \<Rightarrow> network" where
  [network_defs]: "net_new ifname cb = \<lparr>interface_name = ifname, on_new_name_set = cb, new_names = [],
     name_addr_map = [], addr_name_map = []\<rparr>"

definition net_on_new_name_callback :: "bool \<Rightarrow> network \<Rightarrow> network" where
  [network_defs]: "net_on_new_name_callback cb net = net\<lparr>on_new_name_set := cb\<rparr>"

section \<open>Operations\<close>

text \<open>The local functions \<^verbatim>\<open>set_idle\<close> and \<^verbatim>\<open>claim\<close> of \<^verbatim>\<open>insert\<close>. \<^verbatim>\<open>name_addr_map_[n]\<close>
  creates the entry with address 0 when the name has none.\<close>

definition net_set_idle :: "name \<Rightarrow> network \<Rightarrow> network" where
  [network_defs]: "net_set_idle n net =
     (let (a, names) = um_index n 0 (name_addr_map net)
      in net\<lparr>addr_name_map := um_erase a (addr_name_map net),
             name_addr_map := um_assign n J1939_IDLE_ADDR names\<rparr>)"

definition net_claim :: "name \<Rightarrow> address_t \<Rightarrow> bool \<Rightarrow> network \<Rightarrow> network" where
  [network_defs]: "net_claim n address notify net =
     net\<lparr>name_addr_map := um_assign n address (name_addr_map net),
         addr_name_map := um_assign address n (addr_name_map net),
         new_names := (if notify \<and> on_new_name_set net then new_names net @ [(n, address)]
           else new_names net)\<rparr>"

definition net_insert :: "name \<Rightarrow> address_t \<Rightarrow> network \<Rightarrow> bool \<times> network" where
  "net_insert n address net =
     (let prev_it = um_find (name_addr_map net) n;
          first_time = (prev_it = None);
          prev_addr = (case prev_it of None \<Rightarrow> J1939_IDLE_ADDR | Some a \<Rightarrow> a)
      in if address > J1939_MAX_UNICAST_ADDR then
           (if first_time then
              (True, net\<lparr>name_addr_map := um_assign n J1939_IDLE_ADDR (name_addr_map net)\<rparr>)
            else if address = J1939_IDLE_ADDR then (True, net_set_idle n net)
            else (False, net))
         else
           (let notify = first_time \<or> prev_addr \<noteq> address;
                addr_it = um_find (addr_name_map net) address;
                occupied = (addr_it \<noteq> None);
                conflict = (case addr_it of None \<Rightarrow> name_default | Some c \<Rightarrow> c);
                net' = net\<lparr>name_addr_map := um_try_emplace n J1939_IDLE_ADDR (name_addr_map net)\<rparr>
            in if occupied \<and> name_greater n conflict then (False, net')
               else (True, net_claim n address notify
                      (if occupied \<and> conflict \<noteq> n then net_set_idle conflict net' else net'))))"

definition net_release :: "name \<Rightarrow> network \<Rightarrow> network" where
  [network_defs]: "net_release n net =
     (case um_find (name_addr_map net) n of
        None \<Rightarrow> net
      | Some address \<Rightarrow>
          (let net' = net\<lparr>name_addr_map := um_assign n J1939_IDLE_ADDR (name_addr_map net)\<rparr>
           in case um_find (addr_name_map net') address of
                None \<Rightarrow> net'
              | Some _ \<Rightarrow> net'\<lparr>addr_name_map := um_erase address (addr_name_map net')\<rparr>))"

definition net_remove :: "name \<Rightarrow> network \<Rightarrow> network" where
  [network_defs]: "net_remove n net =
     (case um_find (name_addr_map net) n of
        None \<Rightarrow> net
      | Some address \<Rightarrow>
          (let net' = net\<lparr>name_addr_map := um_erase n (name_addr_map net)\<rparr>
           in case um_find (addr_name_map net') address of
                None \<Rightarrow> net'
              | Some _ \<Rightarrow> net'\<lparr>addr_name_map := um_erase address (addr_name_map net')\<rparr>))"

definition net_clear :: "network \<Rightarrow> network" where
  [network_defs]: "net_clear net = net\<lparr>name_addr_map := [], addr_name_map := []\<rparr>"

section \<open>Queries\<close>

definition net_available :: "address_t \<Rightarrow> network \<Rightarrow> bool" where
  "net_available address net =
     (if address > J1939_MAX_UNICAST_ADDR then False
      else um_find (addr_name_map net) address = None)"

definition net_claimable :: "address_t \<Rightarrow> name \<Rightarrow> network \<Rightarrow> bool" where
  "net_claimable address n net =
     (if address > J1939_MAX_UNICAST_ADDR then False
      else case um_find (addr_name_map net) address of
        Some m \<Rightarrow> name_greater m n
      | None \<Rightarrow> True)"

definition net_in_network :: "name \<Rightarrow> network \<Rightarrow> bool" where
  "net_in_network n net = (um_find (name_addr_map net) n \<noteq> None)"

definition net_match :: "name \<Rightarrow> address_t \<Rightarrow> network \<Rightarrow> bool" where
  "net_match n address net =
     (case um_find (name_addr_map net) n of Some a \<Rightarrow> a = address | None \<Rightarrow> False)"

definition net_address_count :: "network \<Rightarrow> nat" where
  "net_address_count net = um_size (addr_name_map net)"

definition net_name_count :: "network \<Rightarrow> nat" where
  "net_name_count net = um_size (name_addr_map net)"

definition net_get_name :: "address_t \<Rightarrow> network \<Rightarrow> name option" where
  "net_get_name address net = um_find (addr_name_map net) address"

definition net_get_address :: "name \<Rightarrow> network \<Rightarrow> address_t" where
  "net_get_address n net =
     (case um_find (name_addr_map net) n of Some a \<Rightarrow> a | None \<Rightarrow> J1939_NO_ADDR)"

definition net_full :: "network \<Rightarrow> bool" where
  "net_full net \<longleftrightarrow> um_size (addr_name_map net) > unat J1939_MAX_UNICAST_ADDR"

text \<open>The loop of \<^verbatim>\<open>search\<close>, with its 8-bit counter. The counter stays below the 8-bit
  bound while the loop runs, so the increment never wraps.\<close>

function net_search :: "name \<Rightarrow> address_t \<Rightarrow> address_t \<Rightarrow> network \<Rightarrow> address_t" where
  "net_search n address end_address net =
     (if address < end_address then
        (case um_find (addr_name_map net) address of
           None \<Rightarrow> address
         | Some m \<Rightarrow> if name_eq m n then address else net_search n (address + 1) end_address net)
      else J1939_NO_ADDR)"
  by pat_completeness auto

termination
  by (relation "measure (\<lambda>(n, a, e, net). unat e - unat a)")
    (simp_all add: unat_plus_1 word_less_nat_alt)

declare net_search.simps [simp del]

text \<open>\<^verbatim>\<open>name <= pair->second\<close> is the built-in comparison of the converted values.\<close>

definition net_find_address :: "name \<Rightarrow> address_t \<Rightarrow> network \<Rightarrow> address_t" where
  "net_find_address n preferred_address net =
     (let preferred_address = clamp preferred_address 0 J1939_MAX_UNICAST_ADDR
      in if \<not> self_config_address n \<noteq> 0 then
           (case um_find (addr_name_map net) preferred_address of
              None \<Rightarrow> preferred_address
            | Some m \<Rightarrow> if n \<le> m then preferred_address else J1939_NO_ADDR)
         else
           (let address = net_search n preferred_address J1939_IDLE_ADDR net
            in if address = J1939_NO_ADDR then net_search n 0 preferred_address net else address))"

text \<open>\<^verbatim>\<open>std::set<name>\<close> keeps one name of each class of equivalent names, in the order of
  \<^verbatim>\<open>operator<\<close>.\<close>

fun name_set_insert :: "name \<Rightarrow> name list \<Rightarrow> name list" where
  "name_set_insert n [] = [n]"
| "name_set_insert n (m # ms) =
     (if name_less n m then n # m # ms
      else if name_less m n then m # name_set_insert n ms
      else m # ms)"

definition net_get_name_set :: "network \<Rightarrow> name list" where
  "net_get_name_set net = fold (\<lambda>(n, a) s. name_set_insert n s) (name_addr_map net) []"

definition net_get_interface_name :: "network \<Rightarrow> string" where
  [simp]: "net_get_interface_name net = interface_name net"

section \<open>The invariant\<close>

text \<open>
  A registered name is idle or has a unicast address, and then the address map gives that
  address back to it; the address map has unicast addresses of registered names only.
\<close>

definition net_inv :: "network \<Rightarrow> bool" where
  "net_inv net \<longleftrightarrow> um_wf (name_addr_map net) \<and> um_wf (addr_name_map net)
     \<and> (\<forall>(n, a) \<in> set (name_addr_map net).
          a \<noteq> J1939_NO_ADDR \<and> (unicast a \<longrightarrow> um_find (addr_name_map net) a = Some n))
     \<and> (\<forall>(a, n) \<in> set (addr_name_map net). unicast a \<and> um_find (name_addr_map net) n \<noteq> None)"

text \<open>Without left-over addresses: the address map has current addresses only.\<close>

definition net_exact :: "network \<Rightarrow> bool" where
  "net_exact net \<longleftrightarrow> net_inv net
     \<and> (\<forall>(a, n) \<in> set (addr_name_map net). um_find (name_addr_map net) n = Some a)"

lemma net_inv_iff:
  "net_inv net \<longleftrightarrow> um_wf (name_addr_map net) \<and> um_wf (addr_name_map net)
     \<and> (\<forall>n a. um_find (name_addr_map net) n = Some a \<longrightarrow>
          a \<noteq> J1939_NO_ADDR \<and> (unicast a \<longrightarrow> um_find (addr_name_map net) a = Some n))
     \<and> (\<forall>a n. um_find (addr_name_map net) a = Some n \<longrightarrow>
          unicast a \<and> um_find (name_addr_map net) n \<noteq> None)"
  unfolding net_inv_def by (simp add: um_ball cong: conj_cong)

lemma net_exact_iff:
  "net_exact net \<longleftrightarrow> net_inv net
     \<and> (\<forall>a n. um_find (addr_name_map net) a = Some n \<longrightarrow> um_find (name_addr_map net) n = Some a)"
  unfolding net_exact_def net_inv_def by (simp add: um_ball cong: conj_cong)

lemma net_inv_wf: "net_inv net \<Longrightarrow> um_wf (name_addr_map net) \<and> um_wf (addr_name_map net)"
  by (simp add: net_inv_def)

lemma net_inv_holder:
  "net_inv net \<Longrightarrow> um_find (name_addr_map net) n = Some a \<Longrightarrow> unicast a \<Longrightarrow>
     um_find (addr_name_map net) a = Some n"
  unfolding net_inv_iff by blast

lemma net_inv_addr:
  "net_inv net \<Longrightarrow> um_find (addr_name_map net) a = Some n \<Longrightarrow>
     unicast a \<and> (\<exists>b. um_find (name_addr_map net) n = Some b)"
  unfolding net_inv_iff by blast

lemma net_inv_not_global:
  "net_inv net \<Longrightarrow> um_find (name_addr_map net) n = Some a \<Longrightarrow> a \<noteq> J1939_NO_ADDR"
  unfolding net_inv_iff by blast

lemma net_inv_cases:
  assumes "net_inv net" and "um_find (name_addr_map net) n = Some a"
  shows "unicast a \<or> a = J1939_IDLE_ADDR"
  using not_unicast_cases [of a] net_inv_not_global [OF assms] by blast

section \<open>What the operations do to the two maps\<close>

lemma net_set_idle_maps:
  "um_find (name_addr_map (net_set_idle n net)) = (um_find (name_addr_map net))(n \<mapsto> J1939_IDLE_ADDR)"
  "um_find (addr_name_map (net_set_idle n net)) = (um_find (addr_name_map net))
     ((case um_find (name_addr_map net) n of None \<Rightarrow> 0 | Some a \<Rightarrow> a) := None)"
  by (auto simp: net_set_idle_def Let_def split_beta fst_um_index)

lemma net_set_idle_wf:
  assumes "um_wf (name_addr_map net)" and "um_wf (addr_name_map net)"
  shows "um_wf (name_addr_map (net_set_idle n net)) \<and> um_wf (addr_name_map (net_set_idle n net))"
  using assms by (simp add: net_set_idle_def Let_def split_beta)

lemma net_invI:
  assumes "um_wf (name_addr_map net)" and "um_wf (addr_name_map net)"
    and "\<And>n a. um_find (name_addr_map net) n = Some a \<Longrightarrow> a \<noteq> J1939_NO_ADDR"
    and "\<And>n a. um_find (name_addr_map net) n = Some a \<Longrightarrow> unicast a \<Longrightarrow>
      um_find (addr_name_map net) a = Some n"
    and "\<And>a n. um_find (addr_name_map net) a = Some n \<Longrightarrow> unicast a"
    and "\<And>a n. um_find (addr_name_map net) a = Some n \<Longrightarrow> um_find (name_addr_map net) n \<noteq> None"
  shows "net_inv net"
  using assms unfolding net_inv_iff by blast


lemma net_inv_transfer:
  assumes "net_inv net" and "um_wf (name_addr_map net')" and "um_wf (addr_name_map net')"
    and "um_find (name_addr_map net') = um_find (name_addr_map net)"
    and "um_find (addr_name_map net') = um_find (addr_name_map net)"
  shows "net_inv net'"
  using assms(1-3) unfolding net_inv_iff assms(4,5) by blast

lemma net_inv_set_idle:
  assumes inv: "net_inv net" and reg: "um_find (name_addr_map net) n \<noteq> None"
  shows "net_inv (net_set_idle n net)"
proof (rule net_invI)
  show "um_wf (name_addr_map (net_set_idle n net))" "um_wf (addr_name_map (net_set_idle n net))"
    using net_set_idle_wf net_inv_wf [OF inv] by blast+
next
  fix m a
  assume m: "um_find (name_addr_map (net_set_idle n net)) m = Some a"
  show "a \<noteq> J1939_NO_ADDR"
    using m net_inv_not_global [OF inv] by (auto simp: net_set_idle_maps split: if_splits)
  assume "unicast a"
  with m have "m \<noteq> n" "um_find (name_addr_map net) m = Some a"
    by (auto simp: net_set_idle_maps split: if_splits)
  with inv \<open>unicast a\<close> have "um_find (addr_name_map net) a = Some m"
    by (simp add: net_inv_holder)
  with reg inv \<open>m \<noteq> n\<close> show "um_find (addr_name_map (net_set_idle n net)) a = Some m"
    using net_inv_holder [OF inv, of n a] \<open>unicast a\<close> by (auto simp: net_set_idle_maps)
next
  fix a m
  assume "um_find (addr_name_map (net_set_idle n net)) a = Some m"
  then have "um_find (addr_name_map net) a = Some m"
    by (auto simp: net_set_idle_maps split: if_splits)
  with inv show "unicast a" "um_find (name_addr_map (net_set_idle n net)) m \<noteq> None"
    by (auto simp: net_set_idle_maps dest: net_inv_addr)
qed

text \<open>The outcomes of \<^verbatim>\<open>insert\<close>, by branch.\<close>

lemma net_insert_special:
  assumes "\<not> unicast a"
  shows "net_insert n a net =
     (if um_find (name_addr_map net) n = None
      then (True, net\<lparr>name_addr_map := um_assign n J1939_IDLE_ADDR (name_addr_map net)\<rparr>)
      else if a = J1939_IDLE_ADDR then (True, net_set_idle n net) else (False, net))"
  using assms unfolding not_le by (simp add: net_insert_def Let_def)

lemma net_insert_lost:
  assumes "unicast a" and "um_find (addr_name_map net) a = Some c" and "name_greater n c"
  shows "net_insert n a net =
     (False, net\<lparr>name_addr_map := um_try_emplace n J1939_IDLE_ADDR (name_addr_map net)\<rparr>)"
  using assms by (simp add: net_insert_def Let_def leD)

definition may_take :: "name \<Rightarrow> address_t \<Rightarrow> network \<Rightarrow> bool" where
  "may_take n a net \<longleftrightarrow> (case um_find (addr_name_map net) a of None \<Rightarrow> True
     | Some c \<Rightarrow> \<not> name_greater n c)"

definition evicted :: "name \<Rightarrow> address_t \<Rightarrow> network \<Rightarrow> name option" where
  "evicted n a net = (case um_find (addr_name_map net) a of None \<Rightarrow> None
     | Some c \<Rightarrow> if c = n then None else Some c)"

lemma net_insert_won_eq:
  assumes "unicast a" and "may_take n a net"
  shows "net_insert n a net = (True, net_claim n a (um_find (name_addr_map net) n \<noteq> Some a)
     (let net' = net\<lparr>name_addr_map := um_try_emplace n J1939_IDLE_ADDR (name_addr_map net)\<rparr>
      in case evicted n a net of None \<Rightarrow> net' | Some c \<Rightarrow> net_set_idle c net'))"
  using assms
  by (cases "um_find (addr_name_map net) a"; cases "um_find (name_addr_map net) n")
    (simp_all add: net_insert_def may_take_def evicted_def Let_def leD)

lemma evicted_neq: "evicted n a net = Some c \<Longrightarrow> c \<noteq> n"
  by (auto simp: evicted_def split: option.splits if_splits)

lemma net_set_idle_frame [simp]:
  "new_names (net_set_idle c net) = new_names net"
  "on_new_name_set (net_set_idle c net) = on_new_name_set net"
  by (simp_all add: net_set_idle_def Let_def split_beta)

lemma net_insert_won:
  assumes "unicast a" and "may_take n a net"
  shows "fst (net_insert n a net)"
    and "um_find (name_addr_map (snd (net_insert n a net))) =
      (case evicted n a net of None \<Rightarrow> um_find (name_addr_map net)
       | Some c \<Rightarrow> (um_find (name_addr_map net))(c \<mapsto> J1939_IDLE_ADDR))(n \<mapsto> a)"
    and "um_find (addr_name_map (snd (net_insert n a net))) =
      (case evicted n a net of None \<Rightarrow> um_find (addr_name_map net)
       | Some c \<Rightarrow> (um_find (addr_name_map net))
           ((case um_find (name_addr_map net) c of None \<Rightarrow> 0 | Some b \<Rightarrow> b) := None))(a \<mapsto> n)"
    and "new_names (snd (net_insert n a net)) = new_names net @
      (if on_new_name_set net \<and> um_find (name_addr_map net) n \<noteq> Some a then [(n, a)] else [])"
  unfolding net_insert_won_eq [OF assms]
  by (cases "evicted n a net"; simp add: net_claim_def net_set_idle_maps evicted_neq fun_eq_iff)+

lemma net_insert_wf:
  assumes "um_wf (name_addr_map net)" and "um_wf (addr_name_map net)"
  shows "um_wf (name_addr_map (snd (net_insert n a net)))
    \<and> um_wf (addr_name_map (snd (net_insert n a net)))"
  using assms
  by (simp add: net_insert_def net_claim_def net_set_idle_def Let_def split_beta)

section \<open>The operations keep the invariant\<close>

lemma net_inv_register:
  assumes "net_inv net" and "um_find (name_addr_map net) n = None"
  shows "net_inv (net\<lparr>name_addr_map := um_assign n J1939_IDLE_ADDR (name_addr_map net)\<rparr>)"
  using assms net_inv_wf [OF assms(1)]
  by (intro net_invI) (auto split: if_splits dest: net_inv_not_global net_inv_holder net_inv_addr)

lemma net_inv_try_emplace:
  assumes "net_inv net"
  shows "net_inv (net\<lparr>name_addr_map := um_try_emplace n J1939_IDLE_ADDR (name_addr_map net)\<rparr>)"
  using net_inv_register [OF assms, of n] assms
  by (simp add: um_try_emplace_def split: option.splits)

lemma net_inv_won:
  assumes inv: "net_inv net" and a: "unicast a" and mt: "may_take n a net"
  shows "net_inv (snd (net_insert n a net))"
proof (rule net_invI)
  let ?na = "um_find (name_addr_map net)" and ?an = "um_find (addr_name_map net)"
  let ?na' = "um_find (name_addr_map (snd (net_insert n a net)))"
  let ?an' = "um_find (addr_name_map (snd (net_insert n a net)))"
  note maps = net_insert_won [OF a mt]
  show "um_wf (name_addr_map (snd (net_insert n a net)))"
    "um_wf (addr_name_map (snd (net_insert n a net)))"
    using net_insert_wf net_inv_wf [OF inv] by blast+
  show "x \<noteq> J1939_NO_ADDR" if "?na' m = Some x" for m x
    using that a net_inv_not_global [OF inv]
    by (auto simp: maps unicast_neq split: if_splits option.splits)
  show "?an' x = Some m" if m: "?na' m = Some x" and x: "unicast x" for m x
  proof (cases "m = n")
    case True
    moreover from this m have "x = a" by (simp add: maps)
    ultimately show ?thesis unfolding maps by simp
  next
    case False
    with m x have na: "?na m = Some x" and mc: "evicted n a net \<noteq> Some m"
      by (auto simp: maps split: if_splits option.splits)
    then have an: "?an x = Some m" using net_inv_holder inv x by blast
    with mc False have "x \<noteq> a" by (auto simp: evicted_def)
    moreover have "?an y \<noteq> Some m" if "evicted n a net = Some c" "?na c = Some y" "unicast y" for c y
      using net_inv_holder [OF inv that(2,3)] that(1) mc by auto
    moreover have "\<exists>y. ?na c = Some y" if "evicted n a net = Some c" for c
      using that net_inv_addr [OF inv, of a c] by (auto simp: evicted_def split: option.splits if_splits)
    ultimately show ?thesis
      using an x by (fastforce simp: maps split: option.splits)
  qed
  show "unicast x" if "?an' x = Some m" for x m
    using that a net_inv_addr [OF inv] by (auto simp: maps split: if_splits option.splits)
  show "?na' m \<noteq> None" if "?an' x = Some m" for x m
    using that net_inv_addr [OF inv, of x m] by (auto simp: maps split: if_splits option.splits)
qed

lemma net_inv_insert: "net_inv net \<Longrightarrow> net_inv (snd (net_insert n a net))"
proof (cases "unicast a")
  case True
  assume inv: "net_inv net"
  show ?thesis
  proof (cases "may_take n a net")
    case False
    then obtain c where "um_find (addr_name_map net) a = Some c" "name_greater n c"
      by (auto simp: may_take_def split: option.splits)
    with True inv show ?thesis by (simp add: net_insert_lost net_inv_try_emplace)
  qed (simp add: net_inv_won inv True)
qed (simp add: net_insert_special net_inv_register net_inv_set_idle)

lemma net_release_maps:
  "um_find (name_addr_map (net_release n net)) =
     (if um_find (name_addr_map net) n = None then um_find (name_addr_map net)
      else (um_find (name_addr_map net))(n \<mapsto> J1939_IDLE_ADDR))"
  "um_find (addr_name_map (net_release n net)) =
     (case um_find (name_addr_map net) n of None \<Rightarrow> um_find (addr_name_map net)
      | Some a \<Rightarrow> (um_find (addr_name_map net))(a := None))"
  by (auto simp: net_release_def Let_def fun_eq_iff split: option.splits)

lemma net_release_set_idle:
  "um_find (name_addr_map net) n \<noteq> None \<Longrightarrow>
     um_find (name_addr_map (net_release n net)) = um_find (name_addr_map (net_set_idle n net))
   \<and> um_find (addr_name_map (net_release n net)) = um_find (addr_name_map (net_set_idle n net))"
  by (auto simp: net_release_maps net_set_idle_maps)

lemma net_release_wf:
  assumes "um_wf (name_addr_map net)" and "um_wf (addr_name_map net)"
  shows "um_wf (name_addr_map (net_release n net)) \<and> um_wf (addr_name_map (net_release n net))"
  using assms by (simp add: net_release_def Let_def split: option.splits)

lemma net_inv_release: "net_inv net \<Longrightarrow> net_inv (net_release n net)"
proof (cases "um_find (name_addr_map net) n = None")
  case True
  then show "net_inv net \<Longrightarrow> ?thesis" by (simp add: net_release_def)
next
  case False
  assume inv: "net_inv net"
  have "net_inv (net_set_idle n net)" using inv False by (rule net_inv_set_idle)
  then show ?thesis
    using net_release_set_idle [OF False] net_release_wf [of net n] net_inv_wf [OF inv]
    by (blast intro: net_inv_transfer)
qed

lemma net_inv_clear: "net_inv (net_clear net)"
  by (simp add: net_clear_def net_inv_def)

lemma net_inv_new: "net_inv (net_new i cb)"
  by (simp add: net_new_def net_inv_def)

section \<open>No left-over addresses\<close>

lemma net_exactI:
  assumes "net_inv net"
    and "\<And>a n. um_find (addr_name_map net) a = Some n \<Longrightarrow> um_find (name_addr_map net) n = Some a"
  shows "net_exact net"
  using assms unfolding net_exact_iff by blast

lemma net_exactD:
  assumes "net_exact net"
  shows "net_inv net"
    and "um_find (addr_name_map net) a = Some n \<Longrightarrow> um_find (name_addr_map net) n = Some a"
  using assms unfolding net_exact_iff by blast+

text \<open>The name has no unicast address other than \<open>a\<close>.\<close>

definition settled :: "name \<Rightarrow> address_t \<Rightarrow> network \<Rightarrow> bool" where
  "settled n a net \<longleftrightarrow> (case um_find (name_addr_map net) n of None \<Rightarrow> True
     | Some b \<Rightarrow> unicast b \<longrightarrow> b = a)"

lemma net_exact_set_idle:
  assumes "net_exact net" and "um_find (name_addr_map net) n \<noteq> None"
  shows "net_exact (net_set_idle n net)"
proof (rule net_exactI)
  show "net_inv (net_set_idle n net)"
    using assms net_exactD(1) net_inv_set_idle by blast
  show "um_find (name_addr_map (net_set_idle n net)) m = Some x"
    if "um_find (addr_name_map (net_set_idle n net)) x = Some m" for m x
    using that assms(2) net_exactD(2) [OF assms(1), of x m]
    by (auto simp: net_set_idle_maps split: if_splits)
qed

lemma net_exact_insert:
  assumes ex: "net_exact net" and st: "settled n a net"
  shows "net_exact (snd (net_insert n a net))"
proof (rule net_exactI)
  note inv = net_exactD(1) [OF ex]
  let ?na = "um_find (name_addr_map net)" and ?an = "um_find (addr_name_map net)"
  show "net_inv (snd (net_insert n a net))" using inv by (rule net_inv_insert)
  fix x m
  assume x: "um_find (addr_name_map (snd (net_insert n a net))) x = Some m"
  show "um_find (name_addr_map (snd (net_insert n a net))) m = Some x"
  proof (cases "unicast a")
    case False
    with x show ?thesis
      using net_exactD(2) [OF ex, of x m] net_exactD(2) [OF net_exact_set_idle [OF ex, of n], of x m]
      by (auto simp: net_insert_special split: if_splits)
  next
    case a: True
    show ?thesis
    proof (cases "may_take n a net")
      case False
      then obtain c where "?an a = Some c" "name_greater n c"
        by (auto simp: may_take_def split: option.splits)
      with a x show ?thesis
        using net_exactD(2) [OF ex, of x m] by (auto simp: net_insert_lost split: option.splits)
    next
      case mt: True
      show ?thesis
      proof (cases "x = a")
        case True
        moreover from this x have "m = n" by (simp add: net_insert_won [OF a mt])
        ultimately show ?thesis by (simp add: net_insert_won [OF a mt])
      next
        case False
        with x have an: "?an x = Some m"
          by (auto simp: net_insert_won [OF a mt] split: option.splits if_splits)
        then have na: "?na m = Some x" and "unicast x"
          using net_exactD(2) [OF ex] net_inv_addr [OF inv] by auto
        with st False have "m \<noteq> n" by (auto simp: settled_def)
        moreover have "evicted n a net \<noteq> Some m"
          using net_exactD(2) [OF ex, of a m] na False
          by (auto simp: evicted_def split: option.splits if_splits)
        ultimately show ?thesis
          using na by (auto simp: net_insert_won [OF a mt] split: option.splits)
      qed
    qed
  qed
qed

lemma net_exact_release: "net_exact net \<Longrightarrow> net_exact (net_release n net)"
proof (rule net_exactI)
  assume ex: "net_exact net"
  show "net_inv (net_release n net)" using net_exactD(1) [OF ex] by (rule net_inv_release)
  show "um_find (name_addr_map (net_release n net)) m = Some x"
    if "um_find (addr_name_map (net_release n net)) x = Some m" for x m
    using that net_exactD(2) [OF ex, of x m]
    by (auto simp: net_release_maps split: option.splits if_splits)
qed

lemma net_remove_maps:
  "um_find (name_addr_map (net_remove n net)) = (um_find (name_addr_map net))(n := None)"
  "um_find (addr_name_map (net_remove n net)) =
     (case um_find (name_addr_map net) n of None \<Rightarrow> um_find (addr_name_map net)
      | Some a \<Rightarrow> (um_find (addr_name_map net))(a := None))"
  by (auto simp: net_remove_def Let_def fun_eq_iff split: option.splits)

lemma net_remove_wf:
  assumes "um_wf (name_addr_map net)" and "um_wf (addr_name_map net)"
  shows "um_wf (name_addr_map (net_remove n net)) \<and> um_wf (addr_name_map (net_remove n net))"
  using assms by (simp add: net_remove_def Let_def split: option.splits)

lemma net_exact_remove:
  assumes ex: "net_exact net"
  shows "net_exact (net_remove n net)"
proof -
  note inv = net_exactD(1) [OF ex]
  have e: "um_find (name_addr_map (net_remove n net)) m = Some x"
    if "um_find (addr_name_map (net_remove n net)) x = Some m" for x m
    using that net_exactD(2) [OF ex, of x m]
    by (auto simp: net_remove_maps split: option.splits if_splits)
  have "net_inv (net_remove n net)"
  proof (rule net_invI)
    show "um_wf (name_addr_map (net_remove n net))" "um_wf (addr_name_map (net_remove n net))"
      using net_remove_wf net_inv_wf [OF inv] by blast+
    show "a \<noteq> J1939_NO_ADDR" if "um_find (name_addr_map (net_remove n net)) m = Some a" for m a
      using that net_inv_not_global [OF inv] by (auto simp: net_remove_maps split: if_splits)
    show "um_find (addr_name_map (net_remove n net)) a = Some m"
      if "um_find (name_addr_map (net_remove n net)) m = Some a" "unicast a" for m a
      using that net_inv_holder [OF inv, of m a] net_inv_holder [OF inv, of n a]
      by (auto simp: net_remove_maps split: if_splits option.splits)
    show "unicast a" if "um_find (addr_name_map (net_remove n net)) a = Some m" for m a
      using that net_inv_addr [OF inv, of a m] by (auto simp: net_remove_maps split: option.splits if_splits)
    show "um_find (name_addr_map (net_remove n net)) m \<noteq> None"
      if "um_find (addr_name_map (net_remove n net)) a = Some m" for m a
      using e [OF that] by simp
  qed
  then show ?thesis using e by (rule net_exactI)
qed

lemma net_exact_clear: "net_exact (net_clear net)"
  by (simp add: net_clear_def net_exact_def net_inv_def)

lemma net_exact_new: "net_exact (net_new i cb)"
  by (simp add: net_new_def net_exact_def net_inv_def)

lemma net_insert_stale:
  assumes inv: "net_inv net" and n: "um_find (name_addr_map net) n = Some a" "unicast a"
    and b: "unicast b" "a \<noteq> b" "may_take n b net"
  shows "um_find (addr_name_map (snd (net_insert n b net))) a = Some n"
proof -
  have an: "um_find (addr_name_map net) a = Some n" using net_inv_holder inv n by blast
  have "um_find (name_addr_map net) c \<noteq> Some a \<and> um_find (name_addr_map net) c \<noteq> None"
    if "evicted n b net = Some c" for c
    using that evicted_neq [OF that] net_inv_holder [OF inv, of c a] n(2) an net_inv_addr [OF inv, of b c]
    by (auto simp: evicted_def split: option.splits if_splits)
  then show ?thesis
    using an b by (auto simp: net_insert_won split: option.splits)
qed

section \<open>The contract of the registry\<close>

text \<open>
  What the claimer and the state machine rely on: who holds an address, what a claim does to
  it, and what is left alone. The clients' lemmas follow from these laws only.
\<close>

locale address_book =
  fixes inv :: "'n \<Rightarrow> bool"
    and insert :: "name \<Rightarrow> address_t \<Rightarrow> 'n \<Rightarrow> bool \<times> 'n"
    and release :: "name \<Rightarrow> 'n \<Rightarrow> 'n"
    and address_of :: "name \<Rightarrow> 'n \<Rightarrow> address_t"
    and holder :: "address_t \<Rightarrow> 'n \<Rightarrow> name option"
  assumes inv_insert: "inv b \<Longrightarrow> inv (snd (insert n a b))"
    and inv_release: "inv b \<Longrightarrow> inv (release n b)"
    and held: "inv b \<Longrightarrow> unicast (address_of n b) \<Longrightarrow> holder (address_of n b) b = Some n"
    and insert_decides:
      "inv b \<Longrightarrow> unicast a \<Longrightarrow> fst (insert n a b) \<longleftrightarrow> (\<forall>c. holder a b = Some c \<longrightarrow> \<not> name_greater n c)"
    and insert_won: "inv b \<Longrightarrow> unicast a \<Longrightarrow> fst (insert n a b) \<Longrightarrow> address_of n (snd (insert n a b)) = a"
    and insert_lost: "inv b \<Longrightarrow> unicast a \<Longrightarrow> \<not> fst (insert n a b) \<Longrightarrow> holder x (snd (insert n a b)) = holder x b"
    and insert_idle: "inv b \<Longrightarrow> \<not> unicast (address_of n (snd (insert n J1939_IDLE_ADDR b)))"
    and release_idle: "inv b \<Longrightarrow> \<not> unicast (address_of n (release n b))"
    and release_frees: "inv b \<Longrightarrow> unicast (address_of n b) \<Longrightarrow> holder (address_of n b) (release n b) = None"
begin

lemma address_unique:
  "inv b \<Longrightarrow> unicast (address_of n b) \<Longrightarrow> address_of m b = address_of n b \<Longrightarrow> m = n"
  using held by (metis option.inject)

lemma insert_holder:
  "inv b \<Longrightarrow> unicast a \<Longrightarrow> fst (insert n a b) \<Longrightarrow> holder a (snd (insert n a b)) = Some n"
  using held inv_insert insert_won by metis

lemma insert_holder_cases:
  assumes "inv b" and "unicast a"
  shows "holder a (snd (insert n a b)) =
    (case holder a b of None \<Rightarrow> Some n | Some c \<Rightarrow> if name_greater n c then Some c else Some n)"
  using assms insert_holder [OF assms, of n] insert_lost [OF assms, of n a] insert_decides [OF assms, of n]
  by (cases "holder a b") auto

lemma contest:
  assumes "inv b" and "unicast a" and "holder a b = None" and "name_less n m"
  shows "holder a (snd (insert m a (snd (insert n a b)))) = Some n"
    and "holder a (snd (insert n a (snd (insert m a b)))) = Some n"
  using assms inv_insert [OF assms(1)]
  by (auto simp: insert_holder_cases name_order_prio)

lemma insert_release:
  assumes "inv b" and "unicast a" and "fst (insert n a b)"
  shows "holder a (release n (snd (insert n a b))) = None"
  using assms release_frees [OF inv_insert [OF assms(1)]] insert_won by metis

lemma reclaim:
  assumes "inv b" and "unicast a" and "fst (insert n a b)"
  shows "holder a (snd (insert m a (release n (snd (insert n a b))))) = Some m"
  using assms insert_release [OF assms] inv_insert inv_release by (simp add: insert_holder_cases)

end

lemma net_address_of:
  "um_find (name_addr_map net) n = Some a \<Longrightarrow> net_get_address n net = a"
  "um_find (name_addr_map net) n = None \<Longrightarrow> net_get_address n net = J1939_NO_ADDR"
  by (simp_all add: net_get_address_def)

lemma net_get_address_unicast:
  "unicast (net_get_address n net) \<Longrightarrow> um_find (name_addr_map net) n = Some (net_get_address n net)"
  by (auto simp: net_get_address_def split: option.splits)

lemma net_insert_fst:
  "unicast a \<Longrightarrow> fst (net_insert n a net) \<longleftrightarrow> may_take n a net"
  using net_insert_lost net_insert_won(1)
  by (cases "may_take n a net") (auto simp: may_take_def split: option.splits)

lemma net_insert_to_idle: "\<not> unicast (net_get_address n (snd (net_insert n J1939_IDLE_ADDR net)))"
  by (cases "um_find (name_addr_map net) n") (simp_all add: net_insert_special net_set_idle_maps net_address_of)

lemma net_insert_won_get:
  "unicast a \<Longrightarrow> fst (net_insert n a net) \<Longrightarrow> net_get_address n (snd (net_insert n a net)) = a"
  by (simp add: net_insert_fst net_insert_won net_address_of)

lemma net_insert_lost_get:
  "unicast a \<Longrightarrow> \<not> fst (net_insert n a net) \<Longrightarrow>
     net_get_name x (snd (net_insert n a net)) = net_get_name x net"
  by (auto simp: net_insert_fst may_take_def net_get_name_def net_insert_lost split: option.splits if_splits)

lemma net_insert_decides:
  "unicast a \<Longrightarrow>
     fst (net_insert n a net) \<longleftrightarrow> (\<forall>c. net_get_name a net = Some c \<longrightarrow> \<not> name_greater n c)"
  by (auto simp: net_insert_fst may_take_def net_get_name_def split: option.splits)

lemma net_get_name_address:
  "net_inv net \<Longrightarrow> unicast (net_get_address n net) \<Longrightarrow>
     net_get_name (net_get_address n net) net = Some n"
  using net_inv_holder net_get_address_unicast unfolding net_get_name_def by blast

lemma net_release_idle: "\<not> unicast (net_get_address n (net_release n net))"
  by (auto simp: net_release_maps net_get_address_def split: option.splits)

lemma net_release_frees:
  "unicast (net_get_address n net) \<Longrightarrow>
     net_get_name (net_get_address n net) (net_release n net) = None"
  using net_get_address_unicast [of n net]
  by (auto simp: net_release_maps net_get_name_def split: option.splits)

interpretation book: address_book net_inv net_insert net_release net_get_address net_get_name
  by unfold_locales
    (rule net_inv_insert net_inv_release net_get_name_address net_insert_decides net_insert_won_get
      net_insert_lost_get net_insert_to_idle net_release_idle net_release_frees; assumption)+

section \<open>The search for a free address\<close>

text \<open>The addresses \<^verbatim>\<open>find_address\<close> tries for a self-configurable name, in its order.\<close>

definition address_order :: "address_t \<Rightarrow> address_t list" where
  "address_order p = map word_of_nat ([unat p..<254] @ [0..<unat p])"

definition usable :: "name \<Rightarrow> network \<Rightarrow> address_t \<Rightarrow> bool" where
  "usable n net a \<longleftrightarrow> (case um_find (addr_name_map net) a of None \<Rightarrow> True | Some m \<Rightarrow> name_eq m n)"

definition first_or_none :: "(address_t \<Rightarrow> bool) \<Rightarrow> address_t list \<Rightarrow> address_t" where
  "first_or_none P xs = (case List.find P xs of None \<Rightarrow> J1939_NO_ADDR | Some a \<Rightarrow> a)"

lemma set_address_order: "unicast p \<Longrightarrow> set (address_order p) = {a. unicast a}"
proof -
  assume p: "unicast p"
  have "a \<in> word_of_nat ` {0..<254}" if "unicast a" for a :: address_t
    using that by (intro image_eqI [of _ _ "unat a"]) (auto simp: unicast_unat)
  moreover have "set (address_order p) = word_of_nat ` {0..<254}"
    using p unicast_unat [of p] ivl_disj_un_two(3) [of 0 "unat p" 254]
    by (simp add: address_order_def image_Un [symmetric] Un_commute)
  ultimately show ?thesis
    by (auto simp: unicast_unat unat_of_nat)
qed

lemma first_or_none_append:
  "J1939_NO_ADDR \<notin> set xs \<Longrightarrow> first_or_none P (xs @ ys) =
     (if first_or_none P xs = J1939_NO_ADDR then first_or_none P ys else first_or_none P xs)"
  by (induction xs) (auto simp: first_or_none_def)

lemma first_or_none_unicast:
  assumes "\<forall>a \<in> set xs. unicast a"
  shows "first_or_none P xs = J1939_NO_ADDR \<longleftrightarrow> (\<forall>a \<in> set xs. \<not> P a)"
    and "first_or_none P xs \<noteq> J1939_NO_ADDR \<Longrightarrow> first_or_none P xs \<in> set xs \<and> P (first_or_none P xs)"
  using assms by (induction xs) (auto simp: first_or_none_def)

lemma net_search_first:
  "net_search n s e net = first_or_none (usable n net) (map word_of_nat [unat s..<unat e])"
proof (induction n s e net rule: net_search.induct)
  case (1 n s e net)
  show ?case
  proof (cases "s < e")
    case True
    then have "[unat s..<unat e] = unat s # [unat (s + 1)..<unat e]"
      by (simp add: word_less_nat_alt upt_conv_Cons unat_plus_1)
    with 1 True show ?thesis
      by (subst net_search.simps)
        (auto simp: first_or_none_def usable_def [of n net s] split: option.split)
  next
    case False
    then show ?thesis
      by (subst net_search.simps) (auto simp: first_or_none_def word_less_nat_alt)
  qed
qed

lemma clamp_unicast: "unicast (clamp p 0 J1939_MAX_UNICAST_ADDR)"
  "unicast p \<Longrightarrow> clamp p 0 J1939_MAX_UNICAST_ADDR = p"
  by (auto simp: clamp_def)

lemma net_find_address_first:
  assumes "self_config_address n \<noteq> 0"
  shows "net_find_address n p net =
    first_or_none (usable n net) (address_order (clamp p 0 J1939_MAX_UNICAST_ADDR))"
proof -
  let ?p = "clamp p 0 J1939_MAX_UNICAST_ADDR"
  have "set (map word_of_nat [unat ?p..<254]) \<subseteq> {a. unicast a}"
    unfolding set_address_order [OF clamp_unicast(1), of p, symmetric] by (simp add: address_order_def)
  then have "J1939_NO_ADDR \<notin> set (map word_of_nat [unat ?p..<254])"
    using special_addresses by blast
  moreover have "unat J1939_IDLE_ADDR = 254" by (simp add: J1939_IDLE_ADDR_def)
  ultimately show ?thesis
    using assms
    by (simp add: net_find_address_def Let_def net_search_first address_order_def first_or_none_append)
qed

section \<open>The size of the registry\<close>

lemma net_addr_dom: "net_inv net \<Longrightarrow> dom (um_find (addr_name_map net)) \<subseteq> {a. unicast a}"
  using net_inv_addr by blast

lemma net_address_count_bound: "net_inv net \<Longrightarrow> net_address_count net \<le> 254"
  using um.size_bound [OF _ finite_unicast net_addr_dom] net_inv_wf
  unfolding net_address_count_def card_unicast by blast

lemma net_full_iff:
  assumes inv: "net_inv net"
  shows "net_full net \<longleftrightarrow> (\<forall>a. unicast a \<longrightarrow> \<not> net_available a net)"
proof -
  have "net_full net \<longleftrightarrow> um_size (addr_name_map net) = card {a. unicast a}"
    using net_address_count_bound [OF inv]
    unfolding card_unicast net_full_def net_address_count_def
    by (auto simp: J1939_MAX_UNICAST_ADDR_def)
  also have "\<dots> \<longleftrightarrow> dom (um_find (addr_name_map net)) = {a. unicast a}"
    using um.size_eq_card_iff [OF _ finite_unicast net_addr_dom [OF inv]] net_inv_wf [OF inv] by blast
  also have "\<dots> \<longleftrightarrow> (\<forall>a. unicast a \<longrightarrow> \<not> net_available a net)"
    using net_addr_dom [OF inv] by (auto simp: net_available_def)
  finally show ?thesis .
qed

section \<open>Refinement of an abstract registry\<close>

text \<open>
  The abstract registry knows, for each registered name, whether it is idle or which unicast
  address it holds. Its claim operation says in one line who wins an address.
\<close>

type_synonym registry = "name \<Rightarrow> address_t option option"

definition registry_of :: "network \<Rightarrow> registry" where
  "registry_of net n =
     map_option (\<lambda>a. if unicast a then Some a else None) (um_find (name_addr_map net) n)"

definition reg_blocked :: "name \<Rightarrow> address_t \<Rightarrow> registry \<Rightarrow> bool" where
  "reg_blocked n a r \<longleftrightarrow> (\<exists>c. r c = Some (Some a) \<and> name_prio c < name_prio n)"

definition reg_insert :: "name \<Rightarrow> address_t \<Rightarrow> registry \<Rightarrow> registry" where
  "reg_insert n a r =
     (if unicast a \<and> \<not> reg_blocked n a r
      then (\<lambda>m. if m = n then Some (Some a) else if r m = Some (Some a) then Some None else r m)
      else if r n = None \<or> a = J1939_IDLE_ADDR then r(n := Some None) else r)"

definition reg_release :: "name \<Rightarrow> registry \<Rightarrow> registry" where
  "reg_release n r = (if r n = None then r else r(n := Some None))"

lemma registry_of_holder:
  assumes "net_exact net" and "unicast a"
  shows "registry_of net m = Some (Some a) \<longleftrightarrow> um_find (addr_name_map net) a = Some m"
  using assms net_exactD [OF assms(1)] net_inv_holder [OF net_exactD(1) [OF assms(1)], of m a]
  by (auto simp: registry_of_def split: if_splits)

lemma reg_blocked_may_take:
  "net_exact net \<Longrightarrow> unicast a \<Longrightarrow> reg_blocked n a (registry_of net) \<longleftrightarrow> \<not> may_take n a net"
  by (auto simp: reg_blocked_def registry_of_holder may_take_def name_order_prio split: option.splits)

lemma registry_of_insert:
  assumes ex: "net_exact net"
  shows "registry_of (snd (net_insert n a net)) = reg_insert n a (registry_of net)"
proof (cases "unicast a")
  case False
  then show ?thesis
    by (auto simp: net_insert_special reg_insert_def registry_of_def fun_eq_iff net_set_idle_maps)
next
  case a: True
  show ?thesis
  proof (cases "may_take n a net")
    case False
    then obtain c where "um_find (addr_name_map net) a = Some c" "name_greater n c"
      by (auto simp: may_take_def split: option.splits)
    moreover have "a \<noteq> J1939_IDLE_ADDR" using a by auto
    ultimately show ?thesis
      using a False reg_blocked_may_take [OF ex a]
      by (auto simp: net_insert_lost reg_insert_def registry_of_def fun_eq_iff um_find_try_emplace)
  next
    case True
    have ev: "evicted n a net = Some m \<longleftrightarrow> m \<noteq> n \<and> registry_of net m = Some (Some a)" for m
      by (auto simp: registry_of_holder [OF ex a] evicted_def split: option.splits if_splits)
    have "registry_of (snd (net_insert n a net)) m = reg_insert n a (registry_of net) m" for m
      using a True reg_blocked_may_take [OF ex a, of n] ev [of m]
      by (auto simp: registry_of_def [of "snd _"] reg_insert_def net_insert_won [OF a True]
          registry_of_def [of net] split: option.splits if_splits intro: exI [of _ J1939_IDLE_ADDR])
    then show ?thesis by blast
  qed
qed

lemma registry_of_release: "registry_of (net_release n net) = reg_release n (registry_of net)"
  by (auto simp: registry_of_def reg_release_def net_release_maps fun_eq_iff)

lemma registry_of_remove: "registry_of (net_remove n net) = (registry_of net)(n := None)"
  by (auto simp: registry_of_def net_remove_maps fun_eq_iff)

section \<open>Histories\<close>

text \<open>The networks a program can reach by claims, releases and clearing.\<close>

inductive net_reach :: "network \<Rightarrow> bool" where
  new: "net_reach (net_new i cb)"
| callback: "net_reach net \<Longrightarrow> net_reach (net_on_new_name_callback cb net)"
| insert: "net_reach net \<Longrightarrow> net_reach (snd (net_insert n a net))"
| release: "net_reach net \<Longrightarrow> net_reach (net_release n net)"
| clear: "net_reach net \<Longrightarrow> net_reach (net_clear net)"

lemma net_inv_callback: "net_inv (net_on_new_name_callback cb net) = net_inv net"
  by (simp add: net_on_new_name_callback_def net_inv_def)

lemma net_reach_inv: "net_reach net \<Longrightarrow> net_inv net"
  by (induction rule: net_reach.induct)
    (simp_all add: net_inv_new net_inv_callback net_inv_insert net_inv_release net_inv_clear)

section \<open>The set of names\<close>

lemma name_set_insert_sorted:
  "sorted_wrt name_less ms \<Longrightarrow> sorted_wrt name_less (name_set_insert n ms) \<and>
     set (name_set_insert n ms) \<subseteq> insert n (set ms) \<and> set ms \<subseteq> set (name_set_insert n ms) \<and>
     (\<exists>m \<in> set (name_set_insert n ms). name_eq m n)"
proof (induction ms)
  case Nil
  then show ?case by (simp add: name_order_prio)
next
  case (Cons k ms)
  then show ?case by (auto simp: name_order_prio)
qed

lemma net_name_set_fold:
  assumes "sorted_wrt name_less s"
  shows "let s' = fold (\<lambda>(n, a) s. name_set_insert n s) xs s
    in sorted_wrt name_less s' \<and> set s \<subseteq> set s' \<and> set s' \<subseteq> set s \<union> fst ` set xs \<and>
      (\<forall>n \<in> fst ` set xs. \<exists>m \<in> set s'. name_eq m n)"
  using assms
proof (induction xs arbitrary: s)
  case Nil
  then show ?case by simp
next
  case (Cons x xs)
  note i = name_set_insert_sorted [OF Cons.prems, of "fst x"]
  from Cons.IH [of "name_set_insert (fst x) s"] i show ?case
    by (simp add: Let_def split_beta) blast
qed

lemma um_keys: "k \<in> fst ` set m \<longleftrightarrow> um_find m k \<noteq> None"
  by (simp add: um_find_def map_of_eq_None_iff)

lemma net_get_name_set_spec:
  "sorted_wrt name_less (net_get_name_set net)"
  "m \<in> set (net_get_name_set net) \<Longrightarrow> net_in_network m net"
  "net_in_network n net \<Longrightarrow> \<exists>m \<in> set (net_get_name_set net). name_eq m n"
proof -
  have "sorted_wrt name_less []" by simp
  note f = net_name_set_fold [OF this, of "name_addr_map net", folded net_get_name_set_def, unfolded Let_def]
  then show "sorted_wrt name_less (net_get_name_set net)"
    and "m \<in> set (net_get_name_set net) \<Longrightarrow> net_in_network m net"
    and "net_in_network n net \<Longrightarrow> \<exists>m \<in> set (net_get_name_set net). name_eq m n"
    unfolding net_in_network_def um_keys [symmetric] by auto
qed

section \<open>Properties\<close>

lemma less_eq_top_bit:
  fixes v w :: u64
  assumes "\<not> bit v 63" and "bit w 63"
  shows "v \<le> w"
proof -
  have "take_bit 63 (uint v) = uint v"
  proof (rule bit_eqI)
    fix k
    have "k = 63" if "bit v k" "\<not> k < 63"
      using that bit_word_less [of v k] by simp
    with assms(1) show "bit (take_bit 63 (uint v)) k \<longleftrightarrow> bit (uint v) k"
      by (auto simp: bit_take_bit_iff bit_uint_iff)
  qed
  then have "uint v < 2 ^ 63" using take_bit_int_less_exp [of 63 "uint v"] by (simp only:)
  moreover have "take_bit 63 (uint w) \<noteq> uint w"
    using assms(2) bit_take_bit_iff [of 63 "uint w" 63] by (auto simp: bit_uint_iff)
  then have "2 ^ 63 \<le> uint w" using uint_ge_0 [of w] by (simp add: take_bit_int_eq_self_iff)
  ultimately show ?thesis unfolding word_le_def by (rule order_less_imp_le [OF order_less_le_trans])
qed

text \<open>
  C9. On every network reached by claims, releases and clearing, the two maps agree: a name
  with a unicast address is the one its address leads to, and every address entry is a unicast
  address of a registered name. So at most 254 addresses are held.
\<close>

theorem network_invariant:
  "net_reach net \<Longrightarrow> net_inv net \<and> net_address_count net \<le> 254"
  by (simp add: net_reach_inv net_address_count_bound)

theorem network_invariant_witness:
  "net_inv (snd (net_insert (Name 7) 5 (net_new ''can0'' True))) \<and>
   net_address_count (snd (net_insert (Name 7) 5 (net_new ''can0'' True))) \<le> 254"
  by (rule network_invariant) (intro net_reach.intros)





text \<open>
  When two names claim a free address, the one with the higher priority ends up with it,
  whichever of them claimed first.
\<close>

theorem network_contest_order:
  assumes "net_inv net" and "net_available a net" and "name_less n m"
  shows "net_get_name a (snd (net_insert m a (snd (net_insert n a net)))) = Some n
    \<and> net_get_name a (snd (net_insert n a (snd (net_insert m a net)))) = Some n"
  using assms book.contest [OF assms(1) _ _ assms(3), of a]
  by (auto simp: net_available_def net_get_name_def not_less split: if_splits)

theorem network_contest_order_witness:
  "net_get_name 5 (snd (net_insert (Name 9) 5 (snd (net_insert (Name 7) 5 (net_new [] False))))) = Some (Name 7) \<and>
   net_get_name 5 (snd (net_insert (Name 7) 5 (snd (net_insert (Name 9) 5 (net_new [] False))))) = Some (Name 7)"
  by (rule network_contest_order, rule net_inv_new)
    (simp_all add: net_available_def net_new_def J1939_MAX_UNICAST_ADDR_def name_less_def
      slf_cfg_addr_mask_def)





text \<open>
  The network is full exactly when no unicast address is available.
\<close>

theorem network_full_iff_none_available:
  "net_reach net \<Longrightarrow> net_full net \<longleftrightarrow> (\<forall>a. unicast a \<longrightarrow> \<not> net_available a net)"
  by (intro net_full_iff net_reach_inv)

theorem network_full_iff_none_available_witness:
  "\<not> net_full (net_new ''can0'' False) \<and> net_available 5 (net_new ''can0'' False)"
proof -
  have "net_available 5 (net_new ''can0'' False)" "unicast (5::address_t)"
    by (simp_all add: net_available_def net_new_def J1939_MAX_UNICAST_ADDR_def)
  then show ?thesis
    using network_full_iff_none_available [OF net_reach.new, of "''can0''" False] by blast
qed

text \<open>
  A name that moves to another address keeps its former address in the address map: the
  former address stays taken, although no name has it any more.
\<close>

theorem network_move_keeps_old_address:
  assumes "net_inv net" and "net_get_address n net = a" and "unicast a"
    and "unicast b" and "a \<noteq> b" and "fst (net_insert n b net)"
  shows "net_get_address n (snd (net_insert n b net)) = b
    \<and> net_get_name a (snd (net_insert n b net)) = Some n
    \<and> \<not> net_available a (snd (net_insert n b net))
    \<and> (\<forall>m. net_get_address m (snd (net_insert n b net)) \<noteq> a)"
proof -
  let ?net = "snd (net_insert n b net)"
  have n: "um_find (name_addr_map net) n = Some a"
    using net_get_address_unicast [of n net] assms(2,3) by simp
  have "may_take n b net" using assms(4,6) net_insert_fst by blast
  from net_insert_stale [OF assms(1) n assms(3,4,5) this]
  have s: "um_find (addr_name_map ?net) a = Some n" .
  have w: "net_get_address n ?net = b" by (rule book.insert_won [OF assms(1,4,6)])
  have "net_get_address m ?net \<noteq> a" for m
    using net_get_name_address [OF net_inv_insert [OF assms(1)], of m n b] s w assms(3,5)
    by (auto simp: net_get_name_def)
  with s w assms(3) show ?thesis by (simp add: net_get_name_def net_available_def)
qed

theorem network_move_keeps_old_address_witness:
  "net_get_name 5 (snd (net_insert (Name 7) 6 (snd (net_insert (Name 7) 5 (net_new [] False))))) = Some (Name 7)"
proof -
  let ?net = "snd (net_insert (Name 7) 5 (net_new [] False))"
  have "net_get_address (Name 7) ?net = 5" "fst (net_insert (Name 7) 6 ?net)"
    by (simp_all add: net_insert_def net_new_def net_claim_def net_get_address_def Let_def
        J1939_MAX_UNICAST_ADDR_def)
  then show ?thesis
    using network_move_keeps_old_address [of ?net "Name 7" 5 6]
    by (simp add: net_inv_insert net_inv_new J1939_MAX_UNICAST_ADDR_def)
qed

text \<open>
  Removing a name that has a left-over address, and then claiming that address for
  another name, takes address 0 from its holder in the address map only: the name still
  has address 0, which the network reports as available.
\<close>

theorem network_remove_frees_zero:
  "let net0 = net_new ''can0'' False;
       net1 = snd (net_insert (Name 7) 6 (snd (net_insert (Name 7) 5 net0)));
       net2 = snd (net_insert (Name 3) 0 (net_remove (Name 7) net1));
       net3 = snd (net_insert (Name 2) 5 net2)
   in net_get_address (Name 3) net2 = 0 \<and> \<not> net_available 0 net2
    \<and> net_get_address (Name 3) net3 = 0 \<and> net_available 0 net3 \<and> \<not> net_inv net3"
  by code_simp

text \<open>
  A name without the self-configuration bit is told to take the address of every
  self-configurable holder, also of one with the higher priority, from which it cannot claim
  it: the search compares the whole values of the names.
\<close>

theorem network_find_address_ignores_priority:
  assumes "self_config_address n = 0" and "self_config_address c \<noteq> 0" and "name_less c n"
    and "unicast a" and "net_get_name a net = Some c"
  shows "net_find_address n a net = a \<and> \<not> fst (net_insert n a net)"
proof -
  have "n \<le> c"
    using assms(1,2) less_eq_top_bit [of "name_val n" "name_val c"]
    by (simp add: self_config_address_bit less_eq_name_def)
  then show ?thesis
    using assms
    by (auto simp: net_find_address_def Let_def clamp_unicast(2) net_get_name_def net_insert_fst
        may_take_def name_order_prio)
qed

theorem network_find_address_ignores_priority_witness:
  "let net = snd (net_insert (Name 0x8000000000000003) 5 (net_new [] False))
   in net_find_address (Name 7) 5 net = 5 \<and> \<not> fst (net_insert (Name 7) 5 net)"
  unfolding Let_def
  by (rule network_find_address_ignores_priority [where c = "Name 0x8000000000000003"])
    (simp_all add: self_config_address_bit name_less_def slf_cfg_addr_mask_def net_insert_def
      net_new_def net_claim_def net_get_name_def Let_def J1939_MAX_UNICAST_ADDR_def)

text \<open>
  The set of names is sorted by priority, holds registered names only, and has for every
  registered name one that compares equal to it.
\<close>

theorem network_name_set:
  "sorted_wrt name_less (net_get_name_set net)
   \<and> (\<forall>m. m \<in> set (net_get_name_set net) \<longrightarrow> net_in_network m net)
   \<and> (\<forall>n. net_in_network n net \<longrightarrow> (\<exists>m. m \<in> set (net_get_name_set net) \<and> name_eq m n))"
  using net_get_name_set_spec by blast

theorem network_name_set_witness:
  "\<exists>m. m \<in> set (net_get_name_set (snd (net_insert (Name 7) 5 (net_new [] False)))) \<and> name_eq m (Name 7)"
proof -
  have "net_in_network (Name 7) (snd (net_insert (Name 7) 5 (net_new [] False)))"
    by (simp add: net_in_network_def net_insert_def net_new_def net_claim_def Let_def
        J1939_MAX_UNICAST_ADDR_def)
  then show ?thesis using network_name_set by blast
qed

text \<open>
  Claiming \<open>J1939_NO_ADDR\<close> for a registered name changes nothing, and reports failure; only
  \<open>J1939_IDLE_ADDR\<close> clears the address.
\<close>

theorem network_insert_special:
  assumes "net_in_network n net"
  shows "net_insert n J1939_NO_ADDR net = (False, net)
    \<and> net_get_address n (snd (net_insert n J1939_IDLE_ADDR net)) = J1939_IDLE_ADDR"
  using assms
  by (auto simp: net_in_network_def net_insert_special net_set_idle_maps net_address_of)

theorem network_insert_special_witness:
  "let net = snd (net_insert (Name 7) 5 (net_new [] False))
   in net_insert (Name 7) J1939_NO_ADDR net = (False, net) \<and> net_get_address (Name 7) net = 5"
proof -
  let ?net = "snd (net_insert (Name 7) 5 (net_new [] False))"
  have "net_in_network (Name 7) ?net" "net_get_address (Name 7) ?net = 5"
    by (simp_all add: net_in_network_def net_get_address_def net_insert_def net_new_def net_claim_def
        Let_def J1939_MAX_UNICAST_ADDR_def)
  with network_insert_special show ?thesis by (simp only: Let_def)
qed

end
