(* ===== verification/Jay_Header.thy ===== *)
theory Jay_Header
  imports Jay_Types
begin

text \<open>
  The class \<^verbatim>\<open>jay::frame_header\<close> of \<^verbatim>\<open>src/include/jay/header.hpp\<close>: the 29-bit identifier of a
  frame with its priority, data page, PDU format, PDU specific and source address fields, and
  the length of the payload. The class wraps \<^verbatim>\<open>canary::frame_header\<close>, which belongs to the
  Canary library: its member functions are the parameter \<open>C\<close> of the definitions, and what
  this class relies on is the locale \<open>canary_frame_header\<close>.
\<close>

section \<open>The wrapped header\<close>

text \<open>The default constructor, the setters and the getters of \<^verbatim>\<open>canary::frame_header\<close>.\<close>

record 'h canary_header =
  ch_new :: 'h
  ch_id :: "'h \<Rightarrow> u32"
  ch_set_id :: "u32 \<Rightarrow> 'h \<Rightarrow> 'h"
  ch_payload_length :: "'h \<Rightarrow> nat"
  ch_set_payload_length :: "nat \<Rightarrow> 'h \<Rightarrow> 'h"
  ch_extended_format :: "'h \<Rightarrow> bool"
  ch_set_extended_format :: "bool \<Rightarrow> 'h \<Rightarrow> 'h"
  ch_error :: "'h \<Rightarrow> bool"
  ch_set_error :: "bool \<Rightarrow> 'h \<Rightarrow> 'h"
  ch_remote_transmission :: "'h \<Rightarrow> bool"
  ch_set_remote_transmission :: "bool \<Rightarrow> 'h \<Rightarrow> 'h"

section \<open>Masks\<close>

definition prio_mask :: u32 where [header_defs]: "prio_mask = 0x1C000000"
definition data_page_mask :: u32 where [header_defs]: "data_page_mask = 0x01000000"
definition pgn_mask :: u32 where [header_defs]: "pgn_mask = 0x03FFFF00"
definition pf_mask :: u32 where [header_defs]: "pf_mask = 0x00FF0000"
definition ps_mask :: u32 where [header_defs]: "ps_mask = 0x0000FF00"
definition ad_mask :: u32 where [header_defs]: "ad_mask = 0x000000FF"

section \<open>Construction\<close>

definition fh_default :: "'h canary_header \<Rightarrow> 'h" where
  "fh_default C = ch_set_remote_transmission C False (ch_set_error C False
     (ch_set_extended_format C True (ch_new C)))"

text \<open>The constructor's second parameter is a \<^verbatim>\<open>uint8_t\<close>: the length is cut to 8 bits.\<close>

definition fh_of_id :: "'h canary_header \<Rightarrow> u32 \<Rightarrow> u8 \<Rightarrow> 'h" where
  "fh_of_id C header_data payload_length =
     ch_set_payload_length C (unat payload_length) (ch_set_id C header_data (fh_default C))"

definition fh_of_pgn :: "'h canary_header \<Rightarrow> priority_t \<Rightarrow> pgn_t \<Rightarrow> address_t \<Rightarrow> nat \<Rightarrow> 'h" where
  "fh_of_pgn C priority pgn source_address payload_length =
     fh_of_id C (push_bit 26 (clamp (ucast priority) 0 7) OR push_bit 8 pgn OR ucast source_address)
       (word_of_nat payload_length)"

definition fh_of_parts ::
  "'h canary_header \<Rightarrow> priority_t \<Rightarrow> bool \<Rightarrow> u8 \<Rightarrow> u8 \<Rightarrow> u8 \<Rightarrow> nat \<Rightarrow> 'h" where
  "fh_of_parts C priority data_page pdu_format pdu_specific source_address payload_length =
     fh_of_pgn C priority
       (push_bit 16 (of_bool data_page) OR push_bit 8 (ucast pdu_format) OR ucast pdu_specific)
       source_address payload_length"

section \<open>Getters\<close>

definition fh_id :: "'h canary_header \<Rightarrow> 'h \<Rightarrow> u32" where
  "fh_id C h = ch_id C h"

definition fh_priority :: "'h canary_header \<Rightarrow> 'h \<Rightarrow> priority_t" where
  "fh_priority C h = ucast (drop_bit 26 (ch_id C h AND prio_mask))"

definition fh_data_page :: "'h canary_header \<Rightarrow> 'h \<Rightarrow> u8" where
  "fh_data_page C h = ucast (drop_bit 24 (ch_id C h AND data_page_mask))"

definition fh_pdu_format :: "'h canary_header \<Rightarrow> 'h \<Rightarrow> u8" where
  "fh_pdu_format C h = ucast (drop_bit 16 (ch_id C h))"

definition fh_pdu_specific :: "'h canary_header \<Rightarrow> 'h \<Rightarrow> u8" where
  "fh_pdu_specific C h = ucast (drop_bit 8 (ch_id C h))"

definition fh_source_address :: "'h canary_header \<Rightarrow> 'h \<Rightarrow> address_t" where
  "fh_source_address C h = ucast (ch_id C h)"

definition fh_payload_length :: "'h canary_header \<Rightarrow> 'h \<Rightarrow> nat" where
  "fh_payload_length C h = ch_payload_length C h"

definition fh_is_broadcast :: "'h canary_header \<Rightarrow> 'h \<Rightarrow> bool" where
  "fh_is_broadcast C h \<longleftrightarrow> fh_pdu_format C h > PF_PDU1_MAX"

definition fh_pgn :: "'h canary_header \<Rightarrow> 'h \<Rightarrow> pgn_t" where
  "fh_pgn C h =
     (let pgn = ch_id C h AND pgn_mask;
          pgn = (if \<not> fh_is_broadcast C h then pgn AND NOT ps_mask else pgn)
      in drop_bit 8 pgn)"

definition fh_is_request :: "'h canary_header \<Rightarrow> 'h \<Rightarrow> bool" where
  "fh_is_request C h \<longleftrightarrow> (fh_pgn C h AND J1939_PGN_PDU1_MAX) = J1939_PGN_REQUEST"

definition fh_is_claim :: "'h canary_header \<Rightarrow> 'h \<Rightarrow> bool" where
  "fh_is_claim C h \<longleftrightarrow> (fh_pgn C h AND J1939_PGN_PDU1_MAX) = J1939_PGN_ADDRESS_CLAIMED"

section \<open>Setters\<close>

definition fh_set_id :: "'h canary_header \<Rightarrow> u32 \<Rightarrow> 'h \<Rightarrow> 'h" where
  "fh_set_id C x h = ch_set_id C x h"

definition fh_set_priority :: "'h canary_header \<Rightarrow> priority_t \<Rightarrow> 'h \<Rightarrow> 'h" where
  "fh_set_priority C priority h = fh_set_id C
     ((fh_id C h AND NOT prio_mask) OR push_bit 26 (clamp (ucast priority) 0 7)) h"

definition fh_set_pgn :: "'h canary_header \<Rightarrow> pgn_t \<Rightarrow> 'h \<Rightarrow> 'h" where
  "fh_set_pgn C pgn h = fh_set_id C
     ((fh_id C h AND NOT pgn_mask) OR push_bit 8 (pgn AND 0x3FFFF)) h"

definition fh_set_data_page :: "'h canary_header \<Rightarrow> bool \<Rightarrow> 'h \<Rightarrow> 'h" where
  "fh_set_data_page C data_page_bit h = fh_set_id C
     ((fh_id C h AND NOT data_page_mask) OR push_bit 24 (if data_page_bit then 1 else 0)) h"

definition fh_set_pdu_format :: "'h canary_header \<Rightarrow> u8 \<Rightarrow> 'h \<Rightarrow> 'h" where
  "fh_set_pdu_format C pdu_format h = fh_set_id C
     ((fh_id C h AND NOT pf_mask) OR push_bit 16 (ucast pdu_format)) h"

definition fh_set_pdu_specific :: "'h canary_header \<Rightarrow> u8 \<Rightarrow> 'h \<Rightarrow> 'h" where
  "fh_set_pdu_specific C pdu_specific h = fh_set_id C
     ((fh_id C h AND NOT ps_mask) OR push_bit 8 (ucast pdu_specific)) h"

definition fh_set_source_address :: "'h canary_header \<Rightarrow> address_t \<Rightarrow> 'h \<Rightarrow> 'h" where
  "fh_set_source_address C source_address h = fh_set_id C
     ((fh_id C h AND NOT ad_mask) OR ucast source_address) h"

definition fh_set_payload_length :: "'h canary_header \<Rightarrow> nat \<Rightarrow> 'h \<Rightarrow> 'h" where
  "fh_set_payload_length C n h = ch_set_payload_length C n h"

text \<open>A header of this class: extended format, no error frame, no remote transmission.\<close>

definition fh_wf :: "'h canary_header \<Rightarrow> 'h \<Rightarrow> bool" where
  "fh_wf C h \<longleftrightarrow> ch_extended_format C h \<and> \<not> ch_error C h \<and> \<not> ch_remote_transmission C h"

section \<open>What the wrapped class promises\<close>

text \<open>
  Each setter of the wrapped class changes what its getter returns and nothing else. In the
  extended format the identifier has 29 bits and the setter drops the rest; a classical CAN
  frame has at most 8 payload bytes, and larger lengths are left open.
\<close>

definition CAN_EFF_MASK :: u32 where "CAN_EFF_MASK = 0x1FFFFFFF"

locale canary_frame_header =
  fixes C :: "'h canary_header"
  assumes id_set: "ch_extended_format C h \<Longrightarrow> ch_id C (ch_set_id C x h) = x AND CAN_EFF_MASK"
    and id_new: "ch_id C (fh_default C) = 0"
    and id_set_length: "ch_id C (ch_set_payload_length C n h) = ch_id C h"
    and length_set: "n \<le> 8 \<Longrightarrow> ch_payload_length C (ch_set_payload_length C n h) = n"
    and length_set_id: "ch_payload_length C (ch_set_id C x h) = ch_payload_length C h"
    and length_new: "ch_payload_length C (fh_default C) = 0"
    and extended: "ch_extended_format C (ch_set_extended_format C b h) = b"
      "ch_extended_format C (ch_set_error C b h) = ch_extended_format C h"
      "ch_extended_format C (ch_set_remote_transmission C b h) = ch_extended_format C h"
      "ch_extended_format C (ch_set_id C x h) = ch_extended_format C h"
      "ch_extended_format C (ch_set_payload_length C n h) = ch_extended_format C h"
    and error: "ch_error C (ch_set_error C b h) = b"
      "ch_error C (ch_set_remote_transmission C b h) = ch_error C h"
      "ch_error C (ch_set_id C x h) = ch_error C h"
      "ch_error C (ch_set_payload_length C n h) = ch_error C h"
    and remote: "ch_remote_transmission C (ch_set_remote_transmission C b h) = b"
      "ch_remote_transmission C (ch_set_id C x h) = ch_remote_transmission C h"
      "ch_remote_transmission C (ch_set_payload_length C n h) = ch_remote_transmission C h"
begin

lemmas canary_laws = id_set id_new id_set_length length_set length_set_id length_new
  extended error remote

lemma wf_default [simp]: "fh_wf C (fh_default C)"
  by (simp add: fh_wf_def fh_default_def extended error remote)

lemma wf_set_id [simp]: "fh_wf C (fh_set_id C x h) = fh_wf C h"
  by (simp add: fh_wf_def fh_set_id_def extended error remote)

lemma wf_set_payload_length [simp]: "fh_wf C (fh_set_payload_length C n h) = fh_wf C h"
  by (simp add: fh_wf_def fh_set_payload_length_def extended error remote)

lemma wf_of_id [simp]: "fh_wf C (fh_of_id C x n)"
  by (simp add: fh_of_id_def flip: fh_set_id_def fh_set_payload_length_def)

lemma id_of_id: "fh_id C (fh_of_id C x n) = x AND CAN_EFF_MASK"
  using wf_default by (simp add: fh_id_def fh_of_id_def canary_laws fh_wf_def)

lemma id_set_id: "fh_wf C h \<Longrightarrow> fh_id C (fh_set_id C x h) = x AND CAN_EFF_MASK"
  by (simp add: fh_id_def fh_set_id_def canary_laws fh_wf_def)

end

section \<open>Fields of the identifier\<close>

lemma unat_ucast_u8: "8 \<le> LENGTH('a) \<Longrightarrow> unat (ucast (x :: u8) :: 'a::len word) = unat x"
proof -
  assume "8 \<le> LENGTH('a)"
  then have "(2 :: nat) ^ 8 \<le> 2 ^ LENGTH('a)"
    by (rule power_increasing) simp
  moreover have "unat x < 2 ^ 8"
    using unsigned_less [of x] by simp
  ultimately show ?thesis
    by (simp add: unsigned_ucast_eq take_bit_nat_eq_self)
qed

lemma clamp_7: "clamp (ucast (p :: u8)) 0 7 = (ucast (min p 7) :: u32)"
proof -
  have "7 < (ucast p :: u32) \<longleftrightarrow> 7 < p"
    by (simp add: word_less_nat_alt unat_ucast_u8)
  then show ?thesis
    by (auto simp: clamp_def min_def not_less)
qed

lemma min_7_bit:
  assumes "bit (min p 7 :: u8) n"
  shows "n < 3"
proof -
  have "unat (min p 7) < 2 ^ 3"
    using min.cobounded2 [of p 7] by (simp add: word_le_nat_alt)
  then have "take_bit 3 (min p 7) = min p 7"
    by (simp add: word_unat_eq_iff unsigned_take_bit_eq take_bit_nat_eq_self)
  with assms show ?thesis by (metis bit_take_bit_iff)
qed

text \<open>The bits of the masks.\<close>


interpretation f_prio: bit_field prio_mask 26 3
  by unfold_locales (simp_all add: header_defs mask_eq_exp_minus_1)

interpretation f_dp: bit_field data_page_mask 24 1
  by unfold_locales (simp_all add: header_defs mask_eq_exp_minus_1)

interpretation f_pgn: bit_field pgn_mask 8 18
  by unfold_locales (simp_all add: header_defs mask_eq_exp_minus_1)

interpretation f_pf: bit_field pf_mask 16 8
  by unfold_locales (simp_all add: header_defs mask_eq_exp_minus_1)

interpretation f_ps: bit_field ps_mask 8 8
  by unfold_locales (simp_all add: header_defs mask_eq_exp_minus_1)

interpretation f_ad: bit_field ad_mask 0 8
  by unfold_locales (simp_all add: header_defs mask_eq_exp_minus_1)

interpretation f_pdu1: bit_field J1939_PGN_PDU1_MAX 8 10
  by unfold_locales (simp_all add: j1939_consts mask_eq_exp_minus_1)

interpretation f_id: bit_field CAN_EFF_MASK 0 29
  by unfold_locales (simp_all add: CAN_EFF_MASK_def mask_eq_exp_minus_1)

lemmas header_bits = f_prio.bit_msk f_dp.bit_msk f_pgn.bit_msk f_pf.bit_msk f_ps.bit_msk
  f_ad.bit_msk f_pdu1.bit_msk f_id.bit_msk

datatype header_field = Priority | Data_page | Pdu_format | Pdu_specific | Source_address

fun fh_get :: "'h canary_header \<Rightarrow> header_field \<Rightarrow> 'h \<Rightarrow> u8" where
  "fh_get C Priority h = fh_priority C h"
| "fh_get C Data_page h = fh_data_page C h"
| "fh_get C Pdu_format h = fh_pdu_format C h"
| "fh_get C Pdu_specific h = fh_pdu_specific C h"
| "fh_get C Source_address h = fh_source_address C h"

fun fh_put :: "'h canary_header \<Rightarrow> header_field \<Rightarrow> u8 \<Rightarrow> 'h \<Rightarrow> 'h" where
  "fh_put C Priority v h = fh_set_priority C v h"
| "fh_put C Data_page v h = fh_set_data_page C (v \<noteq> 0) h"
| "fh_put C Pdu_format v h = fh_set_pdu_format C v h"
| "fh_put C Pdu_specific v h = fh_set_pdu_specific C v h"
| "fh_put C Source_address v h = fh_set_source_address C v h"

fun fh_stored :: "header_field \<Rightarrow> u8 \<Rightarrow> u8" where
  "fh_stored Priority v = min v 7"
| "fh_stored Data_page v = of_bool (v \<noteq> 0)"
| "fh_stored Pdu_format v = v"
| "fh_stored Pdu_specific v = v"
| "fh_stored Source_address v = v"

fun hf_start :: "header_field \<Rightarrow> nat" where
  "hf_start Priority = 26" | "hf_start Data_page = 24" | "hf_start Pdu_format = 16"
| "hf_start Pdu_specific = 8" | "hf_start Source_address = 0"

fun hf_width :: "header_field \<Rightarrow> nat" where
  "hf_width Priority = 3" | "hf_width Data_page = 1" | "hf_width Pdu_format = 8"
| "hf_width Pdu_specific = 8" | "hf_width Source_address = 8"

lemma bit_fh_get: "bit (fh_get C f h) n \<longleftrightarrow> n < hf_width f \<and> bit (fh_id C h) (hf_start f + n)"
  by (cases f) (auto simp: fh_priority_def fh_data_page_def fh_pdu_format_def
      fh_pdu_specific_def fh_source_address_def fh_id_def bit_simps header_bits)

lemma hf_fits: "n < hf_width g \<Longrightarrow> hf_start g + n < 29"
  by (cases g) auto

lemma hf_disjoint:
  "g \<noteq> f \<Longrightarrow> n < hf_width g \<Longrightarrow>
     \<not> (hf_start f \<le> hf_start g + n \<and> hf_start g + n < hf_start f + hf_width f)"
  by (cases f; cases g; auto)

lemma fh_stored_width: "bit (fh_stored f v) n \<Longrightarrow> n < hf_width f"
  by (cases f) (auto simp: bit_simps split: if_splits dest: min_7_bit bit_word_less)

context canary_frame_header
begin

lemma bit_fh_put:
  assumes "fh_wf C h" and "n < 29"
  shows "bit (fh_id C (fh_put C f v h)) n \<longleftrightarrow>
    (if hf_start f \<le> n \<and> n < hf_start f + hf_width f then bit (fh_stored f v) (n - hf_start f)
     else bit (fh_id C h) n)"
proof (cases f)
  case Priority
  then show ?thesis using assms
   by (auto simp: fh_set_priority_def id_set_id bit_simps header_bits clamp_7 dest: min_7_bit)
next
  case Data_page
  then show ?thesis using assms
   by (auto simp: fh_set_data_page_def id_set_id bit_simps header_bits)
qed (use assms in \<open>auto simp: fh_set_pdu_format_def fh_set_pdu_specific_def fh_set_source_address_def id_set_id bit_simps header_bits dest: bit_word_less\<close>)


lemma wf_put [simp]: "fh_wf C (fh_put C f v h) = fh_wf C h"
  by (cases f) (simp_all add: fh_set_priority_def fh_set_data_page_def fh_set_pdu_format_def
      fh_set_pdu_specific_def fh_set_source_address_def)

lemma wf_set_pgn [simp]: "fh_wf C (fh_set_pgn C p h) = fh_wf C h"
  by (simp add: fh_set_pgn_def)

lemma get_put:
  assumes "fh_wf C h"
  shows "fh_get C g (fh_put C f v h) = (if g = f then fh_stored f v else fh_get C g h)"
proof (rule bit_word_eqI)
  fix n
  have "n < hf_width g \<Longrightarrow> bit (fh_id C (fh_put C f v h)) (hf_start g + n) =
      (if g = f then bit (fh_stored f v) n else bit (fh_id C h) (hf_start g + n))"
    using hf_disjoint [of g f n] by (cases "g = f") (auto simp: bit_fh_put assms hf_fits)
  then show "bit (fh_get C g (fh_put C f v h)) n =
      bit (if g = f then fh_stored f v else fh_get C g h) n"
    using fh_stored_width [of f v n] by (auto simp: bit_fh_get)
qed

lemma bit_set_pgn:
  assumes "fh_wf C h" and "n < 29"
  shows "bit (fh_id C (fh_set_pgn C p h)) n \<longleftrightarrow>
    (if 8 \<le> n \<and> n < 26 then bit p (n - 8) else bit (fh_id C h) n)"
proof -
  have m: "(0x3FFFF :: u32) = mask 18"
    by (simp add: mask_eq_exp_minus_1)
  show ?thesis
    using assms unfolding fh_set_pgn_def id_set_id [OF assms(1)] m
    by (auto simp: bit_simps header_bits)
qed

lemma length_of_id: "unat n \<le> 8 \<Longrightarrow> fh_payload_length C (fh_of_id C x n) = unat n"
  by (simp add: fh_payload_length_def fh_of_id_def canary_laws)

lemma length_put [simp]: "fh_payload_length C (fh_put C f v h) = fh_payload_length C h"
  by (cases f) (simp_all add: fh_payload_length_def fh_set_id_def canary_laws
      fh_set_priority_def fh_set_data_page_def fh_set_pdu_format_def
      fh_set_pdu_specific_def fh_set_source_address_def)

lemma length_set_pgn [simp]: "fh_payload_length C (fh_set_pgn C p h) = fh_payload_length C h"
  by (simp add: fh_payload_length_def fh_set_pgn_def fh_set_id_def canary_laws)

lemma id_set_payload_length [simp]: "fh_id C (fh_set_payload_length C n h) = fh_id C h"
  by (simp add: fh_id_def fh_set_payload_length_def canary_laws)

lemma bit_of_parts:
  assumes "n < 29"
  shows "bit (fh_id C (fh_of_parts C p dp pf ps sa l)) n \<longleftrightarrow>
    (if n < 8 then bit sa n else if n < 16 then bit ps (n - 8) else if n < 24 then bit pf (n - 16)
     else if n = 24 then dp else if n = 25 then False else bit (min p 7) (n - 26))"
  using assms
  by (auto simp: fh_of_parts_def fh_of_pgn_def id_of_id bit_simps header_bits clamp_7
      dest: min_7_bit bit_word_less)

lemma get_of_parts:
  "fh_get C f (fh_of_parts C p dp pf ps sa l) =
     (case f of Priority \<Rightarrow> min p 7 | Data_page \<Rightarrow> of_bool dp | Pdu_format \<Rightarrow> pf
      | Pdu_specific \<Rightarrow> ps | Source_address \<Rightarrow> sa)"
proof (rule bit_word_eqI)
  fix n
  assume "n < LENGTH(8)"
  then show "bit (fh_get C f (fh_of_parts C p dp pf ps sa l)) n =
      bit (case f of Priority \<Rightarrow> min p 7 | Data_page \<Rightarrow> of_bool dp | Pdu_format \<Rightarrow> pf
        | Pdu_specific \<Rightarrow> ps | Source_address \<Rightarrow> sa) n"
    using min_7_bit [of p n]
    by (cases f) (auto simp: bit_fh_get bit_of_parts bit_simps simp del: fh_get.simps)
qed

end

text \<open>The group number is a function of the other fields.\<close>

lemma bit_fh_pgn:
  "bit (fh_pgn C h) n \<longleftrightarrow>
     bit (fh_id C h) (n + 8) \<and> n < 18 \<and> (n < 8 \<longrightarrow> fh_is_broadcast C h)"
  by (auto simp: fh_pgn_def Let_def fh_id_def bit_simps header_bits add.commute
      dest: bit_word_less)

lemma bit_fh_fields:
  "bit (fh_pdu_format C h) n \<longleftrightarrow> n < 8 \<and> bit (fh_id C h) (n + 16)"
  "bit (fh_pdu_specific C h) n \<longleftrightarrow> n < 8 \<and> bit (fh_id C h) (n + 8)"
  "bit (fh_source_address C h) n \<longleftrightarrow> n < 8 \<and> bit (fh_id C h) n"
  "bit (fh_data_page C h) n \<longleftrightarrow> n = 0 \<and> bit (fh_id C h) 24"
  using bit_fh_get [of C Pdu_format h n] bit_fh_get [of C Pdu_specific h n]
    bit_fh_get [of C Source_address h n] bit_fh_get [of C Data_page h n]
  by (auto simp: add.commute)

lemma fh_pgn_fields:
  "fh_pgn C h = push_bit 17 (of_bool (bit (fh_id C h) 25)) OR push_bit 16 (ucast (fh_data_page C h))
     OR push_bit 8 (ucast (fh_pdu_format C h))
     OR (if fh_is_broadcast C h then ucast (fh_pdu_specific C h) else 0)"
  (is "_ = ?rhs")
proof (rule bit_word_eqI)
  fix n
  assume "n < LENGTH(32)"
  consider "n < 8" | "8 \<le> n" "n < 16" | "n = 16" | "n = 17" | "18 \<le> n" by linarith
  then show "bit (fh_pgn C h) n = bit ?rhs n"
    by cases (auto simp: bit_fh_pgn bit_or_iff bit_push_bit_iff bit_of_bool_iff ucast_u8_bit
        bit_fh_fields add.commute)
qed

text \<open>Requests and claims are recognised by the PDU format on the data page 0.\<close>

lemma pdu1_kind:
  assumes "p = push_bit 8 (ucast (k :: u8))"
  shows "(fh_pgn C h AND J1939_PGN_PDU1_MAX) = p \<longleftrightarrow>
     fh_pdu_format C h = k \<and> fh_data_page C h = 0 \<and> \<not> bit (fh_id C h) 25"
proof -
  have b: "bit (fh_pgn C h AND J1939_PGN_PDU1_MAX) n \<longleftrightarrow> 8 \<le> n \<and> n < 18 \<and> bit (fh_id C h) (n + 8)" for n
    by (auto simp: header_bits bit_simps bit_fh_pgn)
  have c: "bit p n \<longleftrightarrow> 8 \<le> n \<and> n < 16 \<and> bit k (n - 8)" for n
    by (auto simp: assms bit_push_bit_iff ucast_u8_bit)
  show ?thesis
  proof
    assume e: "(fh_pgn C h AND J1939_PGN_PDU1_MAX) = p"
    have i: "8 \<le> n \<and> n < 18 \<and> bit (fh_id C h) (n + 8) \<longleftrightarrow> 8 \<le> n \<and> n < 16 \<and> bit k (n - 8)" for n
      using b [of n] c [of n] e by simp
    have "fh_pdu_format C h = k"
    proof (rule bit_word_eqI)
      fix n assume "n < LENGTH(8)"
      then show "bit (fh_pdu_format C h) n = bit k n"
        using i [of "n + 8"] by (simp add: bit_fh_fields add.commute)
    qed
    moreover have "\<not> bit (fh_id C h) 24" "\<not> bit (fh_id C h) 25"
      using i [of 16] i [of 17] by simp_all
    then have "fh_data_page C h = 0" by (intro bit_word_eqI) (simp add: bit_fh_fields)
    ultimately show "fh_pdu_format C h = k \<and> fh_data_page C h = 0 \<and> \<not> bit (fh_id C h) 25"
      using \<open>\<not> bit (fh_id C h) 25\<close> by simp
  next
    assume r: "fh_pdu_format C h = k \<and> fh_data_page C h = 0 \<and> \<not> bit (fh_id C h) 25"
    then have "\<not> bit (fh_id C h) 24" using bit_fh_fields(4) [of C h 0] by simp
    show "(fh_pgn C h AND J1939_PGN_PDU1_MAX) = p"
    proof (rule bit_word_eqI)
      fix n :: nat
      consider "n < 8" | "8 \<le> n" "n < 16" | "n = 16" | "n = 17" | "18 \<le> n" by linarith
      then show "bit (fh_pgn C h AND J1939_PGN_PDU1_MAX) n = bit p n"
        using r \<open>\<not> bit (fh_id C h) 24\<close> bit_fh_fields(1) [of C h "n - 8"]
        by cases (auto simp: b c add.commute)
    qed
  qed
qed

lemma fh_is_claim_iff:
  "fh_is_claim C h \<longleftrightarrow>
     fh_pdu_format C h = PF_ADDRESS_CLAIM \<and> fh_data_page C h = 0 \<and> \<not> bit (fh_id C h) 25"
  unfolding fh_is_claim_def by (rule pdu1_kind) (simp add: j1939_consts)

lemma fh_is_request_iff:
  "fh_is_request C h \<longleftrightarrow>
     fh_pdu_format C h = PF_REQUEST \<and> fh_data_page C h = 0 \<and> \<not> bit (fh_id C h) 25"
  unfolding fh_is_request_def by (rule pdu1_kind) (simp add: j1939_consts)

section \<open>A concrete header\<close>

text \<open>
  A header that stores what the wrapped class gives access to: the identifier, the payload
  length and the three flags. It has the promised behaviour, and it evaluates.
\<close>

record can_header =
  can_id :: u32
  can_len :: nat
  can_eff :: bool
  can_err :: bool
  can_rtr :: bool

definition can_header_ops :: "can_header canary_header" where
  "can_header_ops =
    \<lparr>ch_new = \<lparr>can_id = 0, can_len = 0, can_eff = False, can_err = False, can_rtr = False\<rparr>,
     ch_id = can_id,
     ch_set_id = (\<lambda>x h. h\<lparr>can_id := (if can_eff h then x AND CAN_EFF_MASK else x AND 0x7FF)\<rparr>),
     ch_payload_length = can_len,
     ch_set_payload_length = (\<lambda>n h. h\<lparr>can_len := n\<rparr>),
     ch_extended_format = can_eff,
     ch_set_extended_format = (\<lambda>b h. h\<lparr>can_eff := b\<rparr>),
     ch_error = can_err,
     ch_set_error = (\<lambda>b h. h\<lparr>can_err := b\<rparr>),
     ch_remote_transmission = can_rtr,
     ch_set_remote_transmission = (\<lambda>b h. h\<lparr>can_rtr := b\<rparr>)\<rparr>"

interpretation can: canary_frame_header can_header_ops
  by unfold_locales (simp_all add: can_header_ops_def fh_default_def)

section \<open>Properties\<close>

lemmas canary_facts = canary_frame_header.wf_default canary_frame_header.wf_set_id
  canary_frame_header.wf_set_payload_length canary_frame_header.wf_of_id
  canary_frame_header.wf_put canary_frame_header.wf_set_pgn canary_frame_header.length_put
  canary_frame_header.length_set_pgn canary_frame_header.id_set_payload_length

text \<open>
  Every constructor makes an extended data frame header, and every setter keeps it one:
  the flags that \<^verbatim>\<open>frame_header()\<close> sets are those of every header.
\<close>

theorem frame_header_flags:
  assumes "canary_frame_header C"
  shows "fh_wf C (fh_default C) \<and> fh_wf C (fh_of_id C x n) \<and> fh_wf C (fh_of_pgn C p g a l)
    \<and> fh_wf C (fh_of_parts C p dp pf ps sa l)
    \<and> (fh_wf C h \<longrightarrow> fh_wf C (fh_set_id C x h) \<and> fh_wf C (fh_put C f v h)
         \<and> fh_wf C (fh_set_pgn C g h) \<and> fh_wf C (fh_set_payload_length C l h))"
  using assms by (simp add: fh_of_pgn_def fh_of_parts_def canary_facts)

theorem frame_header_flags_witness:
  "fh_wf can_header_ops (fh_set_pgn can_header_ops 0xEC00 (fh_default can_header_ops))
   \<and> ch_extended_format can_header_ops (fh_set_pgn can_header_ops 0xEC00 (fh_default can_header_ops))"
  using frame_header_flags [OF can.canary_frame_header_axioms, of 0 0 0 "0xEC00" 0 0 False 0 0 0
      "fh_default can_header_ops" Priority 0]
  by (simp add: fh_wf_def)

text \<open>
  A setter of the header writes its own field, the priority clamped to at most 7 and the
  data page to one bit, and leaves the other fields and the payload length as they are.
\<close>

theorem frame_header_field_frame:
  assumes "canary_frame_header C" and "fh_wf C h"
  shows "fh_get C g (fh_put C f v h) = (if g = f then fh_stored f v else fh_get C g h)
    \<and> fh_payload_length C (fh_put C f v h) = fh_payload_length C h"
  using assms by (simp add: canary_frame_header.get_put canary_facts)

theorem frame_header_field_frame_witness:
  "fh_priority can_header_ops (fh_set_priority can_header_ops 10 (fh_default can_header_ops)) = 7"
  using frame_header_field_frame [OF can.canary_frame_header_axioms can.wf_default,
      of Priority Priority 10]
  by (simp add: min_def)

text \<open>
  A header built from its parts gives them back, the priority clamped to at most 7, and
  its length when that is at most 8; its group number has the data page, the PDU format and,
  for a broadcast format only, the PDU specific byte.
\<close>

theorem frame_header_parts:
  assumes "canary_frame_header C"
  shows "let h = fh_of_parts C p dp pf ps sa l in
    fh_priority C h = min p 7 \<and> fh_data_page C h = of_bool dp \<and> fh_pdu_format C h = pf
    \<and> fh_pdu_specific C h = ps \<and> fh_source_address C h = sa \<and> (l \<le> 8 \<longrightarrow> fh_payload_length C h = l)
    \<and> fh_pgn C h = (push_bit 16 (of_bool dp) OR push_bit 8 (ucast pf)
         OR (if PF_PDU1_MAX < pf then ucast ps else 0))"
proof -
  have get: "fh_get C f (fh_of_parts C p dp pf ps sa l) = (case f of Priority \<Rightarrow> min p 7
      | Data_page \<Rightarrow> of_bool dp | Pdu_format \<Rightarrow> pf | Pdu_specific \<Rightarrow> ps | Source_address \<Rightarrow> sa)" for f
    by (rule canary_frame_header.get_of_parts [OF assms])
  have "\<not> bit (fh_id C (fh_of_parts C p dp pf ps sa l)) 25"
    by (simp add: canary_frame_header.bit_of_parts [OF assms])
  moreover have "l \<le> 8 \<Longrightarrow> fh_payload_length C (fh_of_parts C p dp pf ps sa l) = l"
    by (simp add: fh_of_parts_def fh_of_pgn_def canary_frame_header.length_of_id [OF assms]
        unat_of_nat take_bit_nat_eq_self)
  ultimately show ?thesis
    using get [of Priority] get [of Data_page] get [of Pdu_format] get [of Pdu_specific]
      get [of Source_address]
    by (simp add: Let_def fh_pgn_fields fh_is_broadcast_def)
qed

theorem frame_header_parts_witness:
  "let h = fh_of_parts can_header_ops 7 True 0xAF 0xFF 0x02 1 in
     fh_priority can_header_ops h = 7 \<and> fh_pdu_format can_header_ops h = 0xAF
     \<and> fh_pgn can_header_ops h = 0x1AF00 \<and> fh_payload_length can_header_ops h = 1"
  using frame_header_parts [OF can.canary_frame_header_axioms, of 7 True "0xAF" "0xFF" "0x02" 1]
  by (simp add: Let_def j1939_consts)

text \<open>
  C37. Reading the group number after setting it gives its 18 bits, without the PDU specific
  byte when the PDU format is addressable; the priority and the source address stay.
\<close>

theorem frame_header_pgn_roundtrip:
  assumes "canary_frame_header C" and "fh_wf C h"
  shows "fh_pgn C (fh_set_pgn C g h) =
      (if PF_PDU1_MAX < ucast (drop_bit 8 g) then take_bit 18 g else g AND J1939_PGN_PDU1_MAX)
    \<and> fh_priority C (fh_set_pgn C g h) = fh_priority C h
    \<and> fh_source_address C (fh_set_pgn C g h) = fh_source_address C h"
proof -
  note b = canary_frame_header.bit_set_pgn [OF assms]
  have pf: "fh_pdu_format C (fh_set_pgn C g h) = ucast (drop_bit 8 g)"
    by (rule bit_word_eqI) (auto simp: bit_fh_fields b bit_simps add.commute)
  have "fh_get C f (fh_set_pgn C g h) = fh_get C f h" if "f = Priority \<or> f = Source_address" for f
    using that by (intro bit_word_eqI) (auto simp: bit_fh_get b simp del: fh_get.simps)
  from this [of Priority] this [of Source_address]
  show ?thesis
    by (auto simp: fh_is_broadcast_def pf header_bits bit_simps bit_fh_pgn b intro!: bit_word_eqI)
qed

theorem frame_header_pgn_roundtrip_witness:
  "fh_pgn can_header_ops (fh_set_pgn can_header_ops 0xECFF (fh_default can_header_ops)) = 0xEC00"
  using frame_header_pgn_roundtrip [OF can.canary_frame_header_axioms can.wf_default, of "0xECFF"]
  by (simp add: j1939_consts)

text \<open>
  A header is taken for an address claim or for a request exactly when its PDU format is
  the one of that message on data page 0 with the reserved bit clear, whatever its priority,
  destination, source and length.
\<close>

theorem frame_header_kinds:
  "(fh_is_claim C h \<longleftrightarrow>
      fh_pdu_format C h = PF_ADDRESS_CLAIM \<and> fh_data_page C h = 0 \<and> \<not> bit (fh_id C h) 25)
   \<and> (fh_is_request C h \<longleftrightarrow>
      fh_pdu_format C h = PF_REQUEST \<and> fh_data_page C h = 0 \<and> \<not> bit (fh_id C h) 25)"
  by (simp add: fh_is_claim_iff fh_is_request_iff)

end
