(* ===== verification/Jay_Frame.thy ===== *)
theory Jay_Frame
  imports Jay_Header Jay_Name
begin

text \<open>
  \<^verbatim>\<open>src/include/jay/frame.hpp\<close> and \<^verbatim>\<open>src/include/jay/data.hpp\<close>: a frame is a header with an
  array of eight payload bytes, a data object a header with a payload of any length; the
  frames of the address management protocol.
\<close>

section \<open>Data\<close>

record 'h frame =
  header :: 'h
  payload :: "u8 list"

record 'h data =
  data_header :: 'h
  data_payload :: "u8 list"

text \<open>\<^verbatim>\<open>frame() = default\<close>: a default header and eight zero bytes.\<close>

definition frame_default :: "'h canary_header \<Rightarrow> 'h frame" where
  "frame_default C = \<lparr>header = fh_default C, payload = replicate 8 0\<rparr>"

definition frame_of :: "'h \<Rightarrow> u8 list \<Rightarrow> 'h frame" where
  [simp]: "frame_of in_header in_payload = \<lparr>header = in_header, payload = in_payload\<rparr>"

definition data_default :: "'h canary_header \<Rightarrow> 'h data" where
  "data_default C = \<lparr>data_header = fh_default C, data_payload = []\<rparr>"

definition data_of :: "'h \<Rightarrow> u8 list \<Rightarrow> 'h data" where
  [simp]: "data_of in_header in_payload = \<lparr>data_header = in_header, data_payload = in_payload\<rparr>"

section \<open>Frame archetypes\<close>

definition make_address_request :: "'h canary_header \<Rightarrow> address_t \<Rightarrow> 'h frame" where
  "make_address_request C PS =
     frame_of (fh_of_parts C 6 False PF_REQUEST PS J1939_IDLE_ADDR 3) [0x00, 0xEE, 0x00, 0, 0, 0, 0, 0]"

definition make_address_request_all :: "'h canary_header \<Rightarrow> 'h frame" where
  "make_address_request_all C = make_address_request C J1939_NO_ADDR"

definition make_address_claim :: "'h canary_header \<Rightarrow> name \<Rightarrow> address_t \<Rightarrow> 'h frame" where
  "make_address_claim C name address =
     frame_of (fh_of_parts C 6 False PF_ADDRESS_CLAIM J1939_NO_ADDR address 8) (name_to_payload name)"

definition make_cannot_claim :: "'h canary_header \<Rightarrow> name \<Rightarrow> 'h frame" where
  "make_cannot_claim C name =
     frame_of (fh_of_parts C 6 False PF_ADDRESS_CLAIM J1939_NO_ADDR J1939_IDLE_ADDR 8) (name_to_payload name)"

section \<open>Well-formed frames\<close>

definition frame_wf :: "'h canary_header \<Rightarrow> 'h frame \<Rightarrow> bool" where
  "frame_wf C fr \<longleftrightarrow> fh_wf C (header fr) \<and> length (payload fr) = 8"

text \<open>A frame for the bus, whose header also gives a number of bytes that it has.\<close>

definition can_frame :: "'h canary_header \<Rightarrow> 'h frame \<Rightarrow> bool" where
  "can_frame C fr \<longleftrightarrow> frame_wf C fr \<and> fh_payload_length C (header fr) \<le> 8"

context canary_frame_header
begin

lemma of_parts_fields:
  "fh_priority C (fh_of_parts C p dp pf ps sa l) = min p 7"
  "fh_data_page C (fh_of_parts C p dp pf ps sa l) = of_bool dp"
  "fh_pdu_format C (fh_of_parts C p dp pf ps sa l) = pf"
  "fh_pdu_specific C (fh_of_parts C p dp pf ps sa l) = ps"
  "fh_source_address C (fh_of_parts C p dp pf ps sa l) = sa"
  "\<not> bit (fh_id C (fh_of_parts C p dp pf ps sa l)) 25"
  using get_of_parts [of Priority] get_of_parts [of Data_page] get_of_parts [of Pdu_format]
    get_of_parts [of Pdu_specific] get_of_parts [of Source_address]
  by (simp_all add: bit_of_parts)

lemma of_parts_length: "l \<le> 8 \<Longrightarrow> fh_payload_length C (fh_of_parts C p dp pf ps sa l) = l"
  by (simp add: fh_of_parts_def fh_of_pgn_def length_of_id unat_of_nat take_bit_nat_eq_self)

lemma of_parts_wf [simp]: "fh_wf C (fh_of_parts C p dp pf ps sa l)"
  by (simp add: fh_of_parts_def fh_of_pgn_def)

lemma claim_frame:
  "frame_wf C (make_address_claim C n a)" "fh_is_claim C (header (make_address_claim C n a))"
  "fh_source_address C (header (make_address_claim C n a)) = a"
  "name_of_payload (payload (make_address_claim C n a)) = n"
  by (simp_all add: make_address_claim_def frame_wf_def fh_is_claim_iff of_parts_fields)

lemma request_frame:
  "frame_wf C (make_address_request C ps)" "fh_is_request C (header (make_address_request C ps))"
  "\<not> fh_is_claim C (header (make_address_request C ps))"
  "fh_pdu_specific C (header (make_address_request C ps)) = ps"
  by (simp_all add: make_address_request_def frame_wf_def fh_is_claim_iff fh_is_request_iff
      of_parts_fields j1939_consts)

lemma address_can_frames [simp]: "can_frame C (make_address_claim C n a)" "can_frame C (make_address_request C ps)"
  using claim_frame(1) request_frame(1)
  by (simp_all add: can_frame_def make_address_claim_def make_address_request_def of_parts_length)

lemma cannot_claim_is_idle_claim: "make_cannot_claim C n = make_address_claim C n J1939_IDLE_ADDR"
  by (simp add: make_cannot_claim_def make_address_claim_def)

end

section \<open>Frames as text\<close>

text \<open>
  \<^verbatim>\<open>to_string\<close> of frames and data objects: the identifier and the bytes in hexadecimal, as a stream
  with \<^verbatim>\<open>std::hex\<close> writes them.
\<close>

definition hex_digit :: "nat \<Rightarrow> char" where
  "hex_digit n = ''0123456789abcdef'' ! n"

fun to_hex :: "nat \<Rightarrow> string" where
  "to_hex n = (if n < 16 then [hex_digit n] else to_hex (n div 16) @ [hex_digit (n mod 16)])"

declare to_hex.simps [simp del]

definition bytes_to_string :: "u8 list \<Rightarrow> string" where
  "bytes_to_string bs = concat (map (\<lambda>b. to_hex (unat b) @ [CHR 0x27]) bs)"

definition frame_to_string :: "'h canary_header \<Rightarrow> 'h frame \<Rightarrow> string" where
  "frame_to_string C fr = to_hex (unat (fh_id C (header fr))) @ '':'' @ bytes_to_string (payload fr)"

definition data_to_string :: "'h canary_header \<Rightarrow> 'h data \<Rightarrow> string" where
  "data_to_string C d = to_hex (unat (fh_id C (data_header d))) @ '':'' @ bytes_to_string (data_payload d)"

lemma hex_digits: "n < 16 \<Longrightarrow> hex_digit n \<in> set ''0123456789abcdef''"
  unfolding hex_digit_def by (rule nth_mem) simp

lemma hex_digit_eq: "m < 16 \<Longrightarrow> n < 16 \<Longrightarrow> hex_digit m = hex_digit n \<longleftrightarrow> m = n"
  unfolding hex_digit_def by (subst nth_eq_iff_index_eq) simp_all

lemma set_to_hex: "set (to_hex n) \<subseteq> set ''0123456789abcdef''"
proof (induction n rule: to_hex.induct)
  case (1 n)
  then show ?case using hex_digits [of n] hex_digits [of "n mod 16"] by (subst to_hex.simps) auto
qed

lemma to_hex_nonempty [simp]: "to_hex n \<noteq> []" "[] \<noteq> to_hex n"
  by (subst to_hex.simps, simp)+

lemma to_hex_inj: "to_hex m = to_hex n \<Longrightarrow> m = n"
proof (induction m arbitrary: n rule: to_hex.induct)
  case (1 m)
  have e: "(if m < 16 then [hex_digit m] else to_hex (m div 16) @ [hex_digit (m mod 16)]) =
      (if n < 16 then [hex_digit n] else to_hex (n div 16) @ [hex_digit (n mod 16)])"
    unfolding to_hex.simps [of m, symmetric] to_hex.simps [of n, symmetric] by (rule "1.prems")
  consider "m < 16" "n < 16" | "m < 16" "\<not> n < 16" | "\<not> m < 16" "n < 16" | "\<not> m < 16" "\<not> n < 16" by blast
  then show ?case
  proof cases
    case 1
    then show ?thesis using e hex_digit_eq [of m n] by simp
  next
    case 4
    have f: "to_hex (m div 16) = to_hex (n div 16)" "hex_digit (m mod 16) = hex_digit (n mod 16)"
      using e unfolding if_not_P [OF 4(1)] if_not_P [OF 4(2)] by simp_all
    have "m div 16 = n div 16" by (rule "1.IH" [OF 4(1) f(1)])
    moreover have "m mod 16 = n mod 16" using f(2) hex_digit_eq [of "m mod 16" "n mod 16"] by simp
    ultimately show ?thesis by (metis div_mult_mod_eq)
  qed (use e in simp_all)
qed

lemma to_hex_stop:
  assumes "to_hex m @ c # xs = to_hex n @ c # ys" and "c \<notin> set ''0123456789abcdef''"
  shows "m = n \<and> xs = ys"
proof -
  have "\<forall>x \<in> set (to_hex k). x \<noteq> c" for k using set_to_hex [of k] assms(2) by blast
  then have t: "takeWhile (\<lambda>x. x \<noteq> c) (to_hex k @ c # zs) = to_hex k" for k zs
    by (simp add: takeWhile_append2)
  have "m = n"
    by (rule to_hex_inj) (use t [of m xs] t [of n ys] assms(1) in argo)
  then show ?thesis using assms(1) by simp
qed

lemma bytes_to_string_inj: "bytes_to_string xs = bytes_to_string ys \<Longrightarrow> xs = ys"
proof (induction xs arbitrary: ys)
  case Nil
  then show ?case by (cases ys) (simp_all add: bytes_to_string_def)
next
  case (Cons x xs)
  then obtain y zs where y: "ys = y # zs" by (cases ys) (simp_all add: bytes_to_string_def)
  have "unat x = unat y \<and> bytes_to_string xs = bytes_to_string zs"
    using Cons.prems by (intro to_hex_stop [of _ "CHR 0x27"]) (simp add: y bytes_to_string_def, simp)
  then show ?case using Cons.IH y by (simp add: word_unat_eq_iff)
qed

lemma text_inj:
  "to_hex m @ '':'' @ bytes_to_string xs = to_hex n @ '':'' @ bytes_to_string ys \<longleftrightarrow> m = n \<and> xs = ys"
  using to_hex_stop [of m "CHR '':''" "bytes_to_string xs" n "bytes_to_string ys"] bytes_to_string_inj [of xs ys]
  by auto

text \<open>
  The text of a frame determines its identifier and its payload, and so does the text of a data object.
\<close>

theorem to_string_inj:
  "(frame_to_string C fr = frame_to_string C fr' \<longleftrightarrow>
     fh_id C (header fr) = fh_id C (header fr') \<and> payload fr = payload fr')
   \<and> (data_to_string C d = data_to_string C d' \<longleftrightarrow>
     fh_id C (data_header d) = fh_id C (data_header d') \<and> data_payload d = data_payload d')"
  unfolding frame_to_string_def data_to_string_def text_inj by (simp add: word_unat_eq_iff)

section \<open>Properties\<close>

text \<open>
  C33. The frames of the address protocol say what they were made for. A receiver recognises
  a claim, reads the claimed address from its source address and the claimant's name from its
  payload; a cannot-claim message is a claim of the idle address; a request is recognised as
  one, is no claim, and carries the requested destination.
\<close>

theorem address_frames_decode:
  assumes "canary_frame_header C"
  shows "fh_is_claim C (header (make_address_claim C n a))
    \<and> fh_source_address C (header (make_address_claim C n a)) = a
    \<and> name_of_payload (payload (make_address_claim C n a)) = n
    \<and> fh_payload_length C (header (make_address_claim C n a)) = 8
    \<and> make_cannot_claim C n = make_address_claim C n J1939_IDLE_ADDR
    \<and> fh_is_request C (header (make_address_request C ps))
    \<and> \<not> fh_is_claim C (header (make_address_request C ps))
    \<and> fh_pdu_specific C (header (make_address_request C ps)) = ps"
  using canary_frame_header.claim_frame [OF assms, of n a]
    canary_frame_header.request_frame [OF assms, of ps]
    canary_frame_header.cannot_claim_is_idle_claim [OF assms, of n]
    canary_frame_header.of_parts_length [OF assms, of 8]
  by (simp add: make_address_claim_def)

theorem address_frames_decode_witness:
  "name_of_payload (payload (make_address_claim can_header_ops (Name 0xa00c81045a20021b) 0x10))
     = Name 0xa00c81045a20021b"
  using address_frames_decode [OF can.canary_frame_header_axioms] by blast

end
