(* ===== verification/Jay_Transport.thy ===== *)
theory Jay_Transport
  imports Jay_Frame
begin

unbundle bit_operations_syntax

text \<open>
  The classes of \<^verbatim>\<open>src/include/jay/transport_protocol.hpp\<close>: messages longer than a frame, sent as a
  broadcast (BAM) or after a handshake with the receiver (RTS/CTS), in packets of seven bytes.

  The bus is an interface, and the steady clock is read through it. The bus and the two callbacks act
  on one state, that of their surroundings, in the order of the calls. Reads and writes outside a
  buffer and a division by zero are undefined behaviour in the source; they are error values here.
\<close>

section \<open>State\<close>

text \<open>
  \<^verbatim>\<open>jay::bus\<close>: the operations of a bus over a state of any type, with the clock in milliseconds.
\<close>

record ('h, 'b) bus =
  bus_send :: "'h frame \<Rightarrow> 'b \<Rightarrow> bool \<times> 'b"
  bus_source_address :: "'b \<Rightarrow> address_t"
  bus_now :: "'b \<Rightarrow> int"

text \<open>The implementation of the base class: every frame is taken, and there is no address.\<close>

definition bus_default :: "('b \<Rightarrow> int) \<Rightarrow> ('h, 'b) bus" where
  [tp_defs]: "bus_default clock = \<lparr>bus_send = (\<lambda>fr b. (True, b)), bus_source_address = (\<lambda>b. 0xFF),
     bus_now = clock\<rparr>"

definition T1 :: int where [tp_defs]: "T1 = 750"

definition T2 :: int where [tp_defs]: "T2 = 1250"

definition T3 :: int where [tp_defs]: "T3 = 1250"

definition Tr :: int where [tp_defs]: "Tr = 200"

definition SessionCleanTimeout :: int where [tp_defs]: "SessionCleanTimeout = 10 * 60 * 1000"

datatype Control = RTS | CTS | EOM | BAM | ABORT

fun to_byte :: "Control \<Rightarrow> u8" where
  "to_byte RTS = 0x10"
| "to_byte CTS = 0x11"
| "to_byte EOM = 0x13"
| "to_byte BAM = 0x20"
| "to_byte ABORT = 0xFF"

datatype AbortCode = AlreadyInSession | ResourcesBusy | Timeout | CtsWhileDT | MaxRetransmit
  | UnexpectedPacket | BadSequence | DuplicateSeq | LengthExceeded | Unspecified

fun abort_byte :: "AbortCode \<Rightarrow> u8" where
  "abort_byte AlreadyInSession = 1"
| "abort_byte ResourcesBusy = 2"
| "abort_byte Timeout = 3"
| "abort_byte CtsWhileDT = 4"
| "abort_byte MaxRetransmit = 5"
| "abort_byte UnexpectedPacket = 6"
| "abort_byte BadSequence = 7"
| "abort_byte DuplicateSeq = 8"
| "abort_byte LengthExceeded = 9"
| "abort_byte Unspecified = 250"

definition abort_to_string :: "u8 \<Rightarrow> string" where
  "abort_to_string code =
     (if code = abort_byte AlreadyInSession then ''already in session''
      else if code = abort_byte ResourcesBusy then ''resources busy''
      else if code = abort_byte Timeout then ''timeout''
      else if code = abort_byte CtsWhileDT then ''cts during dt''
      else if code = abort_byte MaxRetransmit then ''retransmit limit''
      else if code = abort_byte UnexpectedPacket then ''unexpected packet''
      else if code = abort_byte BadSequence then ''bad sequence''
      else if code = abort_byte DuplicateSeq then ''duplicate seq''
      else if code = abort_byte LengthExceeded then ''length exceeded''
      else ''unspecified'')"

datatype Direction = Tx | Rx

datatype State = InProgress | Completed | ABorted

record TpSession =
  dir :: Direction
  buffer :: "u8 list"
  total_packets :: u8
  next_seq :: u8
  len :: u16
  window_size :: u8
  dest_sa :: address_t
  src_sa :: address_t
  s_pgn :: pgn_t
  bam :: bool
  last_activity :: int
  state :: State

definition session_default :: TpSession where
  [tp_defs]: "session_default = \<lparr>dir = Tx, buffer = [], total_packets = 0, next_seq = 1, len = 0,
     window_size = 0xFF, dest_sa = 0, src_sa = 0, s_pgn = 0, bam = False, last_activity = 0,
     state = InProgress\<rparr>"

datatype tp_error = Message_size | Io_error | Timed_out | Aborted | Fault

datatype ub = Out_of_bounds_read | Out_of_bounds_write | Division_by_zero

type_synonym Key = "address_t \<times> address_t"

text \<open>
  A callback is a function on the surroundings, or it is empty. The timer waits with a period, or it is
  idle.
\<close>

type_synonym ('h, 'b) on_data = "'h data \<Rightarrow> 'b \<Rightarrow> 'b"

type_synonym 'b on_error = "string \<Rightarrow> tp_error \<Rightarrow> 'b \<Rightarrow> 'b"

record ('h, 'b) tp =
  tp_bus :: 'b
  rx_callback :: "('h, 'b) on_data option"
  error_callback :: "'b on_error option"
  sessions :: "(Key, TpSession) umap"
  tick_timer :: "int option"

definition tp_new :: "'b \<Rightarrow> ('h, 'b) tp" where
  [tp_defs]: "tp_new b = \<lparr>tp_bus = b, rx_callback = None, error_callback = None, sessions = [],
     tick_timer = None\<rparr>"

definition set_error_handler :: "'b on_error option \<Rightarrow> ('h, 'b) tp \<Rightarrow> ('h, 'b) tp" where
  [tp_defs]: "set_error_handler cb t = t\<lparr>error_callback := cb\<rparr>"

definition set_rx_handler :: "('h, 'b) on_data option \<Rightarrow> ('h, 'b) tp \<Rightarrow> ('h, 'b) tp" where
  [tp_defs]: "set_rx_handler cb t = t\<lparr>rx_callback := cb\<rparr>"

definition report_error :: "string \<Rightarrow> tp_error \<Rightarrow> ('h, 'b) tp \<Rightarrow> ('h, 'b) tp" where
  "report_error what ec t =
     (case error_callback t of None \<Rightarrow> t | Some f \<Rightarrow> t\<lparr>tp_bus := f what ec (tp_bus t)\<rparr>)"

definition make_key :: "address_t \<Rightarrow> address_t \<Rightarrow> Key" where
  [tp_defs]: "make_key src dst = (src, dst)"

text \<open>Sending a frame and reading the clock.\<close>

definition tp_send :: "('h, 'b) bus \<Rightarrow> 'h frame \<Rightarrow> ('h, 'b) tp \<Rightarrow> bool \<times> ('h, 'b) tp" where
  "tp_send B fr t = (let (ok, b) = bus_send B fr (tp_bus t) in (ok, t\<lparr>tp_bus := b\<rparr>))"

definition tp_now :: "('h, 'b) bus \<Rightarrow> ('h, 'b) tp \<Rightarrow> int" where
  "tp_now B t = bus_now B (tp_bus t)"

definition tp_source_address :: "('h, 'b) bus \<Rightarrow> ('h, 'b) tp \<Rightarrow> address_t" where
  "tp_source_address B t = bus_source_address B (tp_bus t)"

section \<open>Frames\<close>

definition make_base_frame :: "'h canary_header \<Rightarrow> pgn_t \<Rightarrow> address_t \<Rightarrow> address_t \<Rightarrow> 'h frame" where
  "make_base_frame C pgn dst src =
     (let h = header (frame_default C);
          h = fh_set_pgn C pgn h;
          h = fh_set_pdu_specific C dst h;
          h = fh_set_source_address C src h;
          h = fh_set_payload_length C 8 h
      in \<lparr>header = h, payload = replicate 8 0\<rparr>)"

definition make_cm_frame :: "'h canary_header \<Rightarrow> Control \<Rightarrow> address_t \<Rightarrow> address_t \<Rightarrow> 'h frame" where
  "make_cm_frame C ctrl dst src =
     (let fr = make_base_frame C PGN_TP_CM dst src
      in fr\<lparr>payload := (payload fr)[0 := to_byte ctrl]\<rparr>)"

definition make_dt_frame :: "'h canary_header \<Rightarrow> TpSession \<Rightarrow> 'h frame" where
  "make_dt_frame C s = make_base_frame C PGN_TP_DT (dest_sa s) (src_sa s)"

definition get_payload_pgn :: "'h frame \<Rightarrow> pgn_t" where
  "get_payload_pgn fr =
     ucast (payload fr ! 5) OR push_bit 8 (ucast (payload fr ! 6)) OR push_bit 16 (ucast (payload fr ! 7))"

definition fill_tp_payload :: "TpSession \<Rightarrow> 'h frame \<Rightarrow> 'h frame" where
  "fill_tp_payload s fr = fr\<lparr>payload := (payload fr)
     [1 := ucast (len s AND 0xFF),
      2 := ucast (drop_bit 8 (len s)),
      3 := total_packets s,
      4 := window_size s,
      5 := ucast (s_pgn s AND 0xFF),
      6 := ucast (drop_bit 8 (s_pgn s) AND 0xFF),
      7 := ucast (drop_bit 16 (s_pgn s) AND 0xFF)]\<rparr>"

definition dummy_abort_session :: "'h canary_header \<Rightarrow> ('h, 'b) bus \<Rightarrow> 'h frame \<Rightarrow> Direction \<Rightarrow>
    ('h, 'b) tp \<Rightarrow> TpSession" where
  "dummy_abort_session C B fr direction t =
     (let dummy = session_default\<lparr>dir := direction\<rparr>;
          dummy = (if direction = Tx
            then dummy\<lparr>dest_sa := fh_source_address C (header fr), src_sa := tp_source_address B t\<rparr>
            else dummy\<lparr>dest_sa := tp_source_address B t, src_sa := fh_source_address C (header fr)\<rparr>)
      in dummy\<lparr>s_pgn := get_payload_pgn fr, len := 0, total_packets := 0, window_size := 0\<rparr>)"

section \<open>Buffers\<close>

text \<open>
  \<^verbatim>\<open>std::size_t offset = (seq - 1) * 7\<close> and the number of bytes left in the buffer, both with
  64-bit unsigned arithmetic, and \<^verbatim>\<open>std::copy_n\<close> from and to a buffer.
\<close>

definition packet_offset :: "u8 \<Rightarrow> nat" where
  "packet_offset seq = nat ((int (unat seq) - 1) * 7 mod 2 ^ 64)"

definition packet_avail :: "nat \<Rightarrow> nat \<Rightarrow> nat" where
  "packet_avail sz offset = min 7 (nat ((int sz - int offset) mod 2 ^ 64))"

definition read_bytes :: "nat \<Rightarrow> nat \<Rightarrow> u8 list \<Rightarrow> ub + u8 list" where
  "read_bytes offset n xs =
     (if offset + n \<le> length xs then Inr (take n (drop offset xs)) else Inl Out_of_bounds_read)"

definition write_bytes :: "nat \<Rightarrow> u8 list \<Rightarrow> u8 list \<Rightarrow> ub + u8 list" where
  "write_bytes offset ys xs =
     (if offset + length ys \<le> length xs
      then Inr (take offset xs @ ys @ drop (offset + length ys) xs) else Inl Out_of_bounds_write)"

section \<open>Sending\<close>

definition send_eom_ack :: "'h canary_header \<Rightarrow> ('h, 'b) bus \<Rightarrow> TpSession \<Rightarrow> ('h, 'b) tp \<Rightarrow>
    bool \<times> ('h, 'b) tp" where
  "send_eom_ack C B s t =
     (if bam s then (True, t)
      else
        (let fr = fill_tp_payload s (make_cm_frame C EOM (src_sa s) (dest_sa s));
             fr = fr\<lparr>payload := (payload fr)[4 := 0xFF]\<rparr>;
             (ok, t) = tp_send B fr t
         in if \<not> ok then (False, report_error ''tp send EOM'' Io_error t) else (True, t)))"

definition send_abort :: "'h canary_header \<Rightarrow> ('h, 'b) bus \<Rightarrow> TpSession \<Rightarrow> AbortCode \<Rightarrow>
    ('h, 'b) tp \<Rightarrow> bool \<times> ('h, 'b) tp" where
  "send_abort C B s code t =
     (let fr = fill_tp_payload s (make_cm_frame C ABORT (src_sa s) (dest_sa s));
          fr = fr\<lparr>payload := (payload fr)[1 := abort_byte code, 2 := 0, 3 := 0, 4 := 0]\<rparr>
      in tp_send B fr t)"

text \<open>
  The loop of \<^verbatim>\<open>send_data_packets\<close>, by recursion on the counter; its flag is false when a packet could
  not be sent.
\<close>

definition data_packet :: "'h canary_header \<Rightarrow> TpSession \<Rightarrow> ub + 'h frame" where
  "data_packet C s =
     (let fr = make_dt_frame C s;
          fr = fr\<lparr>payload := (payload fr)[0 := next_seq s]\<rparr>;
          offset = packet_offset (next_seq s);
          avail = packet_avail (length (buffer s)) offset
      in case read_bytes offset avail (buffer s) of
           Inl u \<Rightarrow> Inl u
         | Inr bytes \<Rightarrow> (case write_bytes 1 bytes (payload fr) of
              Inl u \<Rightarrow> Inl u
            | Inr p \<Rightarrow> Inr (fr\<lparr>payload := p\<rparr>)))"

fun send_dt_loop :: "'h canary_header \<Rightarrow> ('h, 'b) bus \<Rightarrow> nat \<Rightarrow> TpSession \<Rightarrow> ('h, 'b) tp \<Rightarrow>
    ub + (bool \<times> TpSession \<times> ('h, 'b) tp)" where
  "send_dt_loop C B 0 s t = Inr (True, s, t)"
| "send_dt_loop C B (Suc count) s t =
     (if \<not> next_seq s \<le> total_packets s then Inr (True, s, t)
      else case data_packet C s of
          Inl u \<Rightarrow> Inl u
        | Inr fr \<Rightarrow>
            (let (ok, t) = tp_send B fr t
             in if \<not> ok then
                  Inr (False, s, snd (send_abort C B s ResourcesBusy (report_error ''tp send DT'' Io_error t)))
                else send_dt_loop C B count (s\<lparr>last_activity := tp_now B t, next_seq := next_seq s + 1\<rparr>) t))"

definition send_data_packets :: "'h canary_header \<Rightarrow> ('h, 'b) bus \<Rightarrow> TpSession \<Rightarrow> ('h, 'b) tp \<Rightarrow>
    ub + (bool \<times> TpSession \<times> ('h, 'b) tp)" where
  "send_data_packets C B s t =
     (case send_dt_loop C B (unat (window_size s)) s t of
        Inl u \<Rightarrow> Inl u
      | Inr (ok, s, t) \<Rightarrow>
          if \<not> ok then Inr (False, s, t)
          else if next_seq s > total_packets s
          then Inr (True, s\<lparr>state := Completed\<rparr>, snd (send_eom_ack C B s t))
          else Inr (False, s, t))"

definition send_bam_start :: "'h canary_header \<Rightarrow> ('h, 'b) bus \<Rightarrow> TpSession \<Rightarrow> ('h, 'b) tp \<Rightarrow>
    ub + (bool \<times> TpSession \<times> ('h, 'b) tp)" where
  "send_bam_start C B s t =
     (let fr = fill_tp_payload s (make_cm_frame C BAM J1939_NO_ADDR (src_sa s));
          (ok, t) = tp_send B fr t
      in if \<not> ok then
           Inr (False, s, snd (send_abort C B s ResourcesBusy (report_error ''tp send BAM'' Io_error t)))
         else send_data_packets C B (s\<lparr>last_activity := tp_now B t\<rparr>) t)"

definition send_rts :: "'h canary_header \<Rightarrow> ('h, 'b) bus \<Rightarrow> TpSession \<Rightarrow> ('h, 'b) tp \<Rightarrow>
    bool \<times> TpSession \<times> ('h, 'b) tp" where
  "send_rts C B s t =
     (let fr = fill_tp_payload s (make_cm_frame C RTS (dest_sa s) (src_sa s));
          (ok, t) = tp_send B fr t
      in if \<not> ok then
           (False, s, snd (send_abort C B s ResourcesBusy (report_error ''tp send RTS'' Io_error t)))
         else (True, s\<lparr>last_activity := tp_now B t\<rparr>, t))"

text \<open>The session is changed in place, in the map.\<close>

definition put_session :: "Key \<Rightarrow> TpSession \<Rightarrow> ('h, 'b) tp \<Rightarrow> ('h, 'b) tp" where
  "put_session key s t = t\<lparr>sessions := um_assign key s (sessions t)\<rparr>"

definition start_tx :: "'h canary_header \<Rightarrow> ('h, 'b) bus \<Rightarrow> u8 list \<Rightarrow> address_t \<Rightarrow> pgn_t \<Rightarrow>
    ('h, 'b) tp \<Rightarrow> ub + (bool \<times> ('h, 'b) tp)" where
  "start_tx C B data dest pgn t =
     (if length data \<le> 8 then Inr (False, t)
      else if length data > 1785 then Inr (False, report_error ''payload too large'' Message_size t)
      else
        (let use_bam = (dest = 0xFF);
             sess = session_default\<lparr>dir := Tx, buffer := data, len := word_of_nat (length data)\<rparr>;
             sess = sess\<lparr>total_packets := word_of_nat ((unat (len sess) + 6) div 7), dest_sa := dest,
               src_sa := tp_source_address B t, s_pgn := pgn, bam := use_bam, last_activity := tp_now B t\<rparr>;
             key = make_key (src_sa sess) (dest_sa sess);
             t = put_session key sess t
         in if use_bam then
              (case send_bam_start C B sess t of Inl u \<Rightarrow> Inl u
               | Inr (ok, sess, t) \<Rightarrow> Inr (ok, put_session key sess t))
            else
              (case send_rts C B sess t of (ok, sess, t) \<Rightarrow> Inr (ok, put_session key sess t))))"

definition transport_send :: "'h canary_header \<Rightarrow> ('h, 'b) bus \<Rightarrow> u8 list \<Rightarrow> address_t \<Rightarrow> pgn_t \<Rightarrow>
    ('h, 'b) tp \<Rightarrow> ub + (bool \<times> ('h, 'b) tp)" where
  "transport_send C B data dest pgn t = start_tx C B data dest pgn t"

section \<open>Receiving\<close>

definition response_cts :: "'h canary_header \<Rightarrow> ('h, 'b) bus \<Rightarrow> TpSession \<Rightarrow> ('h, 'b) tp \<Rightarrow> ('h, 'b) tp" where
  "response_cts C B s t =
     (let cts = fill_tp_payload s (make_cm_frame C CTS (src_sa s) (dest_sa s));
          cts = cts\<lparr>payload := (payload cts)[1 := window_size s, 2 := next_seq s, 3 := 0, 4 := 0]\<rparr>
      in snd (tp_send B cts t))"

definition payload_length16 :: "'h frame \<Rightarrow> u16" where
  "payload_length16 fr = ucast (payload fr ! 1) OR push_bit 8 (ucast (payload fr ! 2))"

definition start_rx_rts :: "'h canary_header \<Rightarrow> ('h, 'b) bus \<Rightarrow> 'h frame \<Rightarrow> ('h, 'b) tp \<Rightarrow> ('h, 'b) tp" where
  "start_rx_rts C B fr t =
     (if fh_pdu_specific C (header fr) \<noteq> tp_source_address B t then t
      else
        (let s = session_default\<lparr>dir := Rx, len := payload_length16 fr, total_packets := payload fr ! 3,
               window_size := payload fr ! 4,
               dest_sa := (if fh_is_broadcast C (header fr) then J1939_NO_ADDR else fh_pdu_specific C (header fr)),
               src_sa := fh_source_address C (header fr), s_pgn := get_payload_pgn fr,
               buffer := replicate (unat (payload_length16 fr)) 0, last_activity := tp_now B t, next_seq := 1\<rparr>
         in response_cts C B s (put_session (make_key (src_sa s) (dest_sa s)) s t)))"

definition handle_cts :: "'h canary_header \<Rightarrow> ('h, 'b) bus \<Rightarrow> 'h frame \<Rightarrow> ('h, 'b) tp \<Rightarrow> ub + ('h, 'b) tp" where
  "handle_cts C B fr t =
     (let key = make_key (tp_source_address B t) (fh_source_address C (header fr))
      in case um_find (sessions t) key of
           Some s \<Rightarrow>
             (let s = s\<lparr>window_size := payload fr ! 1, next_seq := payload fr ! 2\<rparr>
              in case send_data_packets C B s t of
                   Inl u \<Rightarrow> Inl u
                 | Inr (ok, s, t) \<Rightarrow> Inr (put_session key s t))
         | None \<Rightarrow>
             (let dummy = dummy_abort_session C B fr Tx t;
                  t = snd (send_abort C B dummy UnexpectedPacket t)
              in Inr (report_error ''cts without session'' Aborted t)))"

definition start_rx_bam :: "'h canary_header \<Rightarrow> ('h, 'b) bus \<Rightarrow> 'h frame \<Rightarrow> ('h, 'b) tp \<Rightarrow> ('h, 'b) tp" where
  "start_rx_bam C B fr t =
     (let s = session_default\<lparr>dir := Rx, bam := True, len := payload_length16 fr,
            total_packets := payload fr ! 3, dest_sa := 0xFF, src_sa := fh_source_address C (header fr),
            s_pgn := get_payload_pgn fr, buffer := replicate (unat (payload_length16 fr)) 0,
            last_activity := tp_now B t\<rparr>
      in put_session (make_key (src_sa s) (dest_sa s)) s t)"

text \<open>The delivery of a finished message.\<close>

definition deliver :: "'h canary_header \<Rightarrow> TpSession \<Rightarrow> ('h, 'b) tp \<Rightarrow> ('h, 'b) tp" where
  "deliver C s t =
     (case rx_callback t of
        None \<Rightarrow> t
      | Some f \<Rightarrow>
          (let hr = fh_set_source_address C (src_sa s) (fh_set_pgn C (s_pgn s) (fh_default C));
               hr = (if \<not> bam s then fh_set_pdu_specific C (dest_sa s) hr else hr);
               hr = fh_set_payload_length C (length (buffer s)) hr
           in t\<lparr>tp_bus := f \<lparr>data_header = hr, data_payload = buffer s\<rparr> (tp_bus t)\<rparr>))"

definition dt_reject :: "'h canary_header \<Rightarrow> ('h, 'b) bus \<Rightarrow> Key \<Rightarrow> TpSession \<Rightarrow> AbortCode \<Rightarrow> string \<Rightarrow>
    ('h, 'b) tp \<Rightarrow> ('h, 'b) tp" where
  "dt_reject C B key s code what t =
     (let s = s\<lparr>state := ABorted\<rparr>
      in report_error what Fault (snd (send_abort C B s code (put_session key s t))))"

definition handle_dt :: "'h canary_header \<Rightarrow> ('h, 'b) bus \<Rightarrow> 'h frame \<Rightarrow> ('h, 'b) tp \<Rightarrow> ub + ('h, 'b) tp" where
  "handle_dt C B fr t =
     (let key = make_key (fh_source_address C (header fr)) (fh_pdu_specific C (header fr))
      in case um_find (sessions t) key of
           None \<Rightarrow>
             (let dummy = dummy_abort_session C B fr Rx t;
                  t = snd (send_abort C B dummy UnexpectedPacket t)
              in Inr (report_error ''dt without session'' Aborted t))
         | Some session \<Rightarrow>
             (let seq = payload fr ! 0
              in if seq < 1 \<or> seq > total_packets session
                 then Inr (dt_reject C B key session BadSequence ''dt bad sequence'' t)
                 else if seq < next_seq session
                 then Inr (dt_reject C B key session DuplicateSeq ''dt duplicate sequence'' t)
                 else if seq \<noteq> next_seq session
                 then Inr (dt_reject C B key session BadSequence ''dt unexpected sequence'' t)
                 else
                   (let offset = packet_offset seq;
                        avail = packet_avail (length (buffer session)) offset
                    in case write_bytes offset (take avail (drop 1 (payload fr))) (buffer session) of
                         Inl u \<Rightarrow> Inl u
                       | Inr buf \<Rightarrow>
                           (let session = session\<lparr>buffer := buf, next_seq := seq + 1, last_activity := tp_now B t\<rparr>
                            in if seq = total_packets session then
                                 (let t = deliver C session t
                                  in if \<not> bam session
                                     then Inr (snd (send_eom_ack C B session (put_session key session t)))
                                     else Inr (put_session key (session\<lparr>state := Completed\<rparr>) t))
                               else if window_size session = 0 then Inl Division_by_zero
                               else if seq mod window_size session = 0 \<and> \<not> bam session
                               then Inr (response_cts C B session (put_session key session t))
                               else Inr (put_session key session t)))))"

definition handle_abort :: "'h canary_header \<Rightarrow> ('h, 'b) bus \<Rightarrow> 'h frame \<Rightarrow> ('h, 'b) tp \<Rightarrow> ('h, 'b) tp" where
  "handle_abort C B fr t =
     (let key = make_key (tp_source_address B t) (fh_source_address C (header fr))
      in case um_find (sessions t) key of
           Some s \<Rightarrow> report_error (''remote abort: '' @ abort_to_string (payload fr ! 1)) Aborted
             (put_session key (s\<lparr>state := ABorted\<rparr>) t)
         | None \<Rightarrow> t)"

definition complete_rx :: "'h canary_header \<Rightarrow> ('h, 'b) bus \<Rightarrow> 'h frame \<Rightarrow> ('h, 'b) tp \<Rightarrow> ('h, 'b) tp" where
  "complete_rx C B fr t =
     (let key = make_key (fh_source_address C (header fr)) (fh_pdu_specific C (header fr))
      in case um_find (sessions t) key of
           None \<Rightarrow>
             (let dummy = dummy_abort_session C B fr Rx t;
                  t = snd (send_abort C B dummy UnexpectedPacket t)
              in report_error ''eom without session'' Aborted t)
         | Some s \<Rightarrow> put_session key (s\<lparr>state := Completed\<rparr>) t)"

definition handle_cm :: "'h canary_header \<Rightarrow> ('h, 'b) bus \<Rightarrow> 'h frame \<Rightarrow> ('h, 'b) tp \<Rightarrow> ub + ('h, 'b) tp" where
  "handle_cm C B fr t =
     (let ctrl = payload fr ! 0
      in if ctrl = to_byte RTS then Inr (start_rx_rts C B fr t)
         else if ctrl = to_byte CTS then handle_cts C B fr t
         else if ctrl = to_byte BAM then Inr (start_rx_bam C B fr t)
         else if ctrl = to_byte EOM then Inr (complete_rx C B fr t)
         else if ctrl = to_byte ABORT then Inr (handle_abort C B fr t)
         else Inr t)"

definition on_can_frame :: "'h canary_header \<Rightarrow> ('h, 'b) bus \<Rightarrow> 'h frame \<Rightarrow> ('h, 'b) tp \<Rightarrow> ub + ('h, 'b) tp" where
  "on_can_frame C B fr t =
     (if fh_pgn C (header fr) = PGN_TP_CM then handle_cm C B fr t
      else if fh_pgn C (header fr) = PGN_TP_DT then handle_dt C B fr t
      else Inr t)"

section \<open>Timeouts\<close>

text \<open>
  The loop of \<^verbatim>\<open>tick\<close> over the sessions, in the order of the map: the sessions that stay, and the
  state after the aborts.
\<close>

fun tick_loop :: "'h canary_header \<Rightarrow> ('h, 'b) bus \<Rightarrow> int \<Rightarrow> (Key, TpSession) umap \<Rightarrow> ('h, 'b) tp \<Rightarrow>
    (Key, TpSession) umap \<times> ('h, 'b) tp" where
  "tick_loop C B now [] t = ([], t)"
| "tick_loop C B now ((key, s) # rest) t =
     (let timeout = (if dir s = Tx then T3 else T2)
      in if now - last_activity s > timeout then
           tick_loop C B now rest
             (report_error ''tp timeout'' Timed_out (snd (send_abort C B s Timeout t)))
         else if now - last_activity s > SessionCleanTimeout then tick_loop C B now rest t
         else (case tick_loop C B now rest t of (kept, t) \<Rightarrow> ((key, s) # kept, t)))"

definition tick :: "'h canary_header \<Rightarrow> ('h, 'b) bus \<Rightarrow> ('h, 'b) tp \<Rightarrow> ('h, 'b) tp" where
  "tick C B t =
     (let now = tp_now B t
      in case tick_loop C B now (sessions t) t of (kept, t) \<Rightarrow> t\<lparr>sessions := kept\<rparr>)"

text \<open>The timer, and the function that runs when the wait ends or is cancelled.\<close>

definition start_tick :: "int \<Rightarrow> ('h, 'b) tp \<Rightarrow> ('h, 'b) tp" where
  "start_tick period t = t\<lparr>tick_timer := Some period\<rparr>"

definition on_tick_timer :: "'h canary_header \<Rightarrow> ('h, 'b) bus \<Rightarrow> bool \<Rightarrow> ('h, 'b) tp \<Rightarrow> ('h, 'b) tp" where
  "on_tick_timer C B ec t =
     (case tick_timer t of
        None \<Rightarrow> t
      | Some period \<Rightarrow>
          (let t = t\<lparr>tick_timer := None\<rparr>
           in if \<not> ec then start_tick period (tick C B t) else t))"

section \<open>The frames on the bus\<close>

lemma tp_pgns: "PGN_TP_CM = push_bit 8 (ucast (0xEC :: u8))" "PGN_TP_DT = push_bit 8 (ucast (0xEB :: u8))"
  "PGN_TP_CM \<noteq> PGN_TP_DT" "PGN_TP_DT \<noteq> PGN_TP_CM"
  by (simp_all add: j1939_consts)

context canary_frame_header
begin

lemma bit_base_frame:
  assumes "n < 29"
  shows "bit (fh_id C (header (make_base_frame C p dst src))) n \<longleftrightarrow>
    (if n < 8 then bit src n else if n < 16 then bit dst (n - 8) else n < 26 \<and> bit p (n - 8))"
proof -
  let ?h = "fh_set_pgn C p (fh_default C)"
  have w: "fh_wf C ?h" "fh_wf C (fh_set_pdu_specific C dst ?h)"
    using wf_put [of Pdu_specific dst ?h] by simp_all
  have z: "\<not> bit (fh_id C (fh_default C)) n" by (simp add: fh_id_def id_new)
  show ?thesis
    using assms z bit_fh_put [OF w(2), of n Source_address src] bit_fh_put [OF w(1), of n Pdu_specific dst]
      bit_set_pgn [OF wf_default, of n p]
    by (auto simp: make_base_frame_def frame_default_def Let_def)
qed

lemma base_frame_addresses [simp]:
  "fh_pdu_specific C (header (make_base_frame C p dst src)) = dst"
  "fh_source_address C (header (make_base_frame C p dst src)) = src"
  by (rule bit_word_eqI; auto simp: bit_fh_fields bit_base_frame)+

lemma base_frame_pgn:
  assumes "p = push_bit 8 (ucast (k :: u8))" and "k \<le> PF_PDU1_MAX"
  shows "fh_pgn C (header (make_base_frame C p dst src)) = p"
    and "\<not> fh_is_broadcast C (header (make_base_frame C p dst src))"
proof -
  have f: "fh_pdu_format C (header (make_base_frame C p dst src)) = k"
    using assms(1)
    by (intro bit_word_eqI) (auto simp: bit_fh_fields bit_base_frame bit_simps)
  then show b: "\<not> fh_is_broadcast C (header (make_base_frame C p dst src))"
    using assms(2) by (simp add: fh_is_broadcast_def not_less)
  have p: "bit p n \<Longrightarrow> 8 \<le> n \<and> n < 16" for n
    using assms(1) bit_word_less [of k "n - 8"] by (auto simp: bit_simps)
  show "fh_pgn C (header (make_base_frame C p dst src)) = p"
  proof (rule bit_word_eqI)
    fix n
    show "bit (fh_pgn C (header (make_base_frame C p dst src))) n = bit p n"
      using b p [of n] by (auto simp: bit_fh_pgn bit_base_frame)
  qed
qed

lemma tp_frame_kinds [simp]:
  "fh_pgn C (header (make_base_frame C PGN_TP_CM dst src)) = PGN_TP_CM"
  "fh_pgn C (header (make_base_frame C PGN_TP_DT dst src)) = PGN_TP_DT"
  "\<not> fh_is_broadcast C (header (make_base_frame C PGN_TP_CM dst src))"
  using base_frame_pgn [OF tp_pgns(1), of dst src] base_frame_pgn [OF tp_pgns(2), of dst src]
  by (simp_all add: PF_PDU1_MAX_def)

end

text \<open>A control message, and what a receiver reads from it.\<close>

lemma base_payload [simp]: "payload (make_base_frame C p dst src) = replicate 8 0"
  by (simp add: make_base_frame_def Let_def)

lemma cm_header [simp]:
  "header (make_cm_frame C ctrl dst src) = header (make_base_frame C PGN_TP_CM dst src)"
  "header (fill_tp_payload s fr) = header fr"
  by (simp_all add: make_cm_frame_def fill_tp_payload_def Let_def)

lemma list8: "replicate 8 x = [x, x, x, x, x, x, x, x]"
  by (simp add: numeral_eq_Suc)

lemma cm_payload:
  "payload (fill_tp_payload s (make_cm_frame C ctrl dst src)) =
     [to_byte ctrl, ucast (len s AND 0xFF), ucast (drop_bit 8 (len s)), total_packets s, window_size s,
      ucast (s_pgn s AND 0xFF), ucast (drop_bit 8 (s_pgn s) AND 0xFF), ucast (drop_bit 16 (s_pgn s) AND 0xFF)]"
  by (simp add: fill_tp_payload_def make_cm_frame_def Let_def list8)

lemma mask_FF: "(0xFF :: 'a::len word) = mask 8"
  by (simp add: mask_eq_exp_minus_1)

lemma length16_roundtrip:
  "ucast (ucast (l AND 0xFF) :: u8) OR push_bit 8 (ucast (ucast (drop_bit 8 l) :: u8)) = (l :: u16)"
  unfolding mask_FF by (rule bit_word_eqI) (auto simp: bit_simps)

lemma pgn24_roundtrip:
  "ucast (ucast (p AND 0xFF) :: u8) OR push_bit 8 (ucast (ucast (drop_bit 8 p AND 0xFF) :: u8))
     OR push_bit 16 (ucast (ucast (drop_bit 16 p AND 0xFF) :: u8)) = take_bit 24 (p :: u32)"
  (is "?l = _")
proof (rule bit_word_eqI)
  fix n :: nat
  have "n < 8 \<or> 8 \<le> n \<and> n < 16 \<or> 16 \<le> n \<and> n < 24 \<or> 24 \<le> n" by linarith
  then show "bit ?l n = bit (take_bit 24 p) n"
    unfolding mask_FF by (elim disjE conjE) (auto simp: bit_simps dest: bit_word_less)
qed

lemma cm_decode:
  "payload_length16 (fill_tp_payload s (make_cm_frame C ctrl dst src)) = len s"
  "get_payload_pgn (fill_tp_payload s (make_cm_frame C ctrl dst src)) = take_bit 24 (s_pgn s)"
  "payload (fill_tp_payload s (make_cm_frame C ctrl dst src)) ! 0 = to_byte ctrl"
  "payload (fill_tp_payload s (make_cm_frame C ctrl dst src)) ! 3 = total_packets s"
  "payload (fill_tp_payload s (make_cm_frame C ctrl dst src)) ! 4 = window_size s"
  by (simp_all add: payload_length16_def get_payload_pgn_def cm_payload length16_roundtrip pgn24_roundtrip)

section \<open>Packets\<close>

lemma unat_seq: "i < 255 \<Longrightarrow> unat (word_of_nat (Suc i) :: u8) = Suc i"
  by (simp add: unat_of_nat del: of_nat_Suc)

lemma packet_offset_Suc:
  "i < 255 \<Longrightarrow> packet_offset (word_of_nat (Suc i)) = 7 * i"
  unfolding packet_offset_def unat_seq by simp

lemma packet_avail_le:
  "offset \<le> sz \<Longrightarrow> sz < 2 ^ 32 \<Longrightarrow> packet_avail sz offset = min 7 (sz - offset)"
  by (simp add: packet_avail_def of_nat_diff [symmetric] del: of_nat_diff)

text \<open>The packet with the \<open>i\<close>-th seven bytes of a message, filled up with zeros.\<close>

definition segment :: "u8 list \<Rightarrow> nat \<Rightarrow> u8 list" where
  "segment xs i = (let c = take 7 (drop (7 * i) xs) in c @ replicate (7 - length c) 0)"

definition dt_packet :: "'h canary_header \<Rightarrow> address_t \<Rightarrow> address_t \<Rightarrow> u8 list \<Rightarrow> nat \<Rightarrow> 'h frame" where
  "dt_packet C dst src xs i = \<lparr>header = header (make_base_frame C PGN_TP_DT dst src),
     payload = word_of_nat (Suc i) # segment xs i\<rparr>"

definition packets_of :: "u8 list \<Rightarrow> nat" where
  "packets_of xs = (length xs + 6) div 7"

lemma packets_of_bounds:
  "i < packets_of xs \<longleftrightarrow> 7 * i < length xs"
  "length xs \<le> 1785 \<Longrightarrow> packets_of xs \<le> 255"
  "length xs \<le> 1778 \<Longrightarrow> packets_of xs \<le> 254"
  unfolding packets_of_def by linarith+

lemma frame_upd: "fr\<lparr>payload := x, payload := p\<rparr> = \<lparr>header = header fr, payload = p\<rparr>"
  by (cases fr) simp

lemma data_packet_eq:
  assumes "next_seq s = word_of_nat (Suc i)" and "7 * i < length (buffer s)" and "length (buffer s) \<le> 1785"
  shows "data_packet C s = Inr (dt_packet C (dest_sa s) (src_sa s) (buffer s) i)"
proof -
  have i: "i < 255" using assms(2,3) by linarith
  let ?c = "take 7 (drop (7 * i) (buffer s))"
  have a: "packet_avail (length (buffer s)) (7 * i) = min 7 (length (buffer s) - 7 * i)"
    using assms(2,3) by (intro packet_avail_le) simp_all
  have r: "read_bytes (7 * i) (min 7 (length (buffer s) - 7 * i)) (buffer s) = Inr ?c"
    using assms(2) by (auto simp: read_bytes_def min_def)
  have w: "write_bytes (Suc 0) ?c ((replicate 8 0)[0 := x]) = Inr (x # ?c @ replicate (7 - length ?c) 0)" for x
    by (auto simp: write_bytes_def list8 numeral_eq_Suc min_def Suc_diff_le take_Cons' drop_Cons')
  show ?thesis
    unfolding data_packet_def make_dt_frame_def Let_def base_payload assms(1) packet_offset_Suc [OF i] a r
    by (simp add: w dt_packet_def segment_def Let_def assms(1) frame_upd del: of_nat_Suc)
qed

end
