(* ===== verification/Jay_Transfer.thy ===== *)
theory Jay_Transfer
  imports Jay_Transport
begin

unbundle bit_operations_syntax

text \<open>
  The transfer of whole messages with the transport protocol: what a sender puts on a bus that takes
  every frame, what a receiver makes of it, and both together. The effect on the surroundings is given
  exactly: the frames that are sent and the calls of the callbacks, in their order.
\<close>

section \<open>A bus that takes every frame\<close>

text \<open>
  The contract of a bus on which sending succeeds: while it is up, it takes every frame, it stays up, and
  its local address stays the same.
\<close>

locale reliable_bus =
  fixes B :: "('h, 'b) bus" and up :: "'b \<Rightarrow> bool" and me :: address_t
  assumes send_ok: "up b \<Longrightarrow> fst (bus_send B fr b)"
    and send_up: "up b \<Longrightarrow> up (snd (bus_send B fr b))"
    and send_me: "up b \<Longrightarrow> bus_source_address B b = me"

text \<open>The surroundings after frames were sent on the bus, one after the other.\<close>

definition bus_sends :: "('h, 'b) bus \<Rightarrow> 'h frame list \<Rightarrow> 'b \<Rightarrow> 'b" where
  "bus_sends B frs b = fold (\<lambda>fr b. snd (bus_send B fr b)) frs b"

lemma bus_sends_simps [simp]:
  "bus_sends B [] b = b" "bus_sends B (fr # frs) b = bus_sends B frs (snd (bus_send B fr b))"
  "bus_sends B (frs @ frs') b = bus_sends B frs' (bus_sends B frs b)"
  by (simp_all add: bus_sends_def)

lemma tp_send_eq: "tp_send B fr t = (fst (bus_send B fr (tp_bus t)), t\<lparr>tp_bus := snd (bus_send B fr (tp_bus t))\<rparr>)"
  by (simp add: tp_send_def split_beta Let_def)

lemma put_session_simps [simp]:
  "rx_callback (put_session k s t) = rx_callback t" "error_callback (put_session k s t) = error_callback t"
  "tp_bus (put_session k s t) = tp_bus t" "tick_timer (put_session k s t) = tick_timer t"
  "um_find (sessions (put_session k s t)) = (um_find (sessions t))(k \<mapsto> s)"
  "tp_source_address B (put_session k s t) = tp_source_address B t"
  by (simp_all add: put_session_def tp_source_address_def)

lemma put_session_bus: "(put_session k s t)\<lparr>tp_bus := b\<rparr> = put_session k s (t\<lparr>tp_bus := b\<rparr>)"
  by (simp add: put_session_def)

context reliable_bus
begin

lemma sends_up: "up b \<Longrightarrow> up (bus_sends B frs b)"
  by (induction frs arbitrary: b) (simp_all add: send_up)

lemma tp_send_ok: "up (tp_bus t) \<Longrightarrow> tp_send B fr t = (True, t\<lparr>tp_bus := bus_sends B [fr] (tp_bus t)\<rparr>)"
  by (simp add: tp_send_eq send_ok)

lemma tp_me [simp]: "up (tp_bus t) \<Longrightarrow> tp_source_address B t = me"
  by (simp add: tp_source_address_def send_me)

text \<open>
  The loop sends the next \<open>c\<close> packets; it stops by itself after the last one, unless the sequence
  number wraps around there.
\<close>

lemma send_dt_loop_sends:
  assumes "next_seq s = word_of_nat (Suc k)" and "k + c \<le> packets_of (buffer s)"
    and "length (buffer s) \<le> 1785" and "unat (total_packets s) = packets_of (buffer s)"
    and "e = 0 \<or> k + c = packets_of (buffer s) \<and> packets_of (buffer s) \<le> 254"
    and "up (tp_bus t)"
  shows "\<exists>la. send_dt_loop C B (c + e) s t =
      Inr (True, s\<lparr>next_seq := word_of_nat (Suc (k + c)), last_activity := la\<rparr>,
        t\<lparr>tp_bus := bus_sends B (map (dt_packet C (dest_sa s) (src_sa s) (buffer s)) [k..<k + c]) (tp_bus t)\<rparr>)"
  using assms
proof (induction c arbitrary: s t k)
  case 0
  have "send_dt_loop C B e s t = Inr (True, s, t)"
  proof (cases e)
    case (Suc e')
    then have "k = packets_of (buffer s)" "k \<le> 254" using 0 by auto
    then have "\<not> next_seq s \<le> total_packets s"
      using 0 unat_seq [of k] by (simp add: word_le_nat_alt)
    then show ?thesis using Suc by simp
  qed simp
  moreover have "s = s\<lparr>next_seq := word_of_nat (Suc k), last_activity := last_activity s\<rparr>"
    using 0(1) by simp
  ultimately show ?case
    by (intro exI [of _ "last_activity s"]) simp
next
  case (Suc c)
  let ?p = "dt_packet C (dest_sa s) (src_sa s) (buffer s) k"
  let ?t = "t\<lparr>tp_bus := bus_sends B [?p] (tp_bus t)\<rparr>"
  let ?s = "s\<lparr>last_activity := tp_now B ?t, next_seq := next_seq s + 1\<rparr>"
  have k: "7 * k < length (buffer s)" "k < 255"
    using Suc.prems(2,3) packets_of_bounds(1) [of k "buffer s"] packets_of_bounds(2) [of "buffer s"] by linarith+
  have n: "next_seq s \<le> total_packets s"
    using Suc.prems(1,2,4) unat_seq [OF k(2)] by (simp add: word_le_nat_alt)
  have "next_seq ?s = word_of_nat (Suc (Suc k))" using Suc.prems(1) by simp
  from Suc.IH [of ?s "Suc k" ?t, OF this] Suc.prems sends_up [of "tp_bus t" "[?p]"]
  obtain la where ih: "send_dt_loop C B (c + e) ?s ?t =
      Inr (True, ?s\<lparr>next_seq := word_of_nat (Suc (Suc k + c)), last_activity := la\<rparr>, ?t\<lparr>tp_bus :=
        bus_sends B (map (dt_packet C (dest_sa s) (src_sa s) (buffer s)) [Suc k..<Suc k + c]) (tp_bus ?t)\<rparr>)"
    by auto
  have "send_dt_loop C B (Suc c + e) s t = send_dt_loop C B (c + e) ?s ?t"
    using n data_packet_eq [OF Suc.prems(1) k(1) Suc.prems(3), of C] tp_send_ok [OF Suc.prems(6), of ?p]
    by (simp add: Let_def)
  moreover have "[k..<k + Suc c] = k # [Suc k..<Suc k + c]"
    by (simp add: upt_conv_Cons)
  ultimately show ?case
    using ih by (intro exI [of _ la]) simp
qed

end

section \<open>Sending a message\<close>

text \<open>The session of a message to send, and the frame that announces it.\<close>

definition tx_session :: "address_t \<Rightarrow> address_t \<Rightarrow> pgn_t \<Rightarrow> u8 list \<Rightarrow> int \<Rightarrow> TpSession" where
  "tx_session me dest g xs now = session_default\<lparr>dir := Tx, buffer := xs, len := word_of_nat (length xs),
     total_packets := word_of_nat (packets_of xs), dest_sa := dest, src_sa := me, s_pgn := g,
     bam := (dest = 0xFF), last_activity := now\<rparr>"

definition announcement :: "'h canary_header \<Rightarrow> Control \<Rightarrow> u8 \<Rightarrow> address_t \<Rightarrow> address_t \<Rightarrow> pgn_t \<Rightarrow> u8 list \<Rightarrow> 'h frame" where
  "announcement C ctrl w me dest g xs =
     fill_tp_payload ((tx_session me dest g xs 0)\<lparr>window_size := w\<rparr>) (make_cm_frame C ctrl dest me)"

lemma tx_session_simps [simp]:
  "next_seq (tx_session me dest g xs now) = 1" "buffer (tx_session me dest g xs now) = xs"
  "window_size (tx_session me dest g xs now) = 0xFF" "dest_sa (tx_session me dest g xs now) = dest"
  "src_sa (tx_session me dest g xs now) = me" "bam (tx_session me dest g xs now) = (dest = 0xFF)"
  "total_packets (tx_session me dest g xs now) = word_of_nat (packets_of xs)"
  "len (tx_session me dest g xs now) = word_of_nat (length xs)" "s_pgn (tx_session me dest g xs now) = g"
  "(tx_session me dest g xs now)\<lparr>last_activity := n'\<rparr> = tx_session me dest g xs n'"
  by (simp_all add: tx_session_def session_default_def)

lemma fill_tx_session:
  "fill_tp_payload (tx_session me dest g xs now) (make_cm_frame C ctrl dest me) = announcement C ctrl 0xFF me dest g xs"
  by (simp add: announcement_def fill_tp_payload_def)

lemma unat_length: "length xs \<le> 1785 \<Longrightarrow> unat (word_of_nat (length xs) :: u16) = length xs"
  by (simp add: unat_of_nat)

lemma unat_packets: "length xs \<le> 1785 \<Longrightarrow> unat (word_of_nat (packets_of xs) :: u8) = packets_of xs"
  using packets_of_bounds(2) [of xs] by (simp add: unat_of_nat)

lemma start_tx_cases:
  assumes "8 < length xs" and "length xs \<le> 1785"
  shows "start_tx C B xs dest g t =
    (let me = tp_source_address B t; s = tx_session me dest g xs (tp_now B t); t = put_session (me, dest) s t
     in if dest = 0xFF
        then (case send_bam_start C B s t of Inl u \<Rightarrow> Inl u | Inr (ok, s, t) \<Rightarrow> Inr (ok, put_session (me, dest) s t))
        else (case send_rts C B s t of (ok, s, t) \<Rightarrow> Inr (ok, put_session (me, dest) s t)))"
proof -
  have e: "session_default\<lparr>dir := Tx, buffer := xs, len := word_of_nat (length xs),
      total_packets := word_of_nat
        ((unat (len (session_default\<lparr>dir := Tx, buffer := xs, len := word_of_nat (length xs)\<rparr>)) + 6) div 7),
      dest_sa := dest, src_sa := tp_source_address B t, s_pgn := g, bam := (dest = 0xFF),
      last_activity := tp_now B t\<rparr> = tx_session (tp_source_address B t) dest g xs (tp_now B t)"
    using unat_length [OF assms(2)] by (simp add: tx_session_def packets_of_def)
  show ?thesis
    using assms unfolding start_tx_def Let_def e make_key_def tx_session_simps by simp
qed

text \<open>The answer to a request to send, the acknowledgement at the end, and aborts.\<close>

definition cts_frame :: "'h canary_header \<Rightarrow> TpSession \<Rightarrow> 'h frame" where
  "cts_frame C s = (let fr = fill_tp_payload s (make_cm_frame C CTS (src_sa s) (dest_sa s))
     in fr\<lparr>payload := (payload fr)[1 := window_size s, 2 := next_seq s, 3 := 0, 4 := 0]\<rparr>)"

definition eom_frame :: "'h canary_header \<Rightarrow> TpSession \<Rightarrow> 'h frame" where
  "eom_frame C s = (let fr = fill_tp_payload s (make_cm_frame C EOM (src_sa s) (dest_sa s))
     in fr\<lparr>payload := (payload fr)[4 := 0xFF]\<rparr>)"

definition abort_frame :: "'h canary_header \<Rightarrow> TpSession \<Rightarrow> AbortCode \<Rightarrow> 'h frame" where
  "abort_frame C s code = (let fr = fill_tp_payload s (make_cm_frame C ABORT (src_sa s) (dest_sa s))
     in fr\<lparr>payload := (payload fr)[1 := abort_byte code, 2 := 0, 3 := 0, 4 := 0]\<rparr>)"

lemma send_abort_frame: "send_abort C B s code t = tp_send B (abort_frame C s code) t"
  by (simp add: send_abort_def abort_frame_def Let_def)

lemma response_cts_frame: "response_cts C B s t = snd (tp_send B (cts_frame C s) t)"
  by (simp add: response_cts_def cts_frame_def Let_def)

lemma answer_headers [simp]:
  "header (cts_frame C s) = header (make_base_frame C PGN_TP_CM (src_sa s) (dest_sa s))"
  "header (eom_frame C s) = header (make_base_frame C PGN_TP_CM (src_sa s) (dest_sa s))"
  "header (abort_frame C s code) = header (make_base_frame C PGN_TP_CM (src_sa s) (dest_sa s))"
  by (simp_all add: cts_frame_def eom_frame_def abort_frame_def Let_def)

lemma answer_payloads [simp]:
  "payload (cts_frame C s) ! 0 = to_byte CTS" "payload (cts_frame C s) ! 1 = window_size s"
  "payload (cts_frame C s) ! 2 = next_seq s"
  "payload (eom_frame C s) ! 0 = to_byte EOM" "payload (abort_frame C s code) ! 0 = to_byte ABORT"
  "payload (abort_frame C s code) ! 1 = abort_byte code"
  by (simp_all add: cts_frame_def eom_frame_def abort_frame_def Let_def cm_payload)

lemmas answer_payloads_1 [simp] = answer_payloads(2,6) [unfolded One_nat_def]

lemma answer_cong:
  "eom_frame C (s\<lparr>next_seq := q\<rparr>) = eom_frame C s" "eom_frame C (s\<lparr>last_activity := la\<rparr>) = eom_frame C s"
  "eom_frame C (s\<lparr>window_size := w\<rparr>) = eom_frame C s" "cts_frame C (s\<lparr>last_activity := la\<rparr>) = cts_frame C s"
  "abort_frame C (s\<lparr>state := x\<rparr>) code = abort_frame C s code"
  by (simp_all add: eom_frame_def cts_frame_def abort_frame_def fill_tp_payload_def make_cm_frame_def Let_def list8)

context reliable_bus
begin

lemma send_eom_ack_ok:
  "up (tp_bus t) \<Longrightarrow> send_eom_ack C B s t =
     (True, if bam s then t else t\<lparr>tp_bus := bus_sends B [eom_frame C s] (tp_bus t)\<rparr>)"
  using tp_send_ok [of t "eom_frame C s"] by (simp add: send_eom_ack_def eom_frame_def Let_def)

text \<open>
  A sender that may send \<open>w\<close> packets from packet \<open>k + 1\<close> on sends these, or as many as there are. It ends
  the session after the last packet, unless this is packet 255.
\<close>

lemma send_data_window:
  assumes "next_seq s = word_of_nat (Suc k)" and "k \<le> packets_of (buffer s)"
    and "length (buffer s) \<le> 1785" and "unat (total_packets s) = packets_of (buffer s)"
    and "k + unat (window_size s) \<le> packets_of (buffer s) \<or> packets_of (buffer s) \<le> 254" and "up (tp_bus t)"
  shows "\<exists>la. send_data_packets C B s t =
     (let m = min (k + unat (window_size s)) (packets_of (buffer s));
          fin = (m = packets_of (buffer s) \<and> m \<le> 254)
      in Inr (fin, s\<lparr>next_seq := word_of_nat (Suc m), last_activity := la, state := if fin then Completed else state s\<rparr>,
         t\<lparr>tp_bus := bus_sends B (map (dt_packet C (dest_sa s) (src_sa s) (buffer s)) [k..<m]
           @ (if fin \<and> \<not> bam s then [eom_frame C s] else [])) (tp_bus t)\<rparr>))"
proof -
  let ?n = "packets_of (buffer s)" and ?w = "unat (window_size s)"
  let ?m = "min (k + ?w) ?n"
  let ?fin = "?m = ?n \<and> ?m \<le> 254"
  let ?b = "bus_sends B (map (dt_packet C (dest_sa s) (src_sa s) (buffer s)) [k..<?m]) (tp_bus t)"
  have c: "k + (?m - k) = ?m" "(?m - k) + (?w - (?m - k)) = ?w" "k + (?m - k) \<le> ?n"
      "?w - (?m - k) = 0 \<or> k + (?m - k) = ?n \<and> ?n \<le> 254"
    using assms(2,5) by auto
  obtain la where l: "send_dt_loop C B ?w s t =
      Inr (True, s\<lparr>next_seq := word_of_nat (Suc ?m), last_activity := la\<rparr>, t\<lparr>tp_bus := ?b\<rparr>)"
    using send_dt_loop_sends [OF assms(1) c(3) assms(3,4) c(4) assms(6), of C] unfolding c(1,2) by blast
  let ?s = "s\<lparr>next_seq := word_of_nat (Suc ?m), last_activity := la\<rparr>"
  have "?n \<le> 255" using packets_of_bounds(2) [OF assms(3)] .
  then have "?m \<le> 255" by simp
  then have f: "total_packets s < word_of_nat (Suc ?m) \<longleftrightarrow> ?fin"
  proof (cases "?m = 255")
    case False
    then have "unat (word_of_nat (Suc ?m) :: u8) = Suc ?m" using \<open>?m \<le> 255\<close> by (intro unat_seq) simp
    then show ?thesis using assms(4) False \<open>?m \<le> 255\<close> by (simp add: word_less_nat_alt del: of_nat_Suc) linarith
  next
    case True
    have "word_of_nat (Suc 255) = (0 :: u8)" by simp
    then show ?thesis unfolding True by (simp only:) simp
  qed
  have e: "send_eom_ack C B ?s (t\<lparr>tp_bus := ?b\<rparr>) =
      (True, t\<lparr>tp_bus := bus_sends B (if bam s then [] else [eom_frame C s]) ?b\<rparr>)"
    using send_eom_ack_ok [of "t\<lparr>tp_bus := ?b\<rparr>" C ?s] sends_up [OF assms(6)] by (simp add: answer_cong)
  show ?thesis
    unfolding send_data_packets_def l Let_def
    using f e by (intro exI [of _ la]) (auto simp del: of_nat_Suc)
qed

lemma start_tx_bam:
  assumes "8 < length xs" and "length xs \<le> 1785" and "up (tp_bus t)"
  shows "\<exists>t'. start_tx C B xs 0xFF g t = Inr (length xs \<le> 1778, t')
    \<and> tp_bus t' = bus_sends B (announcement C BAM 0xFF me 0xFF g xs # map (dt_packet C 0xFF me xs) [0..<packets_of xs]) (tp_bus t)"
proof -
  let ?s = "\<lambda>now. tx_session me 0xFF g xs now"
  let ?t = "put_session (me, 0xFF) (?s (tp_now B t)) t"
  let ?fr = "announcement C BAM 0xFF me 0xFF g xs"
  let ?t1 = "?t\<lparr>tp_bus := bus_sends B [?fr] (tp_bus t)\<rparr>"
  have u: "up (tp_bus ?t)" "up (tp_bus ?t1)" using assms(3) sends_up [OF assms(3), of "[?fr]"] by simp_all
  have f: "min (0 + 255) (packets_of xs) = packets_of xs" "packets_of xs \<le> 254 \<longleftrightarrow> length xs \<le> 1778"
    "255 \<le> packets_of xs \<or> packets_of xs \<le> 254"
    using packets_of_bounds(2) [OF assms(2)] unfolding packets_of_def by (simp_all, linarith+)
  have "send_bam_start C B (?s (tp_now B t)) ?t = send_data_packets C B (?s (tp_now B ?t1)) ?t1"
    using tp_send_ok [OF u(1), of ?fr] by (simp add: send_bam_start_def J1939_NO_ADDR_def fill_tx_session Let_def)
  moreover have "\<exists>s'. send_data_packets C B (?s (tp_now B ?t1)) ?t1 =
      Inr (length xs \<le> 1778, s', ?t1\<lparr>tp_bus := bus_sends B (map (dt_packet C 0xFF me xs) [0..<packets_of xs]) (tp_bus ?t1)\<rparr>)"
    using send_data_window [of "?s (tp_now B ?t1)" 0 ?t1 C] u(2) assms(2) unat_packets [OF assms(2)] f
    by (auto simp: Let_def)
  ultimately show ?thesis
    using assms(3) by (auto simp add: start_tx_cases [OF assms(1,2)] Let_def)
qed

lemma start_tx_rts:
  assumes "8 < length xs" and "length xs \<le> 1785" and "dest \<noteq> 0xFF" and "up (tp_bus t)"
  shows "\<exists>t' now. start_tx C B xs dest g t = Inr (True, t')
    \<and> tp_bus t' = bus_sends B [announcement C RTS 0xFF me dest g xs] (tp_bus t)
    \<and> um_find (sessions t') = (um_find (sessions t))((me, dest) \<mapsto> tx_session me dest g xs now)
    \<and> rx_callback t' = rx_callback t"
proof -
  let ?fr = "announcement C RTS 0xFF me dest g xs"
  let ?t = "put_session (me, dest) (tx_session me dest g xs (tp_now B t)) t"
  let ?t1 = "?t\<lparr>tp_bus := bus_sends B [?fr] (tp_bus t)\<rparr>"
  have "up (tp_bus ?t)" using assms(4) by simp
  then have "send_rts C B (tx_session me dest g xs (tp_now B t)) ?t = (True, tx_session me dest g xs (tp_now B ?t1), ?t1)"
    using tp_send_ok [of ?t ?fr] by (simp add: send_rts_def fill_tx_session Let_def)
  then show ?thesis
    using assms(3,4) by (auto simp: start_tx_cases [OF assms(1,2)] Let_def fun_upd_upd)
qed

text \<open>A clear-to-send in the middle of a transfer, with any window that ends in the message.\<close>

lemma handle_cts_window:
  assumes "fh_pgn C (header fr) = PGN_TP_CM" and "payload fr ! 0 = to_byte CTS"
    and "fh_source_address C (header fr) = dest" and "um_find (sessions t) (me, dest) = Some s"
    and "src_sa s = me" and "dest_sa s = dest" and "buffer s = xs" and "length xs \<le> 1785"
    and "unat (total_packets s) = packets_of xs" and "payload fr ! 2 = word_of_nat (Suc k)" and "k \<le> packets_of xs"
    and "k + unat (payload fr ! 1) \<le> packets_of xs \<or> packets_of xs \<le> 254" and "up (tp_bus t)"
  shows "\<exists>t' q la st. on_can_frame C B fr t = Inr t' \<and> um_find (sessions t') = (um_find (sessions t))((me, dest) \<mapsto>
        s\<lparr>window_size := payload fr ! 1, next_seq := q, last_activity := la, state := st\<rparr>)
    \<and> rx_callback t' = rx_callback t
    \<and> tp_bus t' = (let m = min (k + unat (payload fr ! 1)) (packets_of xs)
        in bus_sends B (map (dt_packet C dest me xs) [k..<m]
          @ (if m = packets_of xs \<and> m \<le> 254 \<and> \<not> bam s then [eom_frame C s] else [])) (tp_bus t))"
proof -
  let ?s = "s\<lparr>window_size := payload fr ! 1, next_seq := payload fr ! 2\<rparr>"
  have c: "on_can_frame C B fr t =
      (case send_data_packets C B ?s t of Inl u \<Rightarrow> Inl u | Inr (ok, s, t) \<Rightarrow> Inr (put_session (me, dest) s t))"
    using assms(1-4,13) by (simp add: on_can_frame_def handle_cm_def handle_cts_def make_key_def Let_def)
  define m where "m = min (k + unat (payload fr ! 1)) (packets_of xs)"
  let ?st = "if m = packets_of xs \<and> m \<le> 254 then Completed else state s"
  obtain la where d: "send_data_packets C B ?s t = Inr (m = packets_of xs \<and> m \<le> 254,
      ?s\<lparr>next_seq := word_of_nat (Suc m), last_activity := la, state := ?st\<rparr>,
      t\<lparr>tp_bus := bus_sends B (map (dt_packet C dest me xs) [k..<m]
        @ (if (m = packets_of xs \<and> m \<le> 254) \<and> \<not> bam s then [eom_frame C s] else [])) (tp_bus t)\<rparr>)"
  proof -
    have "next_seq ?s = word_of_nat (Suc k)" "k \<le> packets_of (buffer ?s)" "length (buffer ?s) \<le> 1785"
        "unat (total_packets ?s) = packets_of (buffer ?s)"
        "k + unat (window_size ?s) \<le> packets_of (buffer ?s) \<or> packets_of (buffer ?s) \<le> 254"
      using assms(7-12) by simp_all
    from send_data_window [OF this assms(13), of C] that show thesis
      unfolding Let_def by (simp add: assms(5-7) m_def answer_cong del: of_nat_Suc cong: if_cong) blast
  qed
  define s' where "s' = ?s\<lparr>next_seq := word_of_nat (Suc m), last_activity := la, state := ?st\<rparr>"
  define b where "b = bus_sends B (map (dt_packet C dest me xs) [k..<m]
        @ (if m = packets_of xs \<and> m \<le> 254 \<and> \<not> bam s then [eom_frame C s] else [])) (tp_bus t)"
  have "on_can_frame C B fr t = Inr (put_session (me, dest) s' (t\<lparr>tp_bus := b\<rparr>))"
    unfolding c d s'_def b_def conj_assoc by simp
  moreover have "s' = s\<lparr>window_size := payload fr ! 1, next_seq := word_of_nat (Suc m), last_activity := la, state := ?st\<rparr>"
    unfolding s'_def by simp
  ultimately show ?thesis
    unfolding Let_def m_def [symmetric] b_def [symmetric]
    by (intro exI [of _ "put_session (me, dest) s' (t\<lparr>tp_bus := b\<rparr>)"] exI [of _ "word_of_nat (Suc m)"] exI [of _ la]
        exI [of _ ?st]) simp
qed

end

section \<open>Receiving a message\<close>

text \<open>Feeding the frames that arrive, one after the other.\<close>

fun feed :: "'h canary_header \<Rightarrow> ('h, 'b) bus \<Rightarrow> 'h frame list \<Rightarrow> ('h, 'b) tp \<Rightarrow> ub + ('h, 'b) tp" where
  "feed C B [] t = Inr t"
| "feed C B (fr # frs) t = (case on_can_frame C B fr t of Inl u \<Rightarrow> Inl u | Inr t \<Rightarrow> feed C B frs t)"

lemma feed_append:
  "feed C B (xs @ ys) t = (case feed C B xs t of Inl u \<Rightarrow> Inl u | Inr t \<Rightarrow> feed C B ys t)"
  by (induction xs arbitrary: t) (auto split: sum.split)

text \<open>The buffer of the receiver after \<open>i\<close> packets.\<close>

definition rx_buffer :: "u8 list \<Rightarrow> nat \<Rightarrow> u8 list" where
  "rx_buffer xs i = take (7 * i) xs @ replicate (length xs - 7 * i) 0"

lemma length_rx_buffer [simp]: "length (rx_buffer xs i) = length xs"
  by (simp add: rx_buffer_def)

lemma rx_buffer_0: "rx_buffer xs 0 = replicate (length xs) 0"
  by (simp add: rx_buffer_def)

lemma rx_buffer_all: "rx_buffer xs (packets_of xs) = xs"
proof -
  have "length xs \<le> 7 * packets_of xs" unfolding packets_of_def by linarith
  then show ?thesis by (simp add: rx_buffer_def)
qed

lemma length_segment [simp]: "length (segment xs i) = 7"
  by (simp add: segment_def Let_def)

lemma write_segment:
  assumes "7 * i < length xs"
  shows "write_bytes (7 * i) (take (min 7 (length xs - 7 * i)) (segment xs i)) (rx_buffer xs i) =
    Inr (rx_buffer xs (Suc i))"
proof -
  let ?c = "take 7 (drop (7 * i) xs)" and ?k = "min 7 (length xs - 7 * i)"
  have c: "take ?k (segment xs i) = ?c"
    by (simp add: segment_def Let_def min_def)
  have l: "length ?c = ?k" by simp
  have "take (7 * Suc i) xs = take (7 * i) xs @ ?c"
    by (simp add: take_add [symmetric] add.commute)
  moreover have "length xs - 7 * Suc i = length xs - 7 * i - ?k" by simp
  ultimately show ?thesis
    using assms unfolding c write_bytes_def l
    by (simp add: rx_buffer_def)
qed

text \<open>
  The session of a receiver after \<open>i\<close> packets of a message: a broadcast or a message to \<open>dst\<close>, with the
  window \<open>w\<close> of its announcement.
\<close>

definition rx_session :: "u8 \<Rightarrow> address_t \<Rightarrow> address_t \<Rightarrow> pgn_t \<Rightarrow> u8 list \<Rightarrow> nat \<Rightarrow> int \<Rightarrow> TpSession" where
  "rx_session w src dst g xs i la = session_default\<lparr>dir := Rx, bam := (dst = 0xFF), len := word_of_nat (length xs),
     total_packets := word_of_nat (packets_of xs), window_size := w, dest_sa := dst, src_sa := src,
     s_pgn := take_bit 24 g, buffer := rx_buffer xs i, next_seq := word_of_nat (Suc i), last_activity := la\<rparr>"

lemma rx_session_simps [simp]:
  "buffer (rx_session w src dst g xs i la) = rx_buffer xs i" "window_size (rx_session w src dst g xs i la) = w"
  "dest_sa (rx_session w src dst g xs i la) = dst" "src_sa (rx_session w src dst g xs i la) = src"
  "bam (rx_session w src dst g xs i la) = (dst = 0xFF)" "s_pgn (rx_session w src dst g xs i la) = take_bit 24 g"
  "total_packets (rx_session w src dst g xs i la) = word_of_nat (packets_of xs)"
  "last_activity (rx_session w src dst g xs i la) = la"
  by (simp_all add: rx_session_def)

lemma rx_session_seq: "next_seq (rx_session w src dst g xs i la) = word_of_nat (Suc i)"
  by (simp add: rx_session_def)

lemma rx_session_next:
  "(rx_session w src dst g xs i la)\<lparr>buffer := rx_buffer xs j, next_seq := word_of_nat (Suc j), last_activity := la'\<rparr> =
     rx_session w src dst g xs j la'"
  by (simp add: rx_session_def session_default_def)

lemma rx_answers:
  "cts_frame C (rx_session w src dst g xs i la) = cts_frame C (rx_session w src dst g xs i 0)"
  "eom_frame C (rx_session w src dst g xs i la) = eom_frame C (rx_session w src dst g xs 0 0)"
  by (simp_all add: rx_session_def cts_frame_def eom_frame_def fill_tp_payload_def Let_def)

text \<open>The message a receiver delivers.\<close>

definition tp_message :: "'h canary_header \<Rightarrow> address_t \<Rightarrow> address_t \<Rightarrow> pgn_t \<Rightarrow> u8 list \<Rightarrow> 'h data" where
  "tp_message C src dst g xs =
     (let h = fh_set_source_address C src (fh_set_pgn C g (fh_default C));
          h = (if dst = 0xFF then h else fh_set_pdu_specific C dst h)
      in \<lparr>data_header = fh_set_payload_length C (length xs) h, data_payload = xs\<rparr>)"

text \<open>What calling a callback does to the surroundings.\<close>

definition rx_call :: "('h, 'b) tp \<Rightarrow> 'h data \<Rightarrow> 'b \<Rightarrow> 'b" where
  "rx_call t d b = (case rx_callback t of None \<Rightarrow> b | Some f \<Rightarrow> f d b)"

definition error_call :: "('h, 'b) tp \<Rightarrow> string \<Rightarrow> tp_error \<Rightarrow> 'b \<Rightarrow> 'b" where
  "error_call t what ec b = (case error_callback t of None \<Rightarrow> b | Some f \<Rightarrow> f what ec b)"

lemma report_error_eq: "report_error what ec t = t\<lparr>tp_bus := error_call t what ec (tp_bus t)\<rparr>"
  by (simp add: report_error_def error_call_def split: option.split)

lemma set_pgn_take_bit: "fh_set_pgn C (take_bit 24 g) h = fh_set_pgn C g h"
proof -
  have m: "(0x3FFFF :: u32) = mask 18" by (simp add: mask_eq_exp_minus_1)
  have "take_bit 24 g AND 0x3FFFF = g AND (0x3FFFF :: u32)"
    unfolding m by (rule bit_word_eqI) (auto simp: bit_simps)
  then show ?thesis by (simp add: fh_set_pgn_def)
qed

lemma deliver_rx:
  "deliver C (rx_session w src dst g xs (packets_of xs) la) t =
     t\<lparr>tp_bus := rx_call t (tp_message C src dst g xs) (tp_bus t)\<rparr>"
  by (simp add: deliver_def rx_call_def tp_message_def rx_buffer_all set_pgn_take_bit Let_def split: option.split)

lemma packets_of_pos: "8 < length xs \<Longrightarrow> 0 < packets_of xs"
  by (simp add: packets_of_def)

lemma announcement_decode [simp]:
  "payload_length16 (announcement C ctrl w me dest g xs) = word_of_nat (length xs)"
  "get_payload_pgn (announcement C ctrl w me dest g xs) = take_bit 24 g"
  "payload (announcement C ctrl w me dest g xs) ! 0 = to_byte ctrl"
  "payload (announcement C ctrl w me dest g xs) ! 3 = word_of_nat (packets_of xs)"
  "payload (announcement C ctrl w me dest g xs) ! 4 = w"
  "header (announcement C ctrl w me dest g xs) = header (make_base_frame C PGN_TP_CM dest me)"
  by (simp_all add: announcement_def cm_decode)

context canary_frame_header
begin

lemma dt_packet_header [simp]: "header (dt_packet C dst src xs i) = header (make_base_frame C PGN_TP_DT dst src)"
  by (simp add: dt_packet_def)

lemma dt_packet_payload: "payload (dt_packet C dst src xs i) = word_of_nat (Suc i) # segment xs i"
  by (simp add: dt_packet_def)

text \<open>The announcements start a session.\<close>

lemma rx_bam:
  assumes "length xs \<le> 1785"
  shows "on_can_frame C B (announcement C BAM 0xFF src 0xFF g xs) r =
    Inr (put_session (src, 0xFF) (rx_session 0xFF src 0xFF g xs 0 (tp_now B r)) r)"
proof -
  have "session_default\<lparr>dir := Rx, bam := True, len := word_of_nat (length xs), total_packets := word_of_nat (packets_of xs),
      dest_sa := 0xFF, src_sa := src, s_pgn := take_bit 24 g, buffer := rx_buffer xs 0, last_activity := now\<rparr> =
    rx_session 0xFF src 0xFF g xs 0 now" for now
    by (simp add: rx_session_def session_default_def)
  then show ?thesis
    by (simp add: on_can_frame_def handle_cm_def Let_def start_rx_bam_def make_key_def
        rx_buffer_0 [symmetric] unat_length [OF assms])
qed

lemma rx_rts:
  assumes "length xs \<le> 1785" and "dst \<noteq> 0xFF" and "tp_source_address B r = dst"
  shows "on_can_frame C B (announcement C RTS w src dst g xs) r =
    Inr ((put_session (src, dst) (rx_session w src dst g xs 0 (tp_now B r)) r)
      \<lparr>tp_bus := bus_sends B [cts_frame C (rx_session w src dst g xs 0 0)] (tp_bus r)\<rparr>)"
proof -
  have "session_default\<lparr>dir := Rx, len := word_of_nat (length xs), total_packets := word_of_nat (packets_of xs),
      window_size := w, dest_sa := dst, src_sa := src, s_pgn := take_bit 24 g, buffer := rx_buffer xs 0,
      last_activity := now, next_seq := 1\<rparr> = rx_session w src dst g xs 0 now" for now
    using assms(2) by (simp add: rx_session_def session_default_def)
  then show ?thesis
    using assms(3) rx_answers(1) [of C w src dst g xs 0 "tp_now B r"]
    by (simp add: on_can_frame_def handle_cm_def Let_def start_rx_rts_def make_key_def
        rx_buffer_0 [symmetric] unat_length [OF assms(1)] response_cts_frame tp_send_eq)
qed

text \<open>The next packet fills the buffer; the last one makes the receiver deliver the message.\<close>

lemma rx_packet:
  assumes "um_find (sessions r) (src, dst) = Some (rx_session w src dst g xs i la)" and "w \<noteq> 0"
    and "i < packets_of xs" and "length xs \<le> 1785"
  shows "on_can_frame C B (dt_packet C dst src xs i) r =
    (let s = rx_session w src dst g xs (Suc i) (tp_now B r)
     in if Suc i = packets_of xs then
          (let r = r\<lparr>tp_bus := rx_call r (tp_message C src dst g xs) (tp_bus r)\<rparr>
           in if dst = 0xFF then Inr (put_session (src, dst) (s\<lparr>state := Completed\<rparr>) r)
              else Inr (snd (send_eom_ack C B s (put_session (src, dst) s r))))
        else if dst \<noteq> 0xFF \<and> Suc i mod unat w = 0
        then Inr ((put_session (src, dst) s r)
          \<lparr>tp_bus := bus_sends B [cts_frame C (rx_session w src dst g xs (Suc i) 0)] (tp_bus r)\<rparr>)
        else Inr (put_session (src, dst) s r))"
proof -
  have i: "7 * i < length xs" "i < 255"
    using assms(3,4) packets_of_bounds(1) [of i xs] packets_of_bounds(2) [of xs] by linarith+
  note u = unat_seq [OF i(2)] and n = unat_packets [OF assms(4)]
  let ?s = "rx_session w src dst g xs i la"
  have t: "word_of_nat (Suc i) = (word_of_nat (packets_of xs) :: u8) \<longleftrightarrow> Suc i = packets_of xs"
    using u n by (simp add: word_unat_eq_iff del: of_nat_Suc)
  have g: "\<not> (word_of_nat (Suc i) < (1::u8))" "\<not> word_of_nat (packets_of xs) < (word_of_nat (Suc i) :: u8)"
    using u n assms(3) by (simp_all add: word_less_nat_alt del: of_nat_Suc)
  have m: "(word_of_nat (Suc i) :: u8) mod w = 0 \<longleftrightarrow> Suc i mod unat w = 0"
    using u by (simp add: word_unat_eq_iff unat_mod del: of_nat_Suc)
  have a: "packet_avail (length xs) (7 * i) = min 7 (length xs - 7 * i)"
    using i(1) assms(4) by (intro packet_avail_le) simp_all
  have p: "word_of_nat (Suc (Suc i)) = (word_of_nat (Suc i) + 1 :: u8)" by simp
  note s = rx_session_next [where j = "Suc i", unfolded p]
  have c: "response_cts C B (rx_session w src dst g xs (Suc i) la') r' =
      r'\<lparr>tp_bus := bus_sends B [cts_frame C (rx_session w src dst g xs (Suc i) 0)] (tp_bus r')\<rparr>" for r' la'
    unfolding response_cts_frame rx_answers(1) [of C w src dst g xs "Suc i" la'] tp_send_eq by simp
  have h: "on_can_frame C B (dt_packet C dst src xs i) r = handle_dt C B (dt_packet C dst src xs i) r"
    by (simp add: on_can_frame_def tp_pgns(3,4))
  note e = h handle_dt_def Let_def make_key_def dt_packet_header base_frame_addresses assms(1) option.case
    dt_packet_payload nth_Cons_0 rx_session_simps rx_session_seq
  show ?thesis
  proof (cases "Suc i = packets_of xs")
    case True
    show ?thesis
      unfolding e using True g write_segment [OF i(1)]
      by (simp add: packet_offset_Suc [OF i(2), unfolded True] a s [unfolded True] deliver_rx del: of_nat_Suc)
  next
    case False
    then show ?thesis
      unfolding e using g assms(2) write_segment [OF i(1)] m
      by (simp add: packet_offset_Suc [OF i(2)] a s t c del: of_nat_Suc)
  qed
qed

end

text \<open>
  All packets but the last one fill the buffer. At the end of each window, the receiver of a message to
  one device asks for the next one.
\<close>

definition cts_frames :: "'h canary_header \<Rightarrow> u8 \<Rightarrow> address_t \<Rightarrow> address_t \<Rightarrow> pgn_t \<Rightarrow> u8 list \<Rightarrow> nat \<Rightarrow> nat \<Rightarrow> 'h frame list" where
  "cts_frames C w src dst g xs i j = map (\<lambda>k. cts_frame C (rx_session w src dst g xs k 0))
     (filter (\<lambda>k. dst \<noteq> 0xFF \<and> k mod unat w = 0) [i..<j])"

lemma cts_frames_simps:
  "cts_frames C w src dst g xs i i = []"
  "i < j \<Longrightarrow> cts_frames C w src dst g xs i j =
     (if dst \<noteq> 0xFF \<and> i mod unat w = 0 then [cts_frame C (rx_session w src dst g xs i 0)] else [])
     @ cts_frames C w src dst g xs (Suc i) j"
  by (simp_all add: cts_frames_def upt_rec [of i j])

lemma calls_cong [simp]:
  "rx_call (t\<lparr>sessions := m\<rparr>) = rx_call t" "rx_call (t\<lparr>tp_bus := b\<rparr>) = rx_call t"
  "rx_call (put_session k s t) = rx_call t" "rx_call (t\<lparr>tick_timer := x\<rparr>) = rx_call t"
  "error_call (t\<lparr>sessions := m\<rparr>) = error_call t" "error_call (t\<lparr>tp_bus := b\<rparr>) = error_call t"
  "error_call (put_session k s t) = error_call t" "error_call (t\<lparr>tick_timer := x\<rparr>) = error_call t"
  by (simp_all add: rx_call_def error_call_def fun_eq_iff)

context canary_frame_header
begin

lemma feed_packets:
  assumes "um_find (sessions r) (src, dst) = Some (rx_session w src dst g xs i la)" and "w \<noteq> 0"
    and "i + k < packets_of xs" and "length xs \<le> 1785"
  shows "\<exists>m la. feed C B (map (dt_packet C dst src xs) [i..<i + k]) r =
      Inr (r\<lparr>sessions := m, tp_bus := bus_sends B (cts_frames C w src dst g xs (Suc i) (Suc (i + k))) (tp_bus r)\<rparr>)
    \<and> um_find m (src, dst) = Some (rx_session w src dst g xs (i + k) la)"
  using assms
proof (induction k arbitrary: r i la)
  case 0
  then show ?case
    by (intro exI [of _ "sessions r"] exI [of _ la]) (simp add: cts_frames_simps)
next
  case (Suc k)
  let ?s = "rx_session w src dst g xs (Suc i) (tp_now B r)"
  let ?c = "if dst \<noteq> 0xFF \<and> Suc i mod unat w = 0 then [cts_frame C (rx_session w src dst g xs (Suc i) 0)] else []"
  let ?r = "(put_session (src, dst) ?s r)\<lparr>tp_bus := bus_sends B ?c (tp_bus r)\<rparr>"
  have h: "on_can_frame C B (dt_packet C dst src xs i) r = Inr ?r"
    using rx_packet [OF Suc.prems(1,2) _ Suc.prems(4), of B] Suc.prems(3) by (simp add: Let_def put_session_def)
  have "\<exists>m la. feed C B (map (dt_packet C dst src xs) [Suc i..<Suc i + k]) ?r =
      Inr (?r\<lparr>sessions := m, tp_bus := bus_sends B (cts_frames C w src dst g xs (Suc (Suc i)) (Suc (Suc i + k))) (tp_bus ?r)\<rparr>)
    \<and> um_find m (src, dst) = Some (rx_session w src dst g xs (Suc i + k) la)"
    using Suc.prems by (intro Suc.IH) simp_all
  moreover have "[i..<i + Suc k] = i # [Suc i..<Suc i + k]" by (simp add: upt_conv_Cons)
  moreover have "cts_frames C w src dst g xs (Suc i) (Suc (i + Suc k)) =
      ?c @ cts_frames C w src dst g xs (Suc (Suc i)) (Suc (Suc i + k))"
    by (subst cts_frames_simps(2)) simp_all
  ultimately show ?case
    using h by (auto simp: put_session_def)
qed

text \<open>All packets: a broadcast is delivered, and a message to one device is acknowledged as well.\<close>

lemma feed_broadcast:
  assumes "um_find (sessions r) (src, 0xFF) = Some (rx_session w src 0xFF g xs 0 la)" and "w \<noteq> 0"
    and "0 < packets_of xs" and "length xs \<le> 1785"
  shows "\<exists>r'. feed C B (map (dt_packet C 0xFF src xs) [0..<packets_of xs]) r = Inr r'
    \<and> tp_bus r' = rx_call r (tp_message C src 0xFF g xs) (tp_bus r)"
proof -
  obtain k where k: "packets_of xs = Suc k" using assms(3) by (cases "packets_of xs") auto
  obtain m la where f: "feed C B (map (dt_packet C 0xFF src xs) [0..<k]) r = Inr (r\<lparr>sessions := m\<rparr>)"
    and m: "um_find (sessions (r\<lparr>sessions := m\<rparr>)) (src, 0xFF) = Some (rx_session w src 0xFF g xs k la)"
    using feed_packets [OF assms(1,2) _ assms(4), of k B] k by (auto simp: cts_frames_def)
  have l: "[0..<packets_of xs] = [0..<k] @ [k]" using k by simp
  show ?thesis
    unfolding l map_append feed_append f
    using rx_packet [OF m assms(2) _ assms(4), of B] k by (auto simp: put_session_def rx_call_def)
qed

lemma feed_message:
  assumes "reliable_bus B up dst" and "\<And>d b. up b \<Longrightarrow> up (rx_call r d b)" and "up (tp_bus r)"
    and "um_find (sessions r) (src, dst) = Some (rx_session w src dst g xs 0 la)" and "w \<noteq> 0" and "dst \<noteq> 0xFF"
    and "0 < packets_of xs" and "length xs \<le> 1785"
  shows "\<exists>r'. feed C B (map (dt_packet C dst src xs) [0..<packets_of xs]) r = Inr r'
    \<and> tp_bus r' = bus_sends B [eom_frame C (rx_session w src dst g xs 0 0)]
      (rx_call r (tp_message C src dst g xs)
        (bus_sends B (cts_frames C w src dst g xs 1 (packets_of xs)) (tp_bus r)))"
proof -
  obtain k where k: "packets_of xs = Suc k" using assms(7) by (cases "packets_of xs") auto
  let ?b = "bus_sends B (cts_frames C w src dst g xs 1 (packets_of xs)) (tp_bus r)"
  obtain m la where f: "feed C B (map (dt_packet C dst src xs) [0..<k]) r = Inr (r\<lparr>sessions := m, tp_bus := ?b\<rparr>)"
    and m: "um_find (sessions (r\<lparr>sessions := m, tp_bus := ?b\<rparr>)) (src, dst) = Some (rx_session w src dst g xs k la)"
    using feed_packets [OF assms(4,5) _ assms(8), of k B] k by auto
  let ?t = "r\<lparr>sessions := m, tp_bus := ?b\<rparr>"
  let ?s = "rx_session w src dst g xs (Suc k) (tp_now B ?t)"
  let ?r = "put_session (src, dst) ?s (?t\<lparr>tp_bus := rx_call ?t (tp_message C src dst g xs) ?b\<rparr>)"
  have "up (tp_bus ?r)"
    using assms(2) reliable_bus.sends_up [OF assms(1,3)] by simp
  note e = reliable_bus.send_eom_ack_ok [OF assms(1) this, of C ?s]
  have h: "on_can_frame C B (dt_packet C dst src xs k) ?t = Inr (snd (send_eom_ack C B ?s ?r))"
    using rx_packet [OF m assms(5) _ assms(8), of B] k assms(6) by (simp add: Let_def)
  have l: "[0..<packets_of xs] = [0..<k] @ [k]" using k by simp
  show ?thesis
    unfolding l map_append feed_append f using assms(6) h [unfolded e]
    by (simp add: rx_answers(2) [where i = "Suc k"])
qed

end


section \<open>A bus that records what happens\<close>

text \<open>
  The simplest surroundings: the frames the bus has taken, the messages and errors handed to the
  callbacks, and the time.
\<close>

record 'h tp_log =
  log_frames :: "'h frame list"
  log_data :: "'h data list"
  log_errors :: "(string \<times> tp_error) list"
  log_now :: int

definition log_bus :: "address_t \<Rightarrow> ('h, 'h tp_log) bus" where
  "log_bus me = \<lparr>bus_send = (\<lambda>fr b. (True, b\<lparr>log_frames := log_frames b @ [fr]\<rparr>)),
     bus_source_address = (\<lambda>b. me), bus_now = log_now\<rparr>"

definition log_rx :: "('h, 'h tp_log) on_data" where
  "log_rx d b = b\<lparr>log_data := log_data b @ [d]\<rparr>"

definition log_error :: "'h tp_log on_error" where
  "log_error what ec b = b\<lparr>log_errors := log_errors b @ [(what, ec)]\<rparr>"

definition log_tp :: "('h, 'h tp_log) tp" where
  "log_tp = set_rx_handler (Some log_rx) (set_error_handler (Some log_error)
     (tp_new \<lparr>log_frames = [], log_data = [], log_errors = [], log_now = 0\<rparr>))"

interpretation lb: reliable_bus "log_bus me" "\<lambda>b. True" me for me
  by unfold_locales (simp_all add: log_bus_def)

lemma log_bus_sends:
  "snd (bus_send (log_bus me) fr b) = b\<lparr>log_frames := log_frames b @ [fr]\<rparr>"
  "bus_sends (log_bus me) frs b = b\<lparr>log_frames := log_frames b @ frs\<rparr>"
  by (simp add: log_bus_def) (induction frs arbitrary: b, simp_all add: log_bus_def)

lemma log_tp_simps [simp]:
  "rx_callback log_tp = Some log_rx" "error_callback log_tp = Some log_error" "sessions log_tp = []"
  "tp_bus log_tp = \<lparr>log_frames = [], log_data = [], log_errors = [], log_now = 0\<rparr>" "tick_timer log_tp = None"
  by (simp_all add: log_tp_def tp_new_def set_rx_handler_def set_error_handler_def)

section \<open>Broadcasts of several devices\<close>

text \<open>The frames of a broadcast.\<close>

definition bam_frames :: "'h canary_header \<Rightarrow> address_t \<Rightarrow> pgn_t \<Rightarrow> u8 list \<Rightarrow> 'h frame list" where
  "bam_frames C src g xs = announcement C BAM 0xFF src 0xFF g xs # map (dt_packet C 0xFF src xs) [0..<packets_of xs]"

lemma length_bam_frames [simp]: "length (bam_frames C src g xs) = Suc (packets_of xs)"
  by (simp add: bam_frames_def)

lemma rx_call_Some: "rx_callback t = Some f \<Longrightarrow> rx_call t = f"
  by (simp add: rx_call_def fun_eq_iff)

text \<open>The receiver has seen the first \<open>k\<close> frames of a broadcast, and not all of them.\<close>

definition bam_seen :: "address_t \<Rightarrow> pgn_t \<Rightarrow> u8 list \<Rightarrow> nat \<Rightarrow> ('h, 'b) tp \<Rightarrow> bool" where
  "bam_seen src g xs k t \<longleftrightarrow> (\<forall>i. k = Suc i \<and> i < packets_of xs \<longrightarrow>
     (\<exists>la. um_find (sessions t) (src, 0xFF) = Some (rx_session 0xFF src 0xFF g xs i la)))"

lemma bam_seen_other:
  "a \<noteq> src \<Longrightarrow> bam_seen a g xs k (put_session (src, d) s t) = bam_seen a g xs k t"
  by (simp add: bam_seen_def)

context canary_frame_header
begin

text \<open>One more frame of the broadcast: only its own session changes, and the last one delivers the message.\<close>

lemma bam_frame:
  assumes "bam_seen src g xs k r" and "length xs \<le> 1785" and "k < Suc (packets_of xs)" and "rx_callback r = Some f"
  shows "\<exists>s. on_can_frame C B (bam_frames C src g xs ! k) r =
      Inr (put_session (src, 0xFF) s (r\<lparr>tp_bus :=
        (if k = packets_of xs \<and> 0 < k then f (tp_message C src 0xFF g xs) (tp_bus r) else tp_bus r)\<rparr>))
    \<and> bam_seen src g xs (Suc k) (put_session (src, 0xFF) s r)"
proof (cases k)
  case 0
  then show ?thesis
    using rx_bam [OF assms(2), of B src g r]
    by (intro exI [of _ "rx_session 0xFF src 0xFF g xs 0 (tp_now B r)"])
      (auto simp: bam_frames_def bam_seen_def put_session_def)
next
  case (Suc i)
  then obtain la where s: "um_find (sessions r) (src, 0xFF) = Some (rx_session 0xFF src 0xFF g xs i la)"
    using assms(1,3) by (auto simp: bam_seen_def)
  let ?s = "rx_session 0xFF src 0xFF g xs (Suc i) (tp_now B r)"
  have i: "i < packets_of xs" using assms(3) Suc by simp
  have n: "bam_frames C src g xs ! k = dt_packet C 0xFF src xs i" using Suc i by (simp add: bam_frames_def)
  have h: "on_can_frame C B (dt_packet C 0xFF src xs i) r =
      (if Suc i = packets_of xs
       then Inr (put_session (src, 0xFF) (?s\<lparr>state := Completed\<rparr>) (r\<lparr>tp_bus := f (tp_message C src 0xFF g xs) (tp_bus r)\<rparr>))
       else Inr (put_session (src, 0xFF) ?s r))"
    using rx_packet [OF s _ i assms(2), of B] by (simp add: Let_def rx_call_Some [OF assms(4)])
  show ?thesis
    unfolding n h using Suc
    by (intro exI [of _ "if Suc i = packets_of xs then ?s\<lparr>state := Completed\<rparr> else ?s"])
      (auto simp: bam_seen_def put_session_def)
qed

lemma feed_interleaved:
  assumes "\<And>fr. fr \<in> set frs \<Longrightarrow> fh_source_address C (header fr) \<in> A"
    and "\<And>a. a \<in> A \<Longrightarrow> filter (\<lambda>fr. fh_source_address C (header fr) = a) frs = drop (k a) (bam_frames C a (g a) (xs a))"
    and "\<And>a. a \<in> A \<Longrightarrow> bam_seen a (g a) (xs a) (k a) r" and "\<And>a. a \<in> A \<Longrightarrow> length (xs a) \<le> 1785 \<and> 0 < packets_of (xs a)"
    and "rx_callback r = Some f"
  shows "\<exists>r' order. feed C B frs r = Inr r' \<and> distinct order \<and> set order = {a \<in> A. k a \<le> packets_of (xs a)}
    \<and> tp_bus r' = fold f (map (\<lambda>a. tp_message C a 0xFF (g a) (xs a)) order) (tp_bus r)"
  using assms
proof (induction frs arbitrary: k r)
  case Nil
  have "\<not> k a \<le> packets_of (xs a)" if "a \<in> A" for a
    using Nil.prems(2) [OF that] by (simp add: not_le Suc_le_eq)
  then have "{a \<in> A. k a \<le> packets_of (xs a)} = {}" by auto
  then show ?case by (intro exI [of _ r] exI [of _ "[]"]) simp
next
  case (Cons fr frs)
  let ?src = "\<lambda>fr. fh_source_address C (header fr)"
  define a where "a = ?src fr"
  have a: "a \<in> A" using Cons.prems(1) by (simp add: a_def)
  have d: "fr # filter (\<lambda>fr. ?src fr = a) frs = drop (k a) (bam_frames C a (g a) (xs a))"
    using Cons.prems(2) [OF a] by (simp add: a_def)
  then have ka: "k a < Suc (packets_of (xs a))" and fr: "bam_frames C a (g a) (xs a) ! k a = fr"
    and rest: "filter (\<lambda>fr. ?src fr = a) frs = drop (Suc (k a)) (bam_frames C a (g a) (xs a))"
    using drop_eq_ConsD [OF d] by auto
  define l where "l = (k a = packets_of (xs a) \<and> 0 < k a)"
  let ?m = "\<lambda>a. tp_message C a 0xFF (g a) (xs a)"
  obtain s where h: "on_can_frame C B fr r = Inr (put_session (a, 0xFF) s (r\<lparr>tp_bus := if l then f (?m a) (tp_bus r) else tp_bus r\<rparr>))"
    and s: "bam_seen a (g a) (xs a) (Suc (k a)) (put_session (a, 0xFF) s r)"
    using bam_frame [OF Cons.prems(3) [OF a] _ ka Cons.prems(5), of B] Cons.prems(4) [OF a] fr unfolding l_def by auto
  let ?r = "put_session (a, 0xFF) s (r\<lparr>tp_bus := if l then f (?m a) (tp_bus r) else tp_bus r\<rparr>)"
  let ?k = "k(a := Suc (k a))"
  have "\<exists>r' order. feed C B frs ?r = Inr r' \<and> distinct order \<and> set order = {b \<in> A. ?k b \<le> packets_of (xs b)}
      \<and> tp_bus r' = fold f (map ?m order) (tp_bus ?r)"
  proof (rule Cons.IH)
    show "bam_seen b (g b) (xs b) (?k b) ?r" if "b \<in> A" for b
      using Cons.prems(3) [OF that] s by (cases "b = a") (auto simp: bam_seen_def)
    show "filter (\<lambda>fr. ?src fr = b) frs = drop (?k b) (bam_frames C b (g b) (xs b))" if "b \<in> A" for b
      using Cons.prems(2) [OF that] rest by (cases "b = a") (auto simp: a_def)
  qed (use Cons.prems in auto)
  then obtain r' order where o: "feed C B frs ?r = Inr r'" "distinct order"
      "set order = {b \<in> A. ?k b \<le> packets_of (xs b)}" "tp_bus r' = fold f (map ?m order) (tp_bus ?r)"
    by blast
  have "set (if l then a # order else order) = {b \<in> A. k b \<le> packets_of (xs b)}" "a \<notin> set order \<or> \<not> l"
    using a ka Cons.prems(4) [OF a] unfolding l_def by (auto simp: o(3) split: if_splits)
  then show ?case
    using o(1,2,4) h by (intro exI [of _ r'] exI [of _ "if l then a # order else order"]) auto
qed

end


section \<open>Messages with one window\<close>

text \<open>
  Both sides of this implementation use a window of 255 packets, so that one clear-to-send is enough for
  a message.
\<close>

lemma cts_frames_whole: "length xs \<le> 1785 \<Longrightarrow> cts_frames C 0xFF src dst g xs 1 (packets_of xs) = []"
  using packets_of_bounds(2) [of xs] by (auto simp: cts_frames_def filter_empty_conv)

lemma eom_tx_session: "eom_frame C (tx_session me dest g xs now) = eom_frame C (tx_session me dest g xs 0)"
  by (simp add: eom_frame_def fill_tp_payload_def)

context reliable_bus
begin

lemma handle_cts_all:
  assumes "canary_frame_header C" and "length xs \<le> 1785" and "dest \<noteq> 0xFF" and "up (tp_bus t)"
    and "um_find (sessions t) (me, dest) = Some (tx_session me dest g xs now)"
  shows "\<exists>t'. on_can_frame C B (cts_frame C (rx_session 0xFF me dest g xs 0 0)) t = Inr t' \<and> rx_callback t' = rx_callback t
    \<and> tp_bus t' = bus_sends B (map (dt_packet C dest me xs) [0..<packets_of xs]
        @ (if length xs \<le> 1778 then [eom_frame C (tx_session me dest g xs 0)] else [])) (tp_bus t)"
proof -
  let ?cts = "cts_frame C (rx_session 0xFF me dest g xs 0 0)" and ?n = "packets_of xs"
  have n: "?n \<le> 255" "?n \<le> 254 \<longleftrightarrow> length xs \<le> 1778"
    using packets_of_bounds(2) [OF assms(2)] unfolding packets_of_def by linarith+
  have h: "fh_pgn C (header ?cts) = PGN_TP_CM" "fh_source_address C (header ?cts) = dest"
      "payload ?cts ! 0 = to_byte CTS" "payload ?cts ! 2 = word_of_nat (Suc 0)" "unat (payload ?cts ! 1) = 255"
    by (simp_all add: canary_frame_header.base_frame_addresses [OF assms(1)] canary_frame_header.tp_frame_kinds [OF assms(1)]
        rx_session_seq)
  have w: "0 + 255 \<le> ?n \<or> ?n \<le> 254" "min (0 + 255) ?n = ?n" using n(1) by linarith+
  from handle_cts_window [OF h(1,3,2) assms(5) _ _ _ assms(2) _ h(4) _ _ assms(4), unfolded h(5) w(2), OF _ _ _ _ _ w(1)]
  show ?thesis
    using unat_packets [OF assms(2)] n(2) assms(3) by (auto simp: Let_def eom_tx_session [of C me dest g xs now])
qed

end

lemma feed_message_all:
  assumes "canary_frame_header C" and "reliable_bus B up dst" and "\<And>d b. up b \<Longrightarrow> up (rx_call r d b)" and "up (tp_bus r)"
    and "um_find (sessions r) (src, dst) = Some (rx_session 0xFF src dst g xs 0 la)" and "dst \<noteq> 0xFF"
    and "8 < length xs" and "length xs \<le> 1785"
  shows "\<exists>r'. feed C B (map (dt_packet C dst src xs) [0..<packets_of xs]) r = Inr r'
    \<and> tp_bus r' = bus_sends B [eom_frame C (rx_session 0xFF src dst g xs 0 0)]
        (rx_call r (tp_message C src dst g xs) (tp_bus r))"
  using canary_frame_header.feed_message [OF assms(1-5) _ assms(6) packets_of_pos [OF assms(7)] assms(8)]
  unfolding cts_frames_whole [OF assms(8)] by simp

section \<open>Properties\<close>

text \<open>
  C2. A broadcast of 9 to 1785 bytes arrives: the sender announces it and sends its packets in order,
  and every receiver with a callback that is fed these frames delivers exactly this message, with the
  group and the address of the sender. Nothing else happens on either side: no error is reported, and
  the receiver sends nothing. The call itself reports success up to 1778 bytes only.
\<close>

theorem transport_broadcast_delivered:
  assumes "canary_frame_header C" and "reliable_bus B up me" and "8 < length xs" and "length xs \<le> 1785"
    and "up (tp_bus t)" and "rx_callback r = Some f"
  shows "\<exists>t' frs r'. transport_send C B xs 0xFF g t = Inr (length xs \<le> 1778, t')
    \<and> tp_bus t' = bus_sends B frs (tp_bus t) \<and> length frs = 1 + (length xs + 6) div 7
    \<and> feed C B' frs r = Inr r' \<and> tp_bus r' = f (tp_message C me 0xFF g xs) (tp_bus r)"
proof -
  obtain t' where t': "start_tx C B xs 0xFF g t = Inr (length xs \<le> 1778, t')"
    "tp_bus t' = bus_sends B (bam_frames C me g xs) (tp_bus t)"
    using reliable_bus.start_tx_bam [OF assms(2-5), of C g] unfolding bam_frames_def by blast
  let ?r = "put_session (me, 0xFF) (rx_session 0xFF me 0xFF g xs 0 (tp_now B' r)) r"
  have "um_find (sessions ?r) (me, 0xFF) = Some (rx_session 0xFF me 0xFF g xs 0 (tp_now B' r))" by simp
  from canary_frame_header.feed_broadcast [OF assms(1) this _ packets_of_pos [OF assms(3)] assms(4), of B']
  obtain r' where "feed C B' (bam_frames C me g xs) r = Inr r'" "tp_bus r' = f (tp_message C me 0xFF g xs) (tp_bus r)"
    using canary_frame_header.rx_bam [OF assms(1,4), of B' me g r] rx_call_Some [OF assms(6)]
    by (auto simp: bam_frames_def)
  then show ?thesis
    unfolding transport_send_def using t' by (intro exI [of _ t'] exI [of _ "bam_frames C me g xs"] exI [of _ r'])
      (simp add: packets_of_def)
qed

theorem transport_broadcast_delivered_witness:
  "\<exists>t' frs r'. transport_send can_header_ops (log_bus 0x10) [1, 2, 3, 4, 5, 6, 7, 8, 9] 0xFF 0xFECA log_tp = Inr (True, t')
    \<and> log_frames (tp_bus t') = frs \<and> length frs = 3 \<and> log_errors (tp_bus t') = []
    \<and> feed can_header_ops (log_bus 0x20) frs log_tp = Inr r'
    \<and> log_data (tp_bus r') = [tp_message can_header_ops 0x10 0xFF 0xFECA [1, 2, 3, 4, 5, 6, 7, 8, 9]]
    \<and> log_errors (tp_bus r') = [] \<and> log_frames (tp_bus r') = []"
  using transport_broadcast_delivered [OF can.canary_frame_header_axioms lb.reliable_bus_axioms [of "0x10"],
      where xs = "[1, 2, 3, 4, 5, 6, 7, 8, 9]" and r = log_tp and t = log_tp and f = log_rx
        and g = "0xFECA" and B' = "log_bus 0x20"]
  by (auto simp: log_bus_sends log_rx_def numeral_3_eq_3)

text \<open>
  C4. Broadcasts of any number of devices arrive however their frames are interleaved: a receiver that
  is fed all frames of one broadcast of each device, in the order of each device, delivers every message
  exactly once, and nothing else happens.
\<close>

theorem transport_broadcasts_interleave:
  assumes "canary_frame_header C" and "rx_callback r = Some f"
    and "\<And>fr. fr \<in> set frs \<Longrightarrow> fh_source_address C (header fr) \<in> A"
    and "\<And>a. a \<in> A \<Longrightarrow> 8 < length (xs a) \<and> length (xs a) \<le> 1785"
    and "\<And>a. a \<in> A \<Longrightarrow> filter (\<lambda>fr. fh_source_address C (header fr) = a) frs = bam_frames C a (g a) (xs a)"
  shows "\<exists>r' order. feed C B frs r = Inr r' \<and> distinct order \<and> set order = A
    \<and> tp_bus r' = fold f (map (\<lambda>a. tp_message C a 0xFF (g a) (xs a)) order) (tp_bus r)"
  using canary_frame_header.feed_interleaved [OF assms(1), where k = "\<lambda>a. 0" and frs = frs and A = A and xs = xs and g = g
      and r = r and f = f and B = B] assms(2-) packets_of_pos
  by (auto simp: bam_seen_def)

theorem transport_broadcasts_interleave_witness:
  "let a = bam_frames can_header_ops 0x10 0xFECA [1, 2, 3, 4, 5, 6, 7, 8, 9];
       b = bam_frames can_header_ops 0x11 0xFEDA [9, 8, 7, 6, 5, 4, 3, 2, 1, 0]
   in \<exists>r' order. feed can_header_ops (log_bus 0x20) [a ! 0, b ! 0, a ! 1, b ! 1, b ! 2, a ! 2] log_tp = Inr r'
      \<and> distinct order \<and> set order = {0x10, 0x11}
      \<and> tp_bus r' = fold log_rx (map (\<lambda>x. tp_message can_header_ops x 0xFF (if x = 0x10 then 0xFECA else 0xFEDA)
          (if x = 0x10 then [1, 2, 3, 4, 5, 6, 7, 8, 9] else [9, 8, 7, 6, 5, 4, 3, 2, 1, 0])) order) (tp_bus log_tp)"
proof -
  let ?xs = "\<lambda>x. if x = (0x10 :: address_t) then [1, 2, 3, 4, 5, 6, 7, 8, 9] else [9, 8, 7, 6, 5, 4, 3, 2, 1, 0 :: u8]"
  let ?g = "\<lambda>x. if x = (0x10 :: address_t) then 0xFECA else 0xFEDA :: pgn_t"
  let ?a = "bam_frames can_header_ops 0x10 0xFECA [1, 2, 3, 4, 5, 6, 7, 8, 9]"
  let ?b = "bam_frames can_header_ops 0x11 0xFEDA [9, 8, 7, 6, 5, 4, 3, 2, 1, 0]"
  let ?frs = "[?a ! 0, ?b ! 0, ?a ! 1, ?b ! 1, ?b ! 2, ?a ! 2]"
  have "list_all (\<lambda>fr. fh_source_address can_header_ops (header fr) \<in> {0x10, 0x11}) ?frs"
    "filter (\<lambda>fr. fh_source_address can_header_ops (header fr) = 0x10) ?frs = bam_frames can_header_ops 0x10 (?g 0x10) (?xs 0x10)"
    "filter (\<lambda>fr. fh_source_address can_header_ops (header fr) = 0x11) ?frs = bam_frames can_header_ops 0x11 (?g 0x11) (?xs 0x11)"
    by code_simp+
  then show ?thesis
    unfolding Let_def
    by (intro transport_broadcasts_interleave [OF can.canary_frame_header_axioms log_tp_simps(1)])
      (auto simp: list_all_iff simp del: filter.simps)
qed

text \<open>
  C1. A message of 9 to 1785 bytes to one device arrives: the request to send is answered with a
  clear to send, which makes the sender send the packets in order, and these make the receiver deliver
  exactly this message and acknowledge it. Nothing else happens on either side: no error is reported
  and no other frame is sent, but for the acknowledgement that the sender puts on the bus itself.
\<close>

theorem transport_message_delivered:
  assumes "canary_frame_header C" and "reliable_bus B up me" and "reliable_bus B' up' dst"
    and "8 < length xs" and "length xs \<le> 1785" and "dst \<noteq> 0xFF" and "up (tp_bus t)" and "up' (tp_bus r)"
    and "rx_callback r = Some f" and "\<And>d b. up' b \<Longrightarrow> up' (f d b)"
  shows "\<exists>t1 rts r1 cts t2 packets tail r2 eom.
    transport_send C B xs dst g t = Inr (True, t1) \<and> tp_bus t1 = bus_sends B [rts] (tp_bus t)
    \<and> on_can_frame C B' rts r = Inr r1 \<and> tp_bus r1 = bus_sends B' [cts] (tp_bus r)
    \<and> on_can_frame C B cts t1 = Inr t2 \<and> tp_bus t2 = bus_sends B (packets @ tail) (tp_bus t1)
    \<and> length packets = (length xs + 6) div 7
    \<and> tail = (if length xs \<le> 1778 then [eom_frame C (tx_session me dst g xs 0)] else [])
    \<and> feed C B' packets r1 = Inr r2
    \<and> tp_bus r2 = bus_sends B' [eom] (f (tp_message C me dst g xs) (tp_bus r1))
    \<and> fh_source_address C (header eom) = dst \<and> fh_pdu_specific C (header eom) = me"
proof -
  let ?s = "\<lambda>la. rx_session 0xFF me dst g xs 0 la"
  obtain t1 now where t1: "start_tx C B xs dst g t = Inr (True, t1)"
    "tp_bus t1 = bus_sends B [announcement C RTS 0xFF me dst g xs] (tp_bus t)"
    "um_find (sessions t1) = (um_find (sessions t))((me, dst) \<mapsto> tx_session me dst g xs now)"
    using reliable_bus.start_tx_rts [OF assms(2,4-7), of C g] by blast
  let ?cts = "cts_frame C (?s 0)"
  let ?r = "(put_session (me, dst) (?s (tp_now B' r)) r)\<lparr>tp_bus := bus_sends B' [?cts] (tp_bus r)\<rparr>"
  have r1: "on_can_frame C B' (announcement C RTS 0xFF me dst g xs) r = Inr ?r"
    using canary_frame_header.rx_rts [OF assms(1,5,6)] reliable_bus.tp_me [OF assms(3,8)] by blast
  have "up (tp_bus t1)" "up' (tp_bus ?r)"
    using t1(2) reliable_bus.send_up [OF assms(2,7)] reliable_bus.send_up [OF assms(3,8)] by simp_all
  note u = this
  have "um_find (sessions t1) (me, dst) = Some (tx_session me dst g xs now)" by (simp add: t1(3))
  from reliable_bus.handle_cts_all [OF assms(2,1,5,6) u(1) this]
  obtain t2 where t2: "on_can_frame C B ?cts t1 = Inr t2" "tp_bus t2 = bus_sends B (map (dt_packet C dst me xs) [0..<packets_of xs]
        @ (if length xs \<le> 1778 then [eom_frame C (tx_session me dst g xs 0)] else [])) (tp_bus t1)"
    by blast
  have c: "rx_call ?r = f" using rx_call_Some [OF assms(9)] by simp
  obtain r2 where r2: "feed C B' (map (dt_packet C dst me xs) [0..<packets_of xs]) ?r = Inr r2"
    "tp_bus r2 = bus_sends B' [eom_frame C (?s 0)] (f (tp_message C me dst g xs) (tp_bus ?r))"
    using feed_message_all [OF assms(1,3) _ u(2) _ assms(6,4,5), of me g "tp_now B' r"] assms(10) unfolding c by auto
  show ?thesis
    unfolding transport_send_def using t1 r1 t2 r2
    by (intro exI conjI) (assumption | simp add: packets_of_def canary_frame_header.base_frame_addresses [OF assms(1)])+
qed

theorem transport_message_delivered_witness:
  "\<exists>t1 rts r1 cts t2 packets tail r2 eom.
    transport_send can_header_ops (log_bus 0x10) [1, 2, 3, 4, 5, 6, 7, 8, 9] 0x20 0xEF00 log_tp = Inr (True, t1)
    \<and> log_frames (tp_bus t1) = [rts]
    \<and> on_can_frame can_header_ops (log_bus 0x20) rts log_tp = Inr r1 \<and> log_frames (tp_bus r1) = [cts]
    \<and> on_can_frame can_header_ops (log_bus 0x10) cts t1 = Inr t2 \<and> log_frames (tp_bus t2) = rts # packets @ tail
    \<and> length packets = 2 \<and> feed can_header_ops (log_bus 0x20) packets r1 = Inr r2
    \<and> log_data (tp_bus r2) = [tp_message can_header_ops 0x10 0x20 0xEF00 [1, 2, 3, 4, 5, 6, 7, 8, 9]]
    \<and> log_frames (tp_bus r2) = [cts, eom] \<and> log_errors (tp_bus t2) = [] \<and> log_errors (tp_bus r2) = []"
  using transport_message_delivered [OF can.canary_frame_header_axioms lb.reliable_bus_axioms [of "0x10"]
      lb.reliable_bus_axioms [of "0x20"], where xs = "[1, 2, 3, 4, 5, 6, 7, 8, 9]"
      and r = log_tp and t = log_tp and f = log_rx and g = "0xEF00"]
  unfolding log_bus_sends by (simp add: log_rx_def) (elim exE conjE, intro exI conjI, (assumption | simp)+)





end
