(* ===== verification/Jay_Transport_Safety.thy ===== *)
theory Jay_Transport_Safety
  imports Jay_Transfer
begin

unbundle bit_operations_syntax

text \<open>
  What the transport protocol keeps whatever arrives: no access outside a buffer and no division by
  zero as long as the control frames are consistent, the fate of packets out of order, and timeouts.
\<close>

section \<open>Sessions in bounds\<close>

text \<open>
  The packets of a session start inside its buffer, and the window of a session of another device is
  not empty; \<open>A\<close> are the addresses that the local device may have.
\<close>

definition session_ok :: "address_t set \<Rightarrow> Key \<Rightarrow> TpSession \<Rightarrow> bool" where
  "session_ok A key s \<longleftrightarrow> 7 * (unat (total_packets s) - 1) \<le> length (buffer s)
     \<and> length (buffer s) < 2 ^ 16 \<and> (fst key \<notin> A \<longrightarrow> window_size s \<noteq> 0)"

definition tp_ok :: "address_t set \<Rightarrow> ('h, 'b) tp \<Rightarrow> bool" where
  "tp_ok A t \<longleftrightarrow> list_all (\<lambda>(key, s). session_ok A key s) (sessions t)"

text \<open>
  The control frames a well-behaved device sends: an announcement has no more packets than its length
  allows and a window, and a clear-to-send asks for packets 1 to 255.
\<close>

definition frame_sane :: "'h canary_header \<Rightarrow> address_t set \<Rightarrow> 'h frame \<Rightarrow> bool" where
  "frame_sane C A fr \<longleftrightarrow> length (payload fr) = 8
     \<and> (fh_pgn C (header fr) = PGN_TP_CM \<or> fh_pgn C (header fr) = PGN_TP_DT \<longrightarrow> fh_source_address C (header fr) \<notin> A)
     \<and> (fh_pgn C (header fr) = PGN_TP_CM \<longrightarrow>
         (payload fr ! 0 = to_byte RTS \<or> payload fr ! 0 = to_byte BAM \<longrightarrow>
            7 * (unat (payload fr ! 3) - 1) \<le> unat (payload_length16 fr))
       \<and> (payload fr ! 0 = to_byte RTS \<longrightarrow> payload fr ! 4 \<noteq> 0)
       \<and> (payload fr ! 0 = to_byte CTS \<longrightarrow>
            payload fr ! 2 \<noteq> 0 \<and> unat (payload fr ! 1) + unat (payload fr ! 2) \<le> 256))"

lemma tp_ok_find: "tp_ok A t \<Longrightarrow> um_find (sessions t) key = Some s \<Longrightarrow> session_ok A key s"
  by (auto simp: tp_ok_def list_all_iff um_find_def dest: map_of_SomeD)

lemma set_um_assign: "set (um_assign k v m) \<subseteq> insert (k, v) (set m)"
  unfolding um_assign_def by (induction m) auto

lemma tp_ok_put: "tp_ok A t \<Longrightarrow> session_ok A key s \<Longrightarrow> tp_ok A (put_session key s t)"
  using set_um_assign [of key s "sessions t"] by (auto simp: tp_ok_def list_all_iff put_session_def)

lemma session_ok_cong:
  "total_packets s' = total_packets s \<Longrightarrow> length (buffer s') = length (buffer s) \<Longrightarrow>
   window_size s' = window_size s \<Longrightarrow> session_ok A key s' = session_ok A key s"
  by (simp add: session_ok_def)

lemma tp_ok_sessions: "sessions t = sessions t' \<Longrightarrow> tp_ok A t = tp_ok A t'"
  by (simp add: tp_ok_def)


text \<open>Operations that only send or report.\<close>

lemma report_error_frame [simp]:
  "sessions (report_error what ec t) = sessions t" "tick_timer (report_error what ec t) = tick_timer t"
  "rx_callback (report_error what ec t) = rx_callback t" "error_callback (report_error what ec t) = error_callback t"
  "tp_bus (report_error what ec t) = error_call t what ec (tp_bus t)"
  by (simp_all add: report_error_eq)

lemma tp_send_frame [simp]:
  "sessions (snd (tp_send B fr t)) = sessions t" "tick_timer (snd (tp_send B fr t)) = tick_timer t"
  "rx_callback (snd (tp_send B fr t)) = rx_callback t" "error_callback (snd (tp_send B fr t)) = error_callback t"
  "tp_bus (snd (tp_send B fr t)) = snd (bus_send B fr (tp_bus t))" "error_call (snd (tp_send B fr t)) = error_call t"
  by (simp_all add: tp_send_eq)

lemma sending_frame [simp]:
  "sessions (snd (send_abort C B s code t)) = sessions t" "sessions (snd (send_eom_ack C B s t)) = sessions t"
  "sessions (response_cts C B s t) = sessions t" "sessions (deliver C s t) = sessions t"
  by (simp_all add: send_abort_frame response_cts_frame send_eom_ack_def deliver_def Let_def split_beta split: option.split)

section \<open>Sending in bounds\<close>

lemma packet_offset_unat:
  assumes "seq \<noteq> 0"
  shows "packet_offset seq = 7 * (unat seq - 1)"
proof -
  have "unat seq < 2 ^ LENGTH(8)" by (rule unsigned_less)
  moreover have "Suc (unat seq - 1) = unat seq" using assms unat_gt_0 [of seq] by simp
  ultimately show ?thesis
    using packet_offset_Suc [of "unat seq - 1"] by (simp del: of_nat_Suc One_nat_def)
qed

lemma packet_in_buffer:
  assumes "session_ok A key s" and "seq \<noteq> 0" and "seq \<le> total_packets s"
  shows "packet_offset seq + packet_avail (length (buffer s)) (packet_offset seq) \<le> length (buffer s)"
    and "packet_avail (length (buffer s)) (packet_offset seq) \<le> 7"
proof -
  have "unat seq - 1 \<le> unat (total_packets s) - 1" using assms(3) by (simp add: word_le_nat_alt diff_le_mono)
  then have o: "packet_offset seq \<le> length (buffer s)"
    using assms(1,2) by (simp add: session_ok_def packet_offset_unat)
  moreover have "packet_avail (length (buffer s)) (packet_offset seq) = min 7 (length (buffer s) - packet_offset seq)"
    using o assms(1) by (intro packet_avail_le) (simp_all add: session_ok_def)
  ultimately show "packet_offset seq + packet_avail (length (buffer s)) (packet_offset seq) \<le> length (buffer s)"
    "packet_avail (length (buffer s)) (packet_offset seq) \<le> 7" by simp_all
qed

lemma data_packet_defined:
  assumes "session_ok A key s" and "next_seq s \<noteq> 0" and "next_seq s \<le> total_packets s"
  shows "\<exists>fr. data_packet C s = Inr fr"
  using packet_in_buffer [OF assms]
  by (simp add: data_packet_def Let_def read_bytes_def write_bytes_def make_dt_frame_def)

lemma send_dt_loop_defined:
  assumes "session_ok A key s" and "n = 0 \<or> next_seq s \<noteq> 0" and "n + unat (next_seq s) \<le> 256"
  shows "\<exists>ok s' t'. send_dt_loop C B n s t = Inr (ok, s', t') \<and> sessions t' = sessions t
    \<and> session_ok A key s'"
  using assms
proof (induction n arbitrary: s t)
  case (Suc n)
  show ?case
  proof (cases "next_seq s \<le> total_packets s")
    case True
    obtain fr where fr: "data_packet C s = Inr fr"
      using data_packet_defined [OF Suc.prems(1) _ True] Suc.prems(2) by auto
    let ?t = "snd (tp_send B fr t)"
    let ?s = "s\<lparr>last_activity := tp_now B ?t, next_seq := next_seq s + 1\<rparr>"
    have "session_ok A key ?s" using Suc.prems(1) by (simp add: session_ok_def)
    moreover have "n = 0 \<or> next_seq ?s \<noteq> 0" "n + unat (next_seq ?s) \<le> 256"
      using Suc.prems(3) unsigned_less [of "next_seq s", where 'a = nat]
      by (auto simp: unat_word_ariths word_unat_eq_iff mod_if)
    ultimately have "\<exists>ok s' t'. send_dt_loop C B n ?s ?t = Inr (ok, s', t') \<and> sessions t' = sessions ?t
        \<and> session_ok A key s'"
      by (rule Suc.IH)
    then show ?thesis using True fr Suc.prems(1) by (auto simp: split_beta Let_def)
  qed (use Suc.prems in auto)
qed auto

lemma send_data_packets_defined:
  assumes "session_ok A key s" and "next_seq s \<noteq> 0" and "unat (window_size s) + unat (next_seq s) \<le> 256"
  shows "\<exists>ok s' t'. send_data_packets C B s t = Inr (ok, s', t') \<and> sessions t' = sessions t
    \<and> session_ok A key s'"
proof -
  obtain ok s' t' where l: "send_dt_loop C B (unat (window_size s)) s t = Inr (ok, s', t')"
    "sessions t' = sessions t" "session_ok A key s'"
    using send_dt_loop_defined [OF assms(1) _ assms(3), of C B t] assms(2) by blast
  moreover have "session_ok A key (s'\<lparr>state := x\<rparr>)" for x using l(3) by (simp add: session_ok_def)
  ultimately show ?thesis by (auto simp: send_data_packets_def)
qed

lemma start_tx_defined:
  assumes "tp_ok A t" and "tp_source_address B t \<in> A"
  shows "\<exists>ok t'. start_tx C B xs dest g t = Inr (ok, t') \<and> tp_ok A t'"
proof (cases "8 < length xs \<and> length xs \<le> 1785")
  case False
  then show ?thesis using assms(1) by (auto simp: start_tx_def tp_ok_def)
next
  case True
  define me where "me = tp_source_address B t"
  have s: "session_ok A (me, dest) (tx_session me dest g xs now)" for now
    using True assms(2) unat_packets [of xs] by (simp add: session_ok_def packets_of_def me_def)
  let ?s = "tx_session me dest g xs (tp_now B t)"
  let ?t = "put_session (me, dest) ?s t"
  note ok = tp_ok_put [OF assms(1) s]
  show ?thesis
  proof (cases "dest = 0xFF")
    case bc: True
    let ?t1 = "snd (tp_send B (fill_tp_payload ?s (make_cm_frame C BAM J1939_NO_ADDR (src_sa ?s))) ?t)"
    obtain ok s' t' where d: "send_data_packets C B (tx_session me dest g xs (tp_now B ?t1)) ?t1 = Inr (ok, s', t')"
        "sessions t' = sessions ?t1" "session_ok A (me, dest) s'"
      using send_data_packets_defined [OF s, of "tp_now B ?t1" C B ?t1] by auto
    have "\<exists>ok s' t'. send_bam_start C B ?s ?t = Inr (ok, s', t') \<and> sessions t' = sessions ?t
      \<and> session_ok A (me, dest) s'"
      using d s by (auto simp: send_bam_start_def Let_def split_beta)
    then show ?thesis
      using True bc ok tp_ok_put tp_ok_sessions by (fastforce simp: start_tx_cases Let_def me_def [symmetric])
  next
    case nb: False
    have "\<exists>ok s' t'. send_rts C B ?s ?t = (ok, s', t') \<and> sessions t' = sessions ?t
      \<and> session_ok A (me, dest) s'"
      using s by (auto simp: send_rts_def Let_def split_beta)
    then show ?thesis
      using True nb ok tp_ok_put tp_ok_sessions by (fastforce simp: start_tx_cases Let_def me_def [symmetric])
  qed
qed

section \<open>Receiving in bounds\<close>

lemma handle_cts_defined:
  assumes "tp_ok A t" and "tp_source_address B t \<in> A"
    and "payload fr ! 2 \<noteq> 0" and "unat (payload fr ! 1) + unat (payload fr ! 2) \<le> 256"
  shows "\<exists>t'. handle_cts C B fr t = Inr t' \<and> tp_ok A t'"
proof (cases "um_find (sessions t) (tp_source_address B t, fh_source_address C (header fr))")
  case None
  then show ?thesis using assms(1,2) by (simp add: handle_cts_def make_key_def Let_def tp_ok_def)
next
  case (Some s)
  let ?k = "(tp_source_address B t, fh_source_address C (header fr))"
  let ?s = "s\<lparr>window_size := payload fr ! 1, next_seq := payload fr ! 2\<rparr>"
  have "session_ok A ?k ?s" using tp_ok_find [OF assms(1) Some] assms(2) by (simp add: session_ok_def)
  then obtain ok s' t' where "send_data_packets C B ?s t = Inr (ok, s', t')" "sessions t' = sessions t"
      "session_ok A ?k s'"
    using send_data_packets_defined [of A ?k ?s C B t] assms(3,4) by auto
  moreover from this have "tp_ok A (put_session ?k s' t')"
    using assms(1) tp_ok_put tp_ok_sessions by blast
  ultimately show ?thesis using Some by (simp add: handle_cts_def make_key_def Let_def)
qed

lemma tp_ok_reject: "tp_ok A t \<Longrightarrow> session_ok A key s \<Longrightarrow> tp_ok A (dt_reject C B key s code what t)"
  using tp_ok_put [of A t key "s\<lparr>state := ABorted\<rparr>"] session_ok_cong [of "s\<lparr>state := ABorted\<rparr>" s]
  by (simp add: dt_reject_def Let_def tp_ok_def)

lemma handle_dt_defined:
  assumes "tp_ok A t" and "length (payload fr) = 8" and "fh_source_address C (header fr) \<notin> A"
  shows "\<exists>t'. handle_dt C B fr t = Inr t' \<and> tp_ok A t'"
proof (cases "um_find (sessions t) (fh_source_address C (header fr), fh_pdu_specific C (header fr))")
  case None
  then show ?thesis using assms(1) by (simp add: handle_dt_def make_key_def Let_def tp_ok_def)
next
  case (Some s)
  let ?k = "(fh_source_address C (header fr), fh_pdu_specific C (header fr))" and ?seq = "payload fr ! 0"
  note ok = tp_ok_find [OF assms(1) Some]
  show ?thesis
  proof (cases "?seq < 1 \<or> ?seq > total_packets s \<or> ?seq < next_seq s \<or> ?seq \<noteq> next_seq s")
    case True
    then show ?thesis
      using Some tp_ok_reject [OF assms(1) ok] by (auto simp: handle_dt_def make_key_def Let_def)
  next
    case False
    then have n: "next_seq s = ?seq" "?seq \<noteq> 0" "?seq \<le> total_packets s"
      by (auto simp: word_less_1)
    let ?av = "packet_avail (length (buffer s)) (packet_offset ?seq)"
    obtain buf where w: "write_bytes (packet_offset ?seq) (take ?av (drop 1 (payload fr))) (buffer s) = Inr buf"
        and l: "length buf = length (buffer s)"
      using packet_in_buffer [OF ok n(2,3)] assms(2) by (auto simp: write_bytes_def)
    let ?s = "s\<lparr>buffer := buf, next_seq := ?seq + 1, last_activity := tp_now B t\<rparr>"
    have s: "session_ok A ?k ?s" "session_ok A ?k (?s\<lparr>state := Completed\<rparr>)" "window_size s \<noteq> 0"
      using ok l assms(3) by (simp_all add: session_ok_def)
    have d: "tp_ok A (deliver C ?s t)" using assms(1) by (simp add: tp_ok_def)
    have "tp_ok A (put_session ?k ?s t)" "tp_ok A (put_session ?k ?s (deliver C ?s t))"
        "tp_ok A (put_session ?k (?s\<lparr>state := Completed\<rparr>) (deliver C ?s t))"
      using tp_ok_put assms(1) d s by blast+
    then show ?thesis
      using Some False w s(3) by (auto simp: handle_dt_def make_key_def Let_def n(1) tp_ok_def)
  qed
qed

lemma start_rx_ok:
  assumes "tp_ok A t" and "fh_source_address C (header fr) \<notin> A"
    and "7 * (unat (payload fr ! 3) - 1) \<le> unat (payload_length16 fr)"
  shows "tp_ok A (start_rx_bam C B fr t)" and "payload fr ! 4 \<noteq> 0 \<Longrightarrow> tp_ok A (start_rx_rts C B fr t)"
proof -
  have l: "unat (payload_length16 fr) < 2 ^ LENGTH(16)" by (rule unsigned_less)
  show "tp_ok A (start_rx_bam C B fr t)"
    unfolding start_rx_bam_def Let_def using assms l
    by (intro tp_ok_put) (simp_all add: session_ok_def session_default_def make_key_def)
  assume "payload fr ! 4 \<noteq> 0"
  then have "tp_ok A (put_session (make_key (fh_source_address C (header fr)) d) (session_default\<lparr>dir := Rx,
      len := payload_length16 fr, total_packets := payload fr ! 3, window_size := payload fr ! 4,
      dest_sa := d', src_sa := a, s_pgn := g, buffer := replicate (unat (payload_length16 fr)) 0,
      last_activity := now, next_seq := 1\<rparr>) t)" for d d' a g now
    using assms l by (intro tp_ok_put) (simp_all add: session_ok_def session_default_def make_key_def)
  then show "tp_ok A (start_rx_rts C B fr t)"
    using assms(1) by (simp add: start_rx_rts_def Let_def tp_ok_def session_default_def)
qed

lemma tp_ok_put_state:
  "tp_ok A t \<Longrightarrow> um_find (sessions t) key = Some s \<Longrightarrow> tp_ok A (put_session key (s\<lparr>state := x\<rparr>) t)"
  using tp_ok_find [of A t key s] by (intro tp_ok_put) (simp_all add: session_ok_def)

lemma complete_rx_ok: "tp_ok A t \<Longrightarrow> tp_ok A (complete_rx C B fr t)"
  using tp_ok_put_state by (fastforce simp: complete_rx_def Let_def tp_ok_def split: option.split)

lemma handle_abort_ok: "tp_ok A t \<Longrightarrow> tp_ok A (handle_abort C B fr t)"
  using tp_ok_put_state by (fastforce simp: handle_abort_def Let_def tp_ok_def split: option.split)

lemma on_can_frame_defined:
  assumes "tp_ok A t" and "tp_source_address B t \<in> A" and "frame_sane C A fr"
  shows "\<exists>t'. on_can_frame C B fr t = Inr t' \<and> tp_ok A t'"
proof (cases "fh_pgn C (header fr) = PGN_TP_CM")
  case True
  have e: "to_byte RTS \<noteq> to_byte CTS" by simp
  show ?thesis
    using True assms start_rx_ok [OF assms(1), of C fr B] handle_cts_defined [OF assms(1,2), of fr C]
      complete_rx_ok [OF assms(1), of C B fr] handle_abort_ok [OF assms(1), of C B fr]
    unfolding on_can_frame_def handle_cm_def Let_def frame_sane_def by (auto split: if_splits)
next
  case False
  then show ?thesis
    using assms(1,3) handle_dt_defined [OF assms(1), of fr C B]
    by (auto simp: on_can_frame_def frame_sane_def)
qed

section \<open>Timeouts\<close>

definition timed_out :: "int \<Rightarrow> Key \<times> TpSession \<Rightarrow> bool" where
  "timed_out now ks \<longleftrightarrow> now - last_activity (snd ks) > 1250"

definition drop_session :: "'h canary_header \<Rightarrow> ('h, 'b) bus \<Rightarrow> Key \<times> TpSession \<Rightarrow> ('h, 'b) tp \<Rightarrow> ('h, 'b) tp" where
  "drop_session C B ks t = report_error ''tp timeout'' Timed_out (snd (send_abort C B (snd ks) Timeout t))"

text \<open>Both timeouts are shorter than the one for cleaning up, whose branch is never taken.\<close>

lemma tick_loop_eq:
  "tick_loop C B now m t =
     (filter (\<lambda>ks. \<not> timed_out now ks) m, fold (drop_session C B) (filter (timed_out now) m) t)"
  by (induction C B now m t rule: tick_loop.induct)
    (auto simp: timed_out_def drop_session_def T2_def T3_def SessionCleanTimeout_def Let_def)

lemma drop_sessions:
  "rx_callback (fold (drop_session C B) m t) = rx_callback t"
  "error_callback (fold (drop_session C B) m t) = error_callback t"
  "tick_timer (fold (drop_session C B) m t) = tick_timer t"
  "tp_bus (fold (drop_session C B) m t) = fold (\<lambda>ks b. error_call t ''tp timeout'' Timed_out
     (snd (bus_send B (abort_frame C (snd ks) Timeout) b))) m (tp_bus t)"
  by (induction m arbitrary: t) (simp_all add: drop_session_def send_abort_frame report_error_eq tp_send_eq)

lemma tick_ok: "tp_ok A t \<Longrightarrow> tp_ok A (tick C B t)"
  by (auto simp: tick_def Let_def tick_loop_eq tp_ok_def list_all_iff)

lemma on_tick_timer_ok: "tp_ok A t \<Longrightarrow> tp_ok A (on_tick_timer C B ec t)"
  using tick_ok [of A "t\<lparr>tick_timer := None\<rparr>" C B]
  by (auto simp: on_tick_timer_def start_tick_def tp_ok_def Let_def split: option.split)

lemma send_eom_frame:
  "send_eom_ack C B s t = (if bam s then (True, t)
     else let (ok, t) = tp_send B (eom_frame C s) t
       in if \<not> ok then (False, report_error ''tp send EOM'' Io_error t) else (True, t))"
  by (simp add: send_eom_ack_def eom_frame_def Let_def)

section \<open>What the surroundings keep\<close>

text \<open>
  A property of the surroundings that sending and the callbacks keep is kept by all operations, which
  also leave the callbacks as they are. Sending has to keep it for the frames in \<open>Q\<close> only: all frames
  that the protocol builds have a header from \<^verbatim>\<open>make_base_frame\<close> and eight bytes.
\<close>

definition keeps :: "('b \<Rightarrow> bool) \<Rightarrow> ('h, 'b) on_data option \<Rightarrow> 'b on_error option \<Rightarrow> ('h, 'b) tp \<Rightarrow> bool" where
  "keeps P rx err t \<longleftrightarrow> P (tp_bus t) \<and> rx_callback t = rx \<and> error_callback t = err"

locale bus_invariant =
  fixes C :: "'h canary_header" and B :: "('h, 'b) bus" and Q :: "'h frame \<Rightarrow> bool" and P :: "'b \<Rightarrow> bool"
    and rx :: "('h, 'b) on_data option" and err :: "'b on_error option"
  assumes base_built: "header fr = header (make_base_frame C pgn dst src) \<Longrightarrow> pgn = PGN_TP_CM \<or> pgn = PGN_TP_DT \<Longrightarrow>
      length (payload fr) = 8 \<Longrightarrow> Q fr"
    and send_keeps: "Q fr \<Longrightarrow> P b \<Longrightarrow> P (snd (bus_send B fr b))"
    and rx_keeps: "rx = Some f \<Longrightarrow> P b \<Longrightarrow> P (f d b)"
    and err_keeps: "err = Some g \<Longrightarrow> P b \<Longrightarrow> P (g what ec b)"
begin

lemma control_built [intro, simp]:
  "Q (fill_tp_payload s (make_cm_frame C ctrl dst src))" "Q (cts_frame C s)" "Q (eom_frame C s)" "Q (abort_frame C s code)"
  by (rule base_built [of _ PGN_TP_CM dst src] base_built [of _ PGN_TP_CM "src_sa s" "dest_sa s"];
      simp add: fill_tp_payload_def make_cm_frame_def cts_frame_def eom_frame_def abort_frame_def make_base_frame_def Let_def)+

lemma packet_built: "data_packet C s = Inr fr \<Longrightarrow> Q fr"
  by (rule base_built [of _ PGN_TP_DT "dest_sa s" "src_sa s"])
    (auto simp: data_packet_def make_dt_frame_def write_bytes_def make_base_frame_def Let_def split: sum.splits if_splits)

lemma keeps_basic [intro]:
  "keeps P rx err t \<Longrightarrow> keeps P rx err (t\<lparr>sessions := m\<rparr>)" "keeps P rx err t \<Longrightarrow> keeps P rx err (t\<lparr>tick_timer := x\<rparr>)"
  "keeps P rx err t \<Longrightarrow> keeps P rx err (put_session key s t)"
  "keeps P rx err t \<Longrightarrow> Q fr \<Longrightarrow> keeps P rx err (snd (tp_send B fr t))"
  "keeps P rx err t \<Longrightarrow> keeps P rx err (report_error what ec t)"
  by (simp_all add: keeps_def tp_send_eq send_keeps) (auto simp: error_call_def err_keeps split: option.split)

lemma keeps_deliver [intro]: "keeps P rx err t \<Longrightarrow> keeps P rx err (deliver C s t)"
  by (auto simp: keeps_def deliver_def rx_keeps Let_def split: option.split)

lemma keeps_sending [intro]:
  "keeps P rx err t \<Longrightarrow> keeps P rx err (snd (send_abort C B s code t))" "keeps P rx err t \<Longrightarrow> keeps P rx err (snd (send_eom_ack C B s t))"
  "keeps P rx err t \<Longrightarrow> keeps P rx err (response_cts C B s t)"
  by (auto simp: send_abort_frame response_cts_frame send_eom_frame Let_def split_beta)

lemma keeps_reject [intro]: "keeps P rx err t \<Longrightarrow> keeps P rx err (dt_reject C B key s code what t)"
  by (auto simp: dt_reject_def Let_def)

lemma keeps_dt_loop: "keeps P rx err t \<Longrightarrow> send_dt_loop C B n s t = Inr (ok, s', t') \<Longrightarrow> keeps P rx err t'"
proof (induction n arbitrary: s t)
  case (Suc n)
  then show ?case
    by (auto simp: Let_def split_beta dest!: packet_built split: if_splits sum.splits)
qed auto

lemma keeps_data_packets: "keeps P rx err t \<Longrightarrow> send_data_packets C B s t = Inr (ok, s', t') \<Longrightarrow> keeps P rx err t'"
  by (auto simp: send_data_packets_def split: sum.splits prod.splits if_splits dest: keeps_dt_loop)

lemma keeps_bam_start: "keeps P rx err t \<Longrightarrow> send_bam_start C B s t = Inr (ok, s', t') \<Longrightarrow> keeps P rx err t'"
  using keeps_data_packets keeps_basic(4)
  by (fastforce simp: send_bam_start_def Let_def split_beta split: if_splits)

lemma keeps_rts: "keeps P rx err t \<Longrightarrow> keeps P rx err (snd (snd (send_rts C B s t)))"
  by (auto simp: send_rts_def Let_def split_beta)

lemma keeps_start_tx:
  assumes "keeps P rx err t" and "start_tx C B xs dest g t = Inr (ok, t')"
  shows "keeps P rx err t'"
proof (cases "8 < length xs \<and> length xs \<le> 1785")
  case True
  let ?me = "tp_source_address B t"
  let ?s = "tx_session ?me dest g xs (tp_now B t)"
  let ?t = "put_session (?me, dest) ?s t"
  have k: "keeps P rx err ?t" using assms(1) by blast
  show ?thesis
    using assms(2) True keeps_bam_start [OF k, of ?s] keeps_rts [OF k, of ?s]
    by (auto simp: start_tx_cases Let_def split: if_splits sum.splits prod.splits)
qed (use assms in \<open>auto simp: start_tx_def split: if_splits\<close>)

lemma keeps_frame: "keeps P rx err t \<Longrightarrow> on_can_frame C B fr t = Inr t' \<Longrightarrow> keeps P rx err t'"
  by (auto simp: on_can_frame_def handle_cm_def handle_cts_def handle_dt_def start_rx_rts_def start_rx_bam_def
      complete_rx_def handle_abort_def Let_def split: if_splits option.splits sum.splits prod.splits
      dest: keeps_data_packets)

lemma keeps_tick: "keeps P rx err t \<Longrightarrow> keeps P rx err (on_tick_timer C B ec t)"
proof -
  have "keeps P rx err t \<Longrightarrow> keeps P rx err (drop_session C B ks t)" for t ks by (auto simp: drop_session_def)
  then have f: "keeps P rx err t \<Longrightarrow> keeps P rx err (fold (drop_session C B) m t)" for t m
    by (induction m arbitrary: t) simp_all
  show "keeps P rx err t \<Longrightarrow> keeps P rx err (on_tick_timer C B ec t)"
    by (auto simp: on_tick_timer_def start_tick_def tick_def tick_loop_eq Let_def split: option.split
        intro!: keeps_basic(1,2) f)
qed

end

section \<open>Sequences of events\<close>

datatype 'h tp_event = Frame_arrives "'h frame" | Message_sent "u8 list" address_t pgn_t | Timer_ends bool

fun tp_handle :: "'h canary_header \<Rightarrow> ('h, 'b) bus \<Rightarrow> 'h tp_event \<Rightarrow> ('h, 'b) tp \<Rightarrow> ub + ('h, 'b) tp" where
  "tp_handle C B (Frame_arrives fr) t = on_can_frame C B fr t"
| "tp_handle C B (Message_sent xs dest g) t = map_sum id snd (transport_send C B xs dest g t)"
| "tp_handle C B (Timer_ends ec) t = Inr (on_tick_timer C B ec t)"

fun tp_run :: "'h canary_header \<Rightarrow> ('h, 'b) bus \<Rightarrow> 'h tp_event list \<Rightarrow> ('h, 'b) tp \<Rightarrow> ub + ('h, 'b) tp" where
  "tp_run C B [] t = Inr t"
| "tp_run C B (e # es) t = (case tp_handle C B e t of Inl u \<Rightarrow> Inl u | Inr t \<Rightarrow> tp_run C B es t)"

fun event_sane :: "'h canary_header \<Rightarrow> address_t set \<Rightarrow> 'h tp_event \<Rightarrow> bool" where
  "event_sane C A (Frame_arrives fr) = frame_sane C A fr"
| "event_sane C A e = True"

lemma tp_handle_defined:
  assumes "tp_ok A t" and "tp_source_address B t \<in> A" and "event_sane C A e"
  shows "\<exists>t'. tp_handle C B e t = Inr t' \<and> tp_ok A t'"
proof (cases e)
  case (Frame_arrives fr)
  then show ?thesis using on_can_frame_defined [OF assms(1,2), of C fr] assms(3) by simp
next
  case (Message_sent xs dest g)
  obtain ok t' where "start_tx C B xs dest g t = Inr (ok, t')" "tp_ok A t'"
    using start_tx_defined [OF assms(1,2)] by blast
  then show ?thesis using Message_sent by (simp add: transport_send_def)
next
  case (Timer_ends ec)
  then show ?thesis using on_tick_timer_ok [OF assms(1)] by simp
qed

section \<open>Properties\<close>



text \<open>
  C28. A data packet that is not the next one of its session is refused: the session is marked as
  aborted, its buffer and its position stay, and an abort with the reason is sent and then an error is
  reported. Nothing is delivered.
\<close>

theorem transport_rejects_out_of_order:
  assumes "fh_pgn C (header fr) = PGN_TP_DT"
    and "um_find (sessions t) (fh_source_address C (header fr), fh_pdu_specific C (header fr)) = Some s"
    and "payload fr ! 0 \<noteq> next_seq s \<or> payload fr ! 0 = 0 \<or> payload fr ! 0 > total_packets s"
  shows "\<exists>t' code what. on_can_frame C B fr t = Inr t'
    \<and> um_find (sessions t') = (um_find (sessions t))
        ((fh_source_address C (header fr), fh_pdu_specific C (header fr)) \<mapsto> s\<lparr>state := ABorted\<rparr>)
    \<and> tp_bus t' = error_call t what Fault (bus_sends B [abort_frame C s code] (tp_bus t))
    \<and> code = (if payload fr ! 0 \<noteq> 0 \<and> payload fr ! 0 \<le> total_packets s \<and> payload fr ! 0 < next_seq s
        then DuplicateSeq else BadSequence)"
proof -
  let ?k = "(fh_source_address C (header fr), fh_pdu_specific C (header fr))"
  let ?code = "if payload fr ! 0 \<noteq> 0 \<and> payload fr ! 0 \<le> total_packets s \<and> payload fr ! 0 < next_seq s
    then DuplicateSeq else BadSequence"
  have z: "payload fr ! 0 < 1 \<longleftrightarrow> payload fr ! 0 = 0" by (simp add: word_less_1)
  let ?what = "if payload fr ! 0 = 0 \<or> payload fr ! 0 > total_packets s then ''dt bad sequence''
    else if payload fr ! 0 < next_seq s then ''dt duplicate sequence'' else ''dt unexpected sequence''"
  have h: "on_can_frame C B fr t = Inr (dt_reject C B ?k s ?code ?what t)"
    using assms unfolding on_can_frame_def handle_dt_def make_key_def Let_def z
    by (cases "payload fr ! 0 = 0"; cases "payload fr ! 0 > total_packets s"; cases "payload fr ! 0 < next_seq s")
      (auto simp: tp_pgns not_less)
  show ?thesis
    unfolding h
    by (intro exI [of _ "dt_reject C B ?k s ?code ?what t"] exI [of _ ?code] exI [of _ ?what])
      (simp add: dt_reject_def Let_def send_abort_frame answer_cong)
qed

theorem transport_rejects_out_of_order_witness:
  "\<exists>t' code. on_can_frame can_header_ops (log_bus 0x20)
      ((make_base_frame can_header_ops PGN_TP_DT 0xFF 0x10)\<lparr>payload := [2, 0, 0, 0, 0, 0, 0, 0]\<rparr>)
      (log_tp\<lparr>sessions := [((0x10, 0xFF), session_default\<lparr>total_packets := 2\<rparr>)]\<rparr>) = Inr t'
    \<and> um_find (sessions t') (0x10, 0xFF) = Some (session_default\<lparr>total_packets := 2, state := ABorted\<rparr>)
    \<and> log_data (tp_bus t') = [] \<and> length (log_errors (tp_bus t')) = 1
    \<and> log_frames (tp_bus t') = [abort_frame can_header_ops (session_default\<lparr>total_packets := 2\<rparr>) code]
    \<and> code = BadSequence"
proof -
  let ?fr = "(make_base_frame can_header_ops PGN_TP_DT 0xFF 0x10)\<lparr>payload := [2, 0, 0, 0, 0, 0, 0, 0]\<rparr>"
  let ?t = "log_tp\<lparr>sessions := [((0x10, 0xFF), session_default\<lparr>total_packets := 2\<rparr>)]\<rparr>"
  have "fh_pgn can_header_ops (header ?fr) = PGN_TP_DT" "fh_source_address can_header_ops (header ?fr) = 0x10"
    "fh_pdu_specific can_header_ops (header ?fr) = 0xFF"
    by code_simp+
  moreover have "um_find (sessions ?t) (0x10, 0xFF) = Some (session_default\<lparr>total_packets := 2\<rparr>)"
    by (simp add: um_find_def)
  ultimately show ?thesis
    using transport_rejects_out_of_order [where t = ?t and fr = ?fr and C = can_header_ops and B = "log_bus 0x20"
        and s = "session_default\<lparr>total_packets := 2\<rparr>"]
    by (auto simp: session_default_def log_bus_sends log_error_def error_call_def)
qed

text \<open>
  C29. When the timer ends, exactly the sessions without activity for more than 1250 ms are dropped,
  for each of them an abort is sent and a timeout is reported, nothing is delivered, and the timer is
  started again with its period. A session never stays longer than that because of its state: also
  a finished one is reported as timed out.
\<close>

theorem transport_timeouts:
  assumes "tick_timer t = Some period"
  shows "sessions (on_tick_timer C B False t) = filter (\<lambda>ks. \<not> timed_out (tp_now B t) ks) (sessions t)
    \<and> tp_bus (on_tick_timer C B False t) = fold (\<lambda>(key, s) b. error_call t ''tp timeout'' Timed_out
        (bus_sends B [abort_frame C s Timeout] b)) (filter (timed_out (tp_now B t)) (sessions t)) (tp_bus t)
    \<and> tick_timer (on_tick_timer C B False t) = Some period"
  using assms
  by (simp add: on_tick_timer_def start_tick_def tick_def tick_loop_eq Let_def drop_sessions tp_now_def case_prod_unfold)

theorem transport_timeouts_witness:
  "let s = tx_session 0x10 0xFF 0xFECA [1, 2, 3, 4, 5, 6, 7, 8, 9] 0;
       t = log_tp\<lparr>tp_bus := (tp_bus log_tp)\<lparr>log_now := 2000\<rparr>,
         sessions := [((0x10, 0xFF), s\<lparr>state := Completed\<rparr>), ((0x10, 0x20), s\<lparr>last_activity := 1000\<rparr>)],
         tick_timer := Some 100\<rparr>;
       t' = on_tick_timer can_header_ops (log_bus 0x10) False t
   in sessions t' = [((0x10, 0x20), s\<lparr>last_activity := 1000\<rparr>)]
    \<and> log_frames (tp_bus t') = [abort_frame can_header_ops (s\<lparr>state := Completed\<rparr>) Timeout]
    \<and> log_errors (tp_bus t') = [(''tp timeout'', Timed_out)] \<and> log_data (tp_bus t') = [] \<and> tick_timer t' = Some 100"
proof -
  let ?s = "tx_session 0x10 0xFF 0xFECA [1, 2, 3, 4, 5, 6, 7, 8, 9] 0"
  let ?t = "log_tp\<lparr>tp_bus := (tp_bus log_tp)\<lparr>log_now := 2000\<rparr>,
    sessions := [((0x10, 0xFF), ?s\<lparr>state := Completed\<rparr>), ((0x10, 0x20), ?s\<lparr>last_activity := 1000\<rparr>)],
    tick_timer := Some 100\<rparr>"
  have "tick_timer ?t = Some 100" by simp
  from transport_timeouts [OF this, of can_header_ops "log_bus 0x10"] show ?thesis
    unfolding Let_def
    by (simp add: timed_out_def tp_now_def log_bus_def log_error_def error_call_def tx_session_def session_default_def)
qed



text \<open>
  C27. The sessions of different devices do not disturb each other: whatever a frame is, it changes at
  most the sessions that its sender has with the destination of the frame or with all devices, and
  the session of the local device to this sender.
\<close>

theorem transport_sessions_independent:
  assumes "on_can_frame C B fr t = Inr t'" and "src = fh_source_address C (header fr)"
    and "key \<noteq> (src, fh_pdu_specific C (header fr))" and "key \<noteq> (src, 0xFF)" and "key \<noteq> (tp_source_address B t, src)"
  shows "um_find (sessions t') key = um_find (sessions t) key"
proof -
  have "send_dt_loop C B n s t = Inr (ok, s', t') \<Longrightarrow> sessions t' = sessions t" for n s and t :: "('a, 'b) tp" and ok s' t'
    by (induction n arbitrary: s t) (auto simp: Let_def split_beta split: if_splits sum.splits)
  then have d: "send_data_packets C B s t = Inr (ok, s', t') \<Longrightarrow> sessions t' = sessions t" for s ok s' t'
    by (auto simp: send_data_packets_def split: sum.splits prod.splits if_splits)
  have c: "um_find (sessions t') key = um_find (sessions t) key" if "handle_cts C B fr t = Inr t'"
    using that assms(2,5) d by (auto simp: handle_cts_def make_key_def Let_def split: option.splits sum.splits)
  show ?thesis
    using assms c
    by (auto simp: on_can_frame_def handle_cm_def handle_dt_def start_rx_rts_def start_rx_bam_def complete_rx_def
        handle_abort_def dt_reject_def make_key_def J1939_NO_ADDR_def Let_def split: if_splits option.splits sum.splits)
qed

theorem transport_sessions_independent_witness:
  "case on_can_frame can_header_ops (log_bus 0x20) (announcement can_header_ops BAM 0xFF 0x10 0xFF 0xFECA [1, 2, 3, 4, 5, 6, 7, 8, 9])
      (put_session (0x11, 0xFF) (rx_session 0xFF 0x11 0xFF 0xFECA [1, 2, 3, 4, 5, 6, 7, 8, 9] 1 0) log_tp) of
     Inl u \<Rightarrow> False
   | Inr t' \<Rightarrow> um_find (sessions t') (0x11, 0xFF) = Some (rx_session 0xFF 0x11 0xFF 0xFECA [1, 2, 3, 4, 5, 6, 7, 8, 9] 1 0)"
proof -
  let ?fr = "announcement can_header_ops BAM 0xFF 0x10 0xFF 0xFECA [1, 2, 3, 4, 5, 6, 7, 8, 9]"
  let ?t = "put_session (0x11, 0xFF) (rx_session 0xFF 0x11 0xFF 0xFECA [1, 2, 3, 4, 5, 6, 7, 8, 9] 1 0) log_tp"
  obtain t' where t': "on_can_frame can_header_ops (log_bus 0x20) ?fr ?t = Inr t'"
    using can.rx_bam [of "[1, 2, 3, 4, 5, 6, 7, 8, 9]" "log_bus 0x20" "0x10" "0xFECA" ?t] by auto
  have "fh_source_address can_header_ops (header ?fr) = 0x10" by code_simp
  with transport_sessions_independent [OF t', of "0x10" "(0x11, 0xFF)"] t' show ?thesis
    by (simp add: tp_source_address_def log_bus_def)
qed

section \<open>What goes wrong\<close>

text \<open>
  A clear-to-send for packet 0 makes the sender of any message read outside its buffer.
\<close>

theorem transport_clear_to_send_zero:
  assumes "fh_pgn C (header fr) = PGN_TP_CM" and "payload fr ! 0 = to_byte CTS"
    and "payload fr ! 1 \<noteq> 0" and "payload fr ! 2 = 0" and "length (buffer s) < 2 ^ 16"
    and "um_find (sessions t) (tp_source_address B t, fh_source_address C (header fr)) = Some s"
  shows "on_can_frame C B fr t = Inl Out_of_bounds_read"
proof -
  let ?s = "s\<lparr>window_size := payload fr ! 1, next_seq := payload fr ! 2\<rparr>"
  have "packet_offset 0 = 2 ^ 64 - 7" by (simp add: packet_offset_def)
  then have d: "data_packet C ?s = Inl Out_of_bounds_read"
    using assms(4,5) by (simp add: data_packet_def Let_def read_bytes_def)
  obtain n where "unat (window_size ?s) = Suc n"
    using assms(3) unat_gt_0 [of "payload fr ! 1"] by (cases "unat (payload fr ! 1)") auto
  then have "send_data_packets C B ?s t = Inl Out_of_bounds_read"
    using d assms(4) by (simp add: send_data_packets_def)
  then show ?thesis
    using assms(1,2,6) by (simp add: on_can_frame_def handle_cm_def handle_cts_def make_key_def Let_def)
qed

lemma packet_avail_code [code]:
  "packet_avail sz offset = (let d = (int sz - int offset) mod 2 ^ 64 in if d < 7 then nat d else 7)"
proof -
  have "0 \<le> (int sz - int offset) mod 2 ^ 64" by simp
  then show ?thesis by (simp add: packet_avail_def Let_def min_def nat_le_iff le_nat_iff del: pos_mod_sign)
qed

text \<open>
  Inconsistent requests to send: one with more packets than its length allows makes the receiver write
  outside its buffer, and one with an empty window makes it divide by zero.
\<close>

theorem transport_request_too_short:
  "case feed can_header_ops (log_bus 0x20)
     [(make_base_frame can_header_ops PGN_TP_CM 0x20 0x10)\<lparr>payload := [0x10, 3, 0, 2, 0xFF, 0, 0xEF, 0]\<rparr>,
      (make_base_frame can_header_ops PGN_TP_DT 0x20 0x10)\<lparr>payload := [1, 0, 0, 0, 0, 0, 0, 0]\<rparr>,
      (make_base_frame can_header_ops PGN_TP_DT 0x20 0x10)\<lparr>payload := [2, 0, 0, 0, 0, 0, 0, 0]\<rparr>]
     log_tp of Inl u \<Rightarrow> u = Out_of_bounds_write | Inr t \<Rightarrow> False"
  by code_simp

theorem transport_request_without_window:
  "case feed can_header_ops (log_bus 0x20)
     [(make_base_frame can_header_ops PGN_TP_CM 0x20 0x10)\<lparr>payload := [0x10, 9, 0, 2, 0, 0, 0xEF, 0]\<rparr>,
      (make_base_frame can_header_ops PGN_TP_DT 0x20 0x10)\<lparr>payload := [1, 0, 0, 0, 0, 0, 0, 0]\<rparr>]
     log_tp of Inl u \<Rightarrow> u = Division_by_zero | Inr t \<Rightarrow> False"
  by code_simp

text \<open>
  A transfer that succeeded ends with errors: the acknowledgement of the receiver is looked up among
  the sessions of the receiver, and answered with an abort, and the finished session is reported as
  timed out later, with an abort that carries the address of the receiver as its source.
\<close>

theorem transport_success_ends_in_errors:
  "let t = log_tp; xs = [1, 2, 3, 4, 5, 6, 7, 8, 9];
       eom = (make_base_frame can_header_ops PGN_TP_CM 0x10 0x20)\<lparr>payload := [0x13, 9, 0, 2, 0xFF, 0, 0xEF, 0]\<rparr>;
       cts = (make_base_frame can_header_ops PGN_TP_CM 0x10 0x20)\<lparr>payload := [0x11, 0xFF, 1, 0, 0, 0, 0xEF, 0]\<rparr>
   in case tp_run can_header_ops (log_bus 0x10) [Message_sent xs 0x20 0xEF00, Frame_arrives cts, Frame_arrives eom] t of
        Inl u \<Rightarrow> False
      | Inr t \<Rightarrow>
          (let t' = tick can_header_ops (log_bus 0x10) (t\<lparr>tp_bus := (tp_bus t)\<lparr>log_now := 2000\<rparr>\<rparr>);
               frs = drop 4 (log_frames (tp_bus t'))
           in map state (map snd (sessions t)) = [Completed]
             \<and> log_errors (tp_bus t') = [(''eom without session'', Aborted), (''tp timeout'', Timed_out)]
             \<and> map (\<lambda>fr. payload fr ! 0) frs = [to_byte ABORT, to_byte ABORT]
             \<and> map (\<lambda>fr. fh_source_address can_header_ops (header fr)) frs = [0x10, 0x20]
             \<and> map (\<lambda>fr. fh_pdu_specific can_header_ops (header fr)) frs = [0x20, 0x10])"
  by code_simp

text \<open>
  A session that was aborted goes on: the packet sent twice is refused with an abort, and the next one
  completes the message, which is delivered.
\<close>

theorem transport_delivers_after_abort:
  "case feed can_header_ops (log_bus 0x20)
     [(make_base_frame can_header_ops PGN_TP_CM 0x20 0x10)\<lparr>payload := [0x10, 9, 0, 2, 0xFF, 0, 0xEF, 0]\<rparr>,
      (make_base_frame can_header_ops PGN_TP_DT 0x20 0x10)\<lparr>payload := [1, 1, 2, 3, 4, 5, 6, 7]\<rparr>,
      (make_base_frame can_header_ops PGN_TP_DT 0x20 0x10)\<lparr>payload := [1, 1, 2, 3, 4, 5, 6, 7]\<rparr>,
      (make_base_frame can_header_ops PGN_TP_DT 0x20 0x10)\<lparr>payload := [2, 8, 9, 0, 0, 0, 0, 0]\<rparr>]
     log_tp of
     Inl u \<Rightarrow> False
   | Inr t \<Rightarrow> map data_payload (log_data (tp_bus t)) = [[1, 2, 3, 4, 5, 6, 7, 8, 9]]
      \<and> log_errors (tp_bus t) = [(''dt duplicate sequence'', Fault)]"
  by code_simp

end
