(* ===== verification/Jay_Connection.thy ===== *)
theory Jay_Connection
  imports Jay_Network Jay_Transport_Safety
begin

unbundle bit_operations_syntax

text \<open>
  The class \<^verbatim>\<open>jay::j1939_connection\<close> of \<^verbatim>\<open>src/include/jay/j1939_connection.hpp\<close>: a CAN socket with a
  transport protocol, which sends from a local name and receives for it.

  The socket, \<^verbatim>\<open>canary::raw::socket\<close>, is not part of the repository: its operations are a parameter.
  The connection only reads the network it refers to, which is an argument of the operations. A call of
  an empty \<^verbatim>\<open>std::function\<close>, which throws, and undefined behaviour are error values.
\<close>

section \<open>The socket\<close>

datatype socket_error = Socket_aborted | Socket_error nat

text \<open>
  What the connection uses of the socket: the index of an interface, opening and binding, a blocking
  send with its error and the number of bytes sent, the two socket options for filters, and the clock.
\<close>

record ('h, 'f, 's) socket =
  interface_index :: "string \<Rightarrow> 's \<Rightarrow> socket_error + nat"
  sock_open :: "'s \<Rightarrow> socket_error option \<times> 's"
  sock_bind :: "nat \<Rightarrow> 's \<Rightarrow> socket_error option \<times> 's"
  sock_send :: "'h frame \<Rightarrow> 's \<Rightarrow> (socket_error option \<times> nat) \<times> 's"
  sock_filter_any :: "'f list \<Rightarrow> 's \<Rightarrow> socket_error option \<times> 's"
  sock_filter_all :: "'f list \<Rightarrow> 's \<Rightarrow> socket_error option \<times> 's"
  sizeof_frame :: nat
  sock_now :: "'s \<Rightarrow> int"

section \<open>State\<close>

datatype con_error = Invalid_argument | Con_aborted | Con_socket nat | Con_transport tp_error

fun ec_of_socket :: "socket_error \<Rightarrow> con_error" where
  "ec_of_socket Socket_aborted = Con_aborted"
| "ec_of_socket (Socket_error n) = Con_socket n"

fun ec_of_tp :: "tp_error \<Rightarrow> con_error" where
  "ec_of_tp Aborted = Con_aborted"
| "ec_of_tp e = Con_transport e"

datatype failure = Bad_function_call | Empty_optional | Empty_vector | System_error socket_error
  | Undefined_behaviour ub

text \<open>The calls of the callbacks of the user.\<close>

datatype 'h con_call = Started | Destroyed | Read_frame "'h frame" | Sent_frame "'h frame"
  | Data_received "'h data" | Error_reported string con_error

text \<open>
  What the bus adapter and the handlers of the transport protocol reach: the socket, the local address
  of the adapter, and the callbacks of the user, of which those for errors and for frames that were sent
  may be empty. All calls are recorded in their order.
\<close>

record ('h, 's) con_bus =
  con_sock :: 's
  src_addr :: address_t
  con_on_error_set :: bool
  con_on_send_set :: bool
  con_calls :: "'h con_call list"

definition called :: "'h con_call \<Rightarrow> ('h, 's) con_bus \<Rightarrow> ('h, 's) con_bus" where
  "called e b = b\<lparr>con_calls := con_calls b @ [e]\<rparr>"

text \<open>The connection itself; \<open>con_reading\<close> says that a read is pending.\<close>

record ('h, 's) connection =
  con_tp :: "('h, ('h, 's) con_bus) tp"
  local_name :: "name option"
  target_name :: "name option"
  con_on_start_set :: bool
  con_on_destroy_set :: bool
  con_on_read_set :: bool
  con_on_data_set :: bool
  in_buffer :: "'h frame"
  out_buffer :: "'h frame"
  con_reading :: bool

abbreviation con_bus :: "('h, 's) connection \<Rightarrow> ('h, 's) con_bus" where
  "con_bus c \<equiv> tp_bus (con_tp c)"

definition upd_bus :: "(('h, 's) con_bus \<Rightarrow> ('h, 's) con_bus) \<Rightarrow> ('h, 's) connection \<Rightarrow> ('h, 's) connection" where
  "upd_bus f c = c\<lparr>con_tp := (con_tp c)\<lparr>tp_bus := f (con_bus c)\<rparr>\<rparr>"

section \<open>The bus adapter\<close>

definition con_on_error :: "string \<Rightarrow> con_error \<Rightarrow> ('h, 's) con_bus \<Rightarrow> ('h, 's) con_bus" where
  "con_on_error what ec b =
     (if ec = Con_aborted \<or> \<not> con_on_error_set b then b else called (Error_reported what ec) b)"

definition con_write :: "('h, 'f, 's) socket \<Rightarrow> 'h frame \<Rightarrow> ('h, 's) con_bus \<Rightarrow> bool \<times> ('h, 's) con_bus" where
  "con_write S fr b =
     (let ((ec, n), s) = sock_send S fr (con_sock b); b = b\<lparr>con_sock := s\<rparr>
      in if ec \<noteq> None \<or> n \<noteq> sizeof_frame S
         then (False, con_on_error ''write'' (case ec of Some e \<Rightarrow> ec_of_socket e | None \<Rightarrow> Con_aborted) b)
         else (True, if con_on_send_set b then called (Sent_frame fr) b else b))"

definition bus_adapter :: "('h, 'f, 's) socket \<Rightarrow> ('h, ('h, 's) con_bus) bus" where
  "bus_adapter S = \<lparr>bus_send = con_write S, bus_source_address = src_addr, bus_now = (\<lambda>b. sock_now S (con_sock b))\<rparr>"

section \<open>Construction\<close>

text \<open>The handlers that the connection gives to the transport protocol.\<close>

definition con_tp_error :: "('h, 's) con_bus on_error" where
  "con_tp_error what ec = con_on_error what (ec_of_tp ec)"

definition con_tp_data :: "('h, ('h, 's) con_bus) on_data" where
  "con_tp_data d = called (Data_received d)"

definition con_new :: "'h canary_header \<Rightarrow> 's \<Rightarrow> name option \<Rightarrow> name option \<Rightarrow> ('h, 's) connection" where
  "con_new C s local target =
     \<lparr>con_tp = set_error_handler (Some con_tp_error) (tp_new \<lparr>con_sock = s, src_addr = 0xFE, con_on_error_set = False,
        con_on_send_set = False, con_calls = []\<rparr>),
      local_name = local, target_name = target, con_on_start_set = False, con_on_destroy_set = False,
      con_on_read_set = False, con_on_data_set = False, in_buffer = frame_default C, out_buffer = frame_default C,
      con_reading = False\<rparr>"

definition con_new_nameless :: "'h canary_header \<Rightarrow> 's \<Rightarrow> ('h, 's) connection" where
  "con_new_nameless C s = con_new C s None None"

definition con_destroy :: "('h, 's) connection \<Rightarrow> ('h, 's) connection" where
  "con_destroy c = (if con_on_destroy_set c then upd_bus (called Destroyed) c else c)"

definition con_fail_open :: "string \<Rightarrow> socket_error \<Rightarrow> ('h, 's) con_bus \<Rightarrow> ('h, 's) con_bus" where
  "con_fail_open what e b =
     (if con_on_error_set b then called (Error_reported what (ec_of_socket e)) b else b)"

definition con_open :: "('h, 'f, 's) socket \<Rightarrow> network \<Rightarrow> ('h, 's) connection \<Rightarrow> bool \<times> ('h, 's) connection" where
  "con_open S net c =
     (case interface_index S (net_get_interface_name net) (con_sock (con_bus c)) of
        Inl e \<Rightarrow> (False, upd_bus (con_fail_open (''open '' @ net_get_interface_name net @ '' failed'') e) c)
      | Inr endpoint \<Rightarrow>
          (case sock_open S (con_sock (con_bus c)) of
             (Some e, s) \<Rightarrow> (False, upd_bus (\<lambda>b. con_fail_open (''open '' @ net_get_interface_name net @ '' failed'') e (b\<lparr>con_sock := s\<rparr>)) c)
           | (None, s) \<Rightarrow>
               (case sock_bind S endpoint s of
                  (Some e, s) \<Rightarrow> (False, upd_bus (\<lambda>b. con_fail_open (''bind '' @ net_get_interface_name net @ '' failed'') e (b\<lparr>con_sock := s\<rparr>)) c)
                | (None, s) \<Rightarrow> (True, upd_bus (\<lambda>b. b\<lparr>con_sock := s\<rparr>) c))))"

definition set_filter_any :: "('h, 'f, 's) socket \<Rightarrow> 'f list \<Rightarrow> ('h, 's) connection \<Rightarrow> failure + ('h, 's) connection" where
  "set_filter_any S fs c =
     (case sock_filter_any S fs (con_sock (con_bus c)) of
        (Some e, s) \<Rightarrow> Inl (System_error e) | (None, s) \<Rightarrow> Inr (upd_bus (\<lambda>b. b\<lparr>con_sock := s\<rparr>) c))"

definition set_filter_all :: "('h, 'f, 's) socket \<Rightarrow> 'f list \<Rightarrow> ('h, 's) connection \<Rightarrow> failure + ('h, 's) connection" where
  "set_filter_all S fs c =
     (case sock_filter_all S fs (con_sock (con_bus c)) of
        (Some e, s) \<Rightarrow> Inl (System_error e) | (None, s) \<Rightarrow> Inr (upd_bus (\<lambda>b. b\<lparr>con_sock := s\<rparr>) c))"

definition async_read :: "('h, 's) connection \<Rightarrow> ('h, 's) connection" where
  "async_read c = c\<lparr>con_reading := True\<rparr>"

definition con_start :: "('h, 's) connection \<Rightarrow> ('h, 's) connection" where
  "con_start c =
     (let c = (if con_on_start_set c then upd_bus (called Started) c else c);
          c = c\<lparr>con_tp := start_tick 100 (con_tp c)\<rparr>
      in async_read c)"

text \<open>The setters and getters.\<close>

definition con_set_on_start :: "bool \<Rightarrow> ('h, 's) connection \<Rightarrow> ('h, 's) connection" where
  "con_set_on_start x c = c\<lparr>con_on_start_set := x\<rparr>"

definition con_set_on_close :: "bool \<Rightarrow> ('h, 's) connection \<Rightarrow> ('h, 's) connection" where
  "con_set_on_close x c = c\<lparr>con_on_destroy_set := x\<rparr>"

definition con_set_on_read :: "bool \<Rightarrow> ('h, 's) connection \<Rightarrow> ('h, 's) connection" where
  "con_set_on_read x c = c\<lparr>con_on_read_set := x\<rparr>"

definition con_set_on_send :: "bool \<Rightarrow> ('h, 's) connection \<Rightarrow> ('h, 's) connection" where
  "con_set_on_send x = upd_bus (\<lambda>b. b\<lparr>con_on_send_set := x\<rparr>)"

definition con_set_on_error :: "bool \<Rightarrow> ('h, 's) connection \<Rightarrow> ('h, 's) connection" where
  "con_set_on_error x c =
     (let c = upd_bus (\<lambda>b. b\<lparr>con_on_error_set := x\<rparr>) c in c\<lparr>con_tp := set_error_handler (Some con_tp_error) (con_tp c)\<rparr>)"

definition con_set_on_data :: "bool \<Rightarrow> ('h, 's) connection \<Rightarrow> ('h, 's) connection" where
  "con_set_on_data x c = (let c = c\<lparr>con_on_data_set := x\<rparr> in c\<lparr>con_tp := set_rx_handler (if x then Some con_tp_data else None) (con_tp c)\<rparr>)"

definition set_local_name :: "name \<Rightarrow> ('h, 's) connection \<Rightarrow> ('h, 's) connection" where
  "set_local_name n c = c\<lparr>local_name := Some n\<rparr>"

definition set_target_name :: "name \<Rightarrow> ('h, 's) connection \<Rightarrow> ('h, 's) connection" where
  "set_target_name n c = c\<lparr>target_name := Some n\<rparr>"

definition get_local_name :: "('h, 's) connection \<Rightarrow> name option" where
  "get_local_name c = local_name c"

definition get_target_name :: "('h, 's) connection \<Rightarrow> name option" where
  "get_target_name c = target_name c"

section \<open>Sending\<close>

definition send_raw :: "('h, 'f, 's) socket \<Rightarrow> 'h frame \<Rightarrow> ('h, 's) connection \<Rightarrow> bool \<times> ('h, 's) connection" where
  "send_raw S fr c = (let (ok, b) = con_write S fr (con_bus c) in (ok, upd_bus (\<lambda>_. b) c))"

text \<open>A direct call of \<^verbatim>\<open>on_error_\<close>, after which the operation returns false.\<close>

definition refuse :: "string \<Rightarrow> ('h, 's) connection \<Rightarrow> failure + (bool \<times> ('h, 's) connection)" where
  "refuse what c =
     (if con_on_error_set (con_bus c)
      then Inr (False, upd_bus (called (Error_reported what Invalid_argument)) c)
      else Inl Bad_function_call)"

definition send_to :: "'h canary_header \<Rightarrow> ('h, 'f, 's) socket \<Rightarrow> network \<Rightarrow> name \<Rightarrow> 'h frame \<Rightarrow>
    ('h, 's) connection \<Rightarrow> failure + (bool \<times> ('h, 's) connection)" where
  "send_to C S net n fr c =
     (case local_name c of
        None \<Rightarrow> refuse ''Socket has no local name'' c
      | Some me \<Rightarrow>
          (let source_address = net_get_address me net
           in if source_address = J1939_IDLE_ADDR then refuse ''connection has no source address'' c
              else
                (let destination_address = net_get_address n net
                 in if destination_address = J1939_IDLE_ADDR then refuse ''Destination has no address'' c
                    else
                      (let out = fr\<lparr>header := fh_set_pdu_specific C destination_address
                             (fh_set_source_address C source_address (header fr))\<rparr>
                       in Inr (send_raw S out (c\<lparr>out_buffer := out\<rparr>))))))"

definition con_send :: "'h canary_header \<Rightarrow> ('h, 'f, 's) socket \<Rightarrow> network \<Rightarrow> 'h frame \<Rightarrow>
    ('h, 's) connection \<Rightarrow> failure + (bool \<times> ('h, 's) connection)" where
  "con_send C S net fr c =
     (if fh_is_broadcast C (header fr) then
        (case local_name c of
           None \<Rightarrow> Inl Empty_optional
         | Some me \<Rightarrow>
             (let source_address = net_get_address me net
              in if source_address = J1939_IDLE_ADDR then refuse ''connection has no source address'' c
                 else
                   (let out = fr\<lparr>header := fh_set_source_address C source_address (header fr)\<rparr>
                    in Inr (send_raw S out (c\<lparr>out_buffer := out\<rparr>)))))
      else
        (case target_name c of
           None \<Rightarrow> refuse ''connection has no target name'' c
         | Some n \<Rightarrow> send_to C S net n fr c))"

definition con_send_data :: "'h canary_header \<Rightarrow> ('h, 'f, 's) socket \<Rightarrow> network \<Rightarrow> 'h data \<Rightarrow>
    ('h, 's) connection \<Rightarrow> failure + (bool \<times> ('h, 's) connection)" where
  "con_send_data C S net d c =
     (if length (data_payload d) \<le> 8 then
        con_send C S net \<lparr>header = data_header d,
          payload = data_payload d @ drop (length (data_payload d)) (payload (frame_default C))\<rparr> c
      else
        (case local_name c of
           None \<Rightarrow> Inl Empty_optional
         | Some me \<Rightarrow>
             (let source_address = net_get_address me net
              in if source_address = J1939_IDLE_ADDR then refuse ''Socket has no source address'' c
                 else
                   (let c = upd_bus (\<lambda>b. b\<lparr>src_addr := source_address\<rparr>) c
                    in case transport_send C (bus_adapter S) (data_payload d)
                           (fh_pdu_specific C (data_header d)) (fh_pgn C (data_header d)) (con_tp c) of
                         Inl u \<Rightarrow> Inl (Undefined_behaviour u)
                       | Inr (ok, t) \<Rightarrow> Inr (ok, c\<lparr>con_tp := t\<rparr>)))))"

section \<open>Receiving\<close>

definition normal_pgn :: "pgn_t \<Rightarrow> bool" where
  "normal_pgn pgn \<longleftrightarrow> pgn \<noteq> PGN_TP_CM \<and> pgn \<noteq> PGN_TP_DT \<and> pgn \<noteq> J1939_PGN_REQUEST
     \<and> pgn \<noteq> J1939_PGN_ADDRESS_CLAIMED \<and> pgn \<noteq> J1939_PGN_ADDRESS_COMMANDED"

text \<open>Whether the frame in the buffer is for this connection; the address of the adapter is brought up to date.\<close>

definition check_address :: "'h canary_header \<Rightarrow> network \<Rightarrow> ('h, 's) connection \<Rightarrow> bool \<times> ('h, 's) connection" where
  "check_address C net c =
     (if target_name c = None \<and> local_name c = None then (True, c)
      else
        (let c = (case local_name c of Some me \<Rightarrow> upd_bus (\<lambda>b. b\<lparr>src_addr := net_get_address me net\<rparr>) c | None \<Rightarrow> c);
             h = header (in_buffer c)
         in if fh_is_broadcast C h then
              (case target_name c of
                 Some n \<Rightarrow> (net_get_address n net = fh_source_address C h, c)
               | None \<Rightarrow> (True, c))
            else
              (case (target_name c, local_name c) of
                 (Some n, Some me) \<Rightarrow>
                   (net_get_address n net = fh_source_address C h \<and> net_get_address me net = fh_pdu_specific C h, c)
               | (None, Some me) \<Rightarrow> (net_get_address me net = fh_pdu_specific C h, c)
               | (Some n, None) \<Rightarrow> (net_get_address n net = fh_source_address C h, c)
               | (None, None) \<Rightarrow> (False, c))))"

text \<open>
  The delivery of a single frame. The payload is copied from the frame with the length of the header,
  which a length above eight makes a read outside the frame; \<^verbatim>\<open>&d.payload[0]\<close> needs a byte.
\<close>

definition deliver_frame :: "'h canary_header \<Rightarrow> ('h, 's) connection \<Rightarrow> failure + ('h, 's) connection" where
  "deliver_frame C c =
     (let fr = in_buffer c; n = fh_payload_length C (header fr)
      in if n = 0 then Inl Empty_vector
         else if n > length (payload fr) then Inl (Undefined_behaviour Out_of_bounds_read)
         else if \<not> con_on_data_set c then Inl Bad_function_call
         else Inr (upd_bus (called (Data_received \<lparr>data_header = header fr, data_payload = take n (payload fr)\<rparr>)) c))"

text \<open>
  The function given to \<^verbatim>\<open>async_receive\<close>, with the error or the frame that was read. The network is the
  one that the callback for frames leaves.
\<close>

definition on_receive :: "'h canary_header \<Rightarrow> ('h, 'f, 's) socket \<Rightarrow> network \<Rightarrow> socket_error + 'h frame \<Rightarrow>
    ('h, 's) connection \<Rightarrow> failure + ('h, 's) connection" where
  "on_receive C S net input c =
     (let c = c\<lparr>con_reading := False\<rparr>
      in case input of
           Inl e \<Rightarrow> Inr (upd_bus (con_on_error ''read'' (ec_of_socket e)) c)
         | Inr fr \<Rightarrow>
             (let c = c\<lparr>in_buffer := fr\<rparr>
              in if \<not> con_on_read_set c then Inl Bad_function_call
                 else
                   (let c = upd_bus (called (Read_frame fr)) c; (ok, c) = check_address C net c
                    in case (if ok then
                           (case on_can_frame C (bus_adapter S) fr (con_tp c) of
                              Inl u \<Rightarrow> Inl (Undefined_behaviour u)
                            | Inr t \<Rightarrow>
                                (let c = c\<lparr>con_tp := t\<rparr>
                                 in if normal_pgn (fh_pgn C (header fr)) then deliver_frame C c else Inr c))
                         else Inr c) of
                         Inl f \<Rightarrow> Inl f
                       | Inr c \<Rightarrow>
                           Inr (async_read (c\<lparr>in_buffer :=
                             \<lparr>header = fh_set_id C 0 (header fr), payload = replicate 8 0\<rparr>\<rparr>)))))"

text \<open>The end of a wait of the timer of the transport protocol.\<close>

definition con_tick :: "'h canary_header \<Rightarrow> ('h, 'f, 's) socket \<Rightarrow> bool \<Rightarrow> ('h, 's) connection \<Rightarrow> ('h, 's) connection" where
  "con_tick C S ec c = c\<lparr>con_tp := on_tick_timer C (bus_adapter S) ec (con_tp c)\<rparr>"

section \<open>A socket that takes every frame\<close>

text \<open>The messages and the errors among the calls, and the calls for frames that were sent.\<close>

definition data_calls :: "'h con_call list \<Rightarrow> 'h data list" where
  "data_calls cs = concat (map (\<lambda>e. case e of Data_received d \<Rightarrow> [d] | _ \<Rightarrow> []) cs)"

definition error_calls :: "'h con_call list \<Rightarrow> (string \<times> con_error) list" where
  "error_calls cs = concat (map (\<lambda>e. case e of Error_reported what ec \<Rightarrow> [(what, ec)] | _ \<Rightarrow> []) cs)"

definition sent_calls :: "('h, 's) con_bus \<Rightarrow> 'h frame list \<Rightarrow> 'h con_call list" where
  "sent_calls b frs = (if con_on_send_set b then map Sent_frame frs else [])"

lemma called_simps [simp]:
  "con_calls (called e b) = con_calls b @ [e]" "con_sock (called e b) = con_sock b" "src_addr (called e b) = src_addr b"
  "con_on_error_set (called e b) = con_on_error_set b" "con_on_send_set (called e b) = con_on_send_set b"
  by (simp_all add: called_def)

lemma sent_calls_simps [simp]:
  "sent_calls b [] = []" "sent_calls b (frs @ frs') = sent_calls b frs @ sent_calls b frs'"
  "sent_calls (called e b) = sent_calls b" "sent_calls (b\<lparr>src_addr := a\<rparr>) = sent_calls b"
  by (auto simp: sent_calls_def fun_eq_iff)

lemma call_lists [simp]:
  "data_calls [] = []" "error_calls [] = []"
  "data_calls (cs @ cs') = data_calls cs @ data_calls cs'" "error_calls (cs @ cs') = error_calls cs @ error_calls cs'"
  "data_calls (e # cs) = (case e of Data_received d \<Rightarrow> [d] | _ \<Rightarrow> []) @ data_calls cs"
  "error_calls (e # cs) = (case e of Error_reported what ec \<Rightarrow> [(what, ec)] | _ \<Rightarrow> []) @ error_calls cs"
  "data_calls (sent_calls b frs) = []" "error_calls (sent_calls b frs) = []"
  "data_calls (map Read_frame frs) = []" "error_calls (map Read_frame frs) = []"
  by (auto simp: data_calls_def error_calls_def sent_calls_def)

text \<open>
  The contract of a socket that works: while it is up, a frame is sent as a whole and without an error,
  the frames are taken in order, and it stays up.
\<close>

locale reliable_socket =
  fixes S :: "('h, 'f, 's) socket" and log :: "'s \<Rightarrow> 'h frame list" and up :: "'s \<Rightarrow> bool"
  assumes sock_ok: "up s \<Longrightarrow> fst (sock_send S fr s) = (None, sizeof_frame S)"
    and sock_log: "up s \<Longrightarrow> log (snd (sock_send S fr s)) = log s @ [fr]"
    and sock_up: "up s \<Longrightarrow> up (snd (sock_send S fr s))"
begin

abbreviation adapter_up :: "address_t \<Rightarrow> ('h, 's) con_bus \<Rightarrow> bool" where
  "adapter_up me b \<equiv> up (con_sock b) \<and> src_addr b = me"

lemma write_ok:
  assumes "up (con_sock b)"
  shows "con_write S fr b =
    (True, b\<lparr>con_sock := snd (sock_send S fr (con_sock b)), con_calls := con_calls b @ sent_calls b [fr]\<rparr>)"
  using sock_ok [OF assms, of fr] by (cases b) (simp add: con_write_def sent_calls_def called_def split_beta Let_def)

end

text \<open>The adapter of such a socket is a bus that takes every frame, at its local address and without errors.\<close>

sublocale reliable_socket \<subseteq> adapter: reliable_bus "bus_adapter S" "adapter_up me" me
  for me
  by unfold_locales (auto simp: bus_adapter_def write_ok sock_up)

text \<open>The simplest socket: its state is the frames it has taken and the time.\<close>

definition log_socket :: "('h, unit, 'h frame list \<times> int) socket" where
  "log_socket = \<lparr>interface_index = (\<lambda>n s. Inr 1), sock_open = (\<lambda>s. (None, s)), sock_bind = (\<lambda>i s. (None, s)),
     sock_send = (\<lambda>fr (frs, now). ((None, 16), frs @ [fr], now)), sock_filter_any = (\<lambda>fs s. (None, s)),
     sock_filter_all = (\<lambda>fs s. (None, s)), sizeof_frame = 16, sock_now = snd\<rparr>"

interpretation ls: reliable_socket log_socket fst "\<lambda>s. True"
  by unfold_locales (simp_all add: log_socket_def split_beta)

section \<open>Sending a frame\<close>

lemma upd_bus_simps [simp]:
  "con_bus (upd_bus f c) = f (con_bus c)" "local_name (upd_bus f c) = local_name c"
  "target_name (upd_bus f c) = target_name c" "con_on_read_set (upd_bus f c) = con_on_read_set c"
  "con_on_data_set (upd_bus f c) = con_on_data_set c" "in_buffer (upd_bus f c) = in_buffer c"
  "con_reading (upd_bus f c) = con_reading c" "out_buffer (upd_bus f c) = out_buffer c"
  "con_tp (upd_bus f c) = (con_tp c)\<lparr>tp_bus := f (con_bus c)\<rparr>"
  by (simp_all add: upd_bus_def)

context reliable_socket
begin

lemma adapter_bus: "reliable_bus (bus_adapter S) (adapter_up me) me"
  by (rule adapter.reliable_bus_axioms)

text \<open>What frames sent on the adapter do.\<close>

lemma adapter_sends:
  assumes "up (con_sock b)"
  shows "log (con_sock (bus_sends (bus_adapter S) frs b)) = log (con_sock b) @ frs"
    "con_calls (bus_sends (bus_adapter S) frs b) = con_calls b @ sent_calls b frs"
    "up (con_sock (bus_sends (bus_adapter S) frs b))" "src_addr (bus_sends (bus_adapter S) frs b) = src_addr b"
    "sent_calls (bus_sends (bus_adapter S) frs b) = sent_calls b"
  using assms
  by (induction frs arbitrary: b)
    (simp_all add: bus_adapter_def write_ok sock_log sock_up sent_calls_def fun_eq_iff split: if_splits)

abbreviation con_log :: "('h, 's) connection \<Rightarrow> 'h frame list" where
  "con_log c \<equiv> log (con_sock (con_bus c))"

abbreviation sends :: "'h frame list \<Rightarrow> ('h, 's) connection \<Rightarrow> ('h, 's) connection \<Rightarrow> bool" where
  "sends frs c c' \<equiv> con_log c' = con_log c @ frs \<and> con_calls (con_bus c') = con_calls (con_bus c) @ sent_calls (con_bus c) frs"

abbreviation refuses :: "('h, 's) connection \<Rightarrow> ('h, 's) connection \<Rightarrow> bool" where
  "refuses c c' \<equiv> con_sock (con_bus c') = con_sock (con_bus c)
     \<and> (\<exists>what. con_calls (con_bus c') = con_calls (con_bus c) @ [Error_reported what Invalid_argument])"

lemma send_raw_ok:
  assumes "up (con_sock (con_bus c))"
  shows "fst (send_raw S fr c)" "sends [fr] c (snd (send_raw S fr c))" "up (con_sock (con_bus (snd (send_raw S fr c))))"
  using assms write_ok [OF assms, of fr] by (simp_all add: send_raw_def sock_log sock_up)

lemma refuse_refuses: "refuse what c = Inr (ok, c') \<Longrightarrow> \<not> ok \<and> refuses c c'"
  by (auto simp: refuse_def split: if_splits)

lemma send_to_sends:
  assumes "up (con_sock (con_bus c))" and "send_to C S net n fr c = Inr (ok, c')"
  shows "if ok then \<exists>me. local_name c = Some me \<and> net_get_address me net \<noteq> J1939_IDLE_ADDR
      \<and> net_get_address n net \<noteq> J1939_IDLE_ADDR
      \<and> sends [fr\<lparr>header := fh_set_pdu_specific C (net_get_address n net)
          (fh_set_source_address C (net_get_address me net) (header fr))\<rparr>] c c'
    else refuses c c'"
proof (cases "local_name c")
  case None
  then show ?thesis using assms(2) by (auto simp: send_to_def dest: refuse_refuses)
next
  case (Some me)
  let ?fr = "fr\<lparr>header := fh_set_pdu_specific C (net_get_address n net)
      (fh_set_source_address C (net_get_address me net) (header fr))\<rparr>"
  have u: "up (con_sock (con_bus (c\<lparr>out_buffer := ?fr\<rparr>)))" using assms(1) by simp
  show ?thesis
    using assms(2) Some send_raw_ok [OF u, of ?fr]
    by (auto simp: send_to_def Let_def split: if_splits dest: refuse_refuses)
qed

lemma con_send_sends:
  assumes "up (con_sock (con_bus c))" and "con_send C S net fr c = Inr (ok, c')"
  shows "if ok then \<exists>me h. local_name c = Some me \<and> net_get_address me net \<noteq> J1939_IDLE_ADDR
      \<and> sends [fr\<lparr>header := h\<rparr>] c c' \<and>
        (if fh_is_broadcast C (header fr) then h = fh_set_source_address C (net_get_address me net) (header fr)
         else \<exists>n. target_name c = Some n \<and> net_get_address n net \<noteq> J1939_IDLE_ADDR
           \<and> h = fh_set_pdu_specific C (net_get_address n net)
               (fh_set_source_address C (net_get_address me net) (header fr)))
    else refuses c c'"
proof (cases "fh_is_broadcast C (header fr)")
  case True
  show ?thesis
  proof (cases "local_name c")
    case None
    then show ?thesis using True assms(2) by (simp add: con_send_def)
  next
    case (Some me)
    let ?fr = "fr\<lparr>header := fh_set_source_address C (net_get_address me net) (header fr)\<rparr>"
    have u: "up (con_sock (con_bus (c\<lparr>out_buffer := ?fr\<rparr>)))" using assms(1) by simp
    show ?thesis
      using assms(2) True Some send_raw_ok [OF u, of ?fr]
      by (auto simp: con_send_def Let_def split: if_splits dest: refuse_refuses)
  qed
next
  case False
  show ?thesis
  proof (cases "target_name c")
    case None
    then show ?thesis using False assms(2) by (auto simp: con_send_def split: if_splits dest: refuse_refuses)
  next
    case (Some n)
    then have "send_to C S net n fr c = Inr (ok, c')" using False assms(2) by (simp add: con_send_def)
    from send_to_sends [OF assms(1) this] show ?thesis
      using False Some by (auto split: if_splits)
  qed
qed

end

section \<open>Receiving a frame\<close>

text \<open>
  The connection in which a frame that was read is handled: the callback has been called, and the address
  is up to date.
\<close>

definition refreshed :: "network \<Rightarrow> ('h, 's) connection \<Rightarrow> ('h, 's) connection" where
  "refreshed net c =
     (case local_name c of Some me \<Rightarrow> upd_bus (\<lambda>b. b\<lparr>src_addr := net_get_address me net\<rparr>) c | None \<Rightarrow> c)"

definition with_frame :: "network \<Rightarrow> 'h frame \<Rightarrow> ('h, 's) connection \<Rightarrow> ('h, 's) connection" where
  "with_frame net fr c = refreshed net (upd_bus (called (Read_frame fr)) (c\<lparr>con_reading := False, in_buffer := fr\<rparr>))"

definition accepts :: "'h canary_header \<Rightarrow> network \<Rightarrow> 'h frame \<Rightarrow> ('h, 's) connection \<Rightarrow> bool" where
  "accepts C net fr c \<longleftrightarrow>
     (\<forall>n. target_name c = Some n \<longrightarrow> net_get_address n net = fh_source_address C (header fr))
   \<and> (\<not> fh_is_broadcast C (header fr) \<longrightarrow>
       (\<forall>me. local_name c = Some me \<longrightarrow> net_get_address me net = fh_pdu_specific C (header fr)))"

lemma check_address_eq: "check_address C net c = (accepts C net (in_buffer c) c, refreshed net c)"
  by (auto simp: check_address_def accepts_def refreshed_def Let_def split: option.splits)

lemma with_frame_simps [simp]:
  "local_name (with_frame net fr c) = local_name c" "target_name (with_frame net fr c) = target_name c"
  "con_on_read_set (with_frame net fr c) = con_on_read_set c" "con_on_data_set (with_frame net fr c) = con_on_data_set c"
  "in_buffer (with_frame net fr c) = fr" "sessions (con_tp (with_frame net fr c)) = sessions (con_tp c)"
  "rx_callback (con_tp (with_frame net fr c)) = rx_callback (con_tp c)"
  "error_callback (con_tp (with_frame net fr c)) = error_callback (con_tp c)"
  "con_sock (con_bus (with_frame net fr c)) = con_sock (con_bus c)"
  "con_on_error_set (con_bus (with_frame net fr c)) = con_on_error_set (con_bus c)"
  "con_calls (con_bus (with_frame net fr c)) = con_calls (con_bus c) @ [Read_frame fr]"
  by (simp_all add: with_frame_def refreshed_def split: option.split)

lemma with_frame_tp:
  "local_name c = Some n \<Longrightarrow> con_tp (with_frame net fr c) =
     (con_tp c)\<lparr>tp_bus := (called (Read_frame fr) (con_bus c))\<lparr>src_addr := net_get_address n net\<rparr>\<rparr>"
  by (simp add: with_frame_def refreshed_def)

text \<open>What the handler does with a frame, before it clears the buffer and reads again.\<close>

definition handle_frame :: "'h canary_header \<Rightarrow> ('h, 'f, 's) socket \<Rightarrow> 'h frame \<Rightarrow>
    ('h, 's) connection \<Rightarrow> failure + ('h, 's) connection" where
  "handle_frame C S fr c =
     (case on_can_frame C (bus_adapter S) fr (con_tp c) of
        Inl u \<Rightarrow> Inl (Undefined_behaviour u)
      | Inr t \<Rightarrow>
          (let c = c\<lparr>con_tp := t\<rparr>
           in if normal_pgn (fh_pgn C (header fr)) then deliver_frame C c else Inr c))"

definition ready_again :: "'h canary_header \<Rightarrow> 'h frame \<Rightarrow> ('h, 's) connection \<Rightarrow> ('h, 's) connection" where
  "ready_again C fr c = async_read (c\<lparr>in_buffer := \<lparr>header = fh_set_id C 0 (header fr), payload = replicate 8 0\<rparr>\<rparr>)"

lemma on_receive_frame:
  assumes "con_on_read_set c"
  shows "on_receive C S net (Inr fr) c =
    map_sum id (ready_again C fr)
      (if accepts C net fr c then handle_frame C S fr (with_frame net fr c) else Inr (with_frame net fr c))"
proof -
  let ?c = "upd_bus (called (Read_frame fr)) (c\<lparr>con_reading := False, in_buffer := fr\<rparr>)"
  have "accepts C net fr ?c = accepts C net fr c" by (simp add: accepts_def)
  then show ?thesis
    using assms
    by (simp add: on_receive_def handle_frame_def ready_again_def check_address_eq with_frame_def Let_def split: sum.split)
qed

lemma ready_again_simps [simp]:
  "con_tp (ready_again C fr c) = con_tp c" "con_reading (ready_again C fr c)"
  "local_name (ready_again C fr c) = local_name c" "target_name (ready_again C fr c) = target_name c"
  "con_on_read_set (ready_again C fr c) = con_on_read_set c" "con_on_data_set (ready_again C fr c) = con_on_data_set c"
  by (simp_all add: ready_again_def async_read_def)

lemma on_can_normal: "normal_pgn (fh_pgn C (header fr)) \<Longrightarrow> on_can_frame C B fr t = Inr t"
  by (simp add: on_can_frame_def normal_pgn_def)

lemma con_tp_self: "c\<lparr>con_tp := con_tp c\<rparr> = c"
  by (cases c) simp

lemma tp_groups_not_normal [simp]: "\<not> normal_pgn PGN_TP_CM" "\<not> normal_pgn PGN_TP_DT"
  by (simp_all add: normal_pgn_def)

section \<open>Messages between two connections\<close>

text \<open>
  A connection whose local name has the address \<open>me\<close> and which talks to the device with the address
  \<open>peer\<close>: its target, if it has one, is there. Its callback for data is given to the transport protocol.
\<close>

definition linked :: "network \<Rightarrow> address_t \<Rightarrow> address_t \<Rightarrow> ('h, 's) connection \<Rightarrow> bool" where
  "linked net me peer c \<longleftrightarrow> con_on_read_set c
     \<and> rx_callback (con_tp c) = (if con_on_data_set c then Some con_tp_data else None)
     \<and> (case local_name c of Some n \<Rightarrow> net_get_address n net = me | None \<Rightarrow> False)
     \<and> (case target_name c of Some n \<Rightarrow> net_get_address n net = peer | None \<Rightarrow> True)"

text \<open>The transport protocol when a frame has been read.\<close>

definition tp_reading :: "address_t \<Rightarrow> 'h frame \<Rightarrow> ('h, 's) connection \<Rightarrow> ('h, ('h, 's) con_bus) tp" where
  "tp_reading me fr c = (con_tp c)\<lparr>tp_bus := (called (Read_frame fr) (con_bus c))\<lparr>src_addr := me\<rparr>\<rparr>"

lemma tp_reading_simps [simp]:
  "sessions (tp_reading me fr c) = sessions (con_tp c)" "rx_callback (tp_reading me fr c) = rx_callback (con_tp c)"
  "tp_bus (tp_reading me fr c) = (called (Read_frame fr) (con_bus c))\<lparr>src_addr := me\<rparr>"
  by (simp_all add: tp_reading_def)

lemma on_receive_linked:
  assumes "linked net me peer c" and "fh_source_address C (header fr) = peer" and "fh_pdu_specific C (header fr) = me"
    and "\<not> normal_pgn (fh_pgn C (header fr))" and "on_can_frame C (bus_adapter S) fr (tp_reading me fr c) = Inr t"
    and "rx_callback t = rx_callback (con_tp c)"
  shows "\<exists>c'. on_receive C S net (Inr fr) c = Inr c' \<and> con_tp c' = t \<and> linked net me peer c'
    \<and> con_on_data_set c' = con_on_data_set c"
proof -
  have r: "con_on_read_set c" "accepts C net fr c"
    using assms(1-3) by (auto simp: linked_def accepts_def split: option.splits)
  obtain n where n: "local_name c = Some n" "net_get_address n net = me"
    using assms(1) by (auto simp: linked_def split: option.splits)
  have "handle_frame C S fr (with_frame net fr c) = Inr ((with_frame net fr c)\<lparr>con_tp := t\<rparr>)"
    using assms(4,5) with_frame_tp [OF n(1), of net fr] n(2) by (simp add: handle_frame_def tp_reading_def Let_def)
  then show ?thesis
    using r assms(1,6) by (simp add: on_receive_frame linked_def)
qed

text \<open>A frame that is not for the connection is only read.\<close>

lemma on_receive_other:
  assumes "linked net me peer c" and "\<not> accepts C net fr c"
  shows "\<exists>c'. on_receive C S net (Inr fr) c = Inr c' \<and> con_sock (con_bus c') = con_sock (con_bus c)
    \<and> con_calls (con_bus c') = con_calls (con_bus c) @ [Read_frame fr] \<and> sessions (con_tp c') = sessions (con_tp c)"
  using assms by (simp add: on_receive_frame linked_def)

fun con_feed :: "'h canary_header \<Rightarrow> ('h, 'f, 's) socket \<Rightarrow> network \<Rightarrow> 'h frame list \<Rightarrow>
    ('h, 's) connection \<Rightarrow> failure + ('h, 's) connection" where
  "con_feed C S net [] c = Inr c"
| "con_feed C S net (fr # frs) c =
     (case on_receive C S net (Inr fr) c of Inl f \<Rightarrow> Inl f | Inr c \<Rightarrow> con_feed C S net frs c)"

lemma con_feed_append:
  "con_feed C S net (xs @ ys) c = (case con_feed C S net xs c of Inl f \<Rightarrow> Inl f | Inr c \<Rightarrow> con_feed C S net ys c)"
  by (induction xs arbitrary: c) (auto split: sum.split)

context canary_frame_header
begin

lemma dt_packet_for [simp]:
  "fh_source_address C (header (dt_packet C dst src xs i)) = src" "fh_pdu_specific C (header (dt_packet C dst src xs i)) = dst"
  "\<not> normal_pgn (fh_pgn C (header (dt_packet C dst src xs i)))"
  by simp_all

lemma con_feed_packets:
  assumes "linked net dst src c" and "um_find (sessions (con_tp c)) (src, dst) = Some (rx_session 0xFF src dst g xs i la)"
    and "i + k < packets_of xs" and "length xs \<le> 1785"
  shows "\<exists>c' la. con_feed C S net (map (dt_packet C dst src xs) [i..<i + k]) c = Inr c'
    \<and> linked net dst src c' \<and> con_on_data_set c' = con_on_data_set c \<and> con_sock (con_bus c') = con_sock (con_bus c)
    \<and> sent_calls (con_bus c') = sent_calls (con_bus c)
    \<and> con_calls (con_bus c') = con_calls (con_bus c) @ map Read_frame (map (dt_packet C dst src xs) [i..<i + k])
    \<and> um_find (sessions (con_tp c')) (src, dst) = Some (rx_session 0xFF src dst g xs (i + k) la)"
  using assms
proof (induction k arbitrary: c i la)
  case 0
  then show ?case by (intro exI [of _ c] exI [of _ la]) simp
next
  case (Suc k)
  let ?fr = "dt_packet C dst src xs i"
  let ?t = "tp_reading dst ?fr c"
  let ?s = "rx_session 0xFF src dst g xs (Suc i) (tp_now (bus_adapter S) ?t)"
  have "Suc i mod 255 \<noteq> 0"
    using Suc.prems(3) packets_of_bounds(2) [OF Suc.prems(4)] by simp
  then have h: "on_can_frame C (bus_adapter S) ?fr ?t = Inr (put_session (src, dst) ?s ?t)"
    using rx_packet [of ?t src dst "0xFF" g xs i la "bus_adapter S"] Suc.prems(2-4) by (simp add: Let_def)
  obtain c1 where c1: "on_receive C S net (Inr ?fr) c = Inr c1" "con_tp c1 = put_session (src, dst) ?s ?t"
      "linked net dst src c1" "con_on_data_set c1 = con_on_data_set c"
    using on_receive_linked [OF Suc.prems(1) dt_packet_for h] by auto
  have "um_find (sessions (con_tp c1)) (src, dst) = Some ?s" using c1(2) by simp
  from Suc.IH [OF c1(3) this _ Suc.prems(4)] Suc.prems(3)
  obtain c' la' where c': "con_feed C S net (map (dt_packet C dst src xs) [Suc i..<Suc i + k]) c1 = Inr c'"
      "linked net dst src c'" "con_on_data_set c' = con_on_data_set c1" "con_sock (con_bus c') = con_sock (con_bus c1)"
      "sent_calls (con_bus c') = sent_calls (con_bus c1)"
      "con_calls (con_bus c') = con_calls (con_bus c1) @ map Read_frame (map (dt_packet C dst src xs) [Suc i..<Suc i + k])"
      "um_find (sessions (con_tp c')) (src, dst) = Some (rx_session 0xFF src dst g xs (Suc i + k) la')"
    by auto
  have "[i..<i + Suc k] = i # [Suc i..<Suc i + k]" by (simp add: upt_conv_Cons)
  then show ?case
    using c1 c' by (intro exI [of _ c'] exI [of _ la']) simp
qed

end

text \<open>The receiver puts the packets together, hands the message to its user and acknowledges it.\<close>

lemma con_receive_message:
  assumes C: "canary_frame_header C" and S: "reliable_socket S log up" and "8 < length xs" and "length xs \<le> 1785"
    and c: "linked net dst src c" "con_on_data_set c" "up (con_sock (con_bus c))" and "dst \<noteq> 0xFF"
    and s: "um_find (sessions (con_tp c)) (src, dst) = Some (rx_session 0xFF src dst g xs 0 la)"
  shows "\<exists>c'. con_feed C S net (map (dt_packet C dst src xs) [0..<packets_of xs]) c = Inr c' \<and> linked net dst src c'
    \<and> log (con_sock (con_bus c')) = log (con_sock (con_bus c)) @ [eom_frame C (rx_session 0xFF src dst g xs 0 0)]
    \<and> con_calls (con_bus c') = con_calls (con_bus c) @ map Read_frame (map (dt_packet C dst src xs) [0..<packets_of xs])
        @ [Data_received (tp_message C src dst g xs)]
        @ sent_calls (con_bus c) [eom_frame C (rx_session 0xFF src dst g xs 0 0)]"
proof -
  let ?eom = "eom_frame C (rx_session 0xFF src dst g xs 0 0)" and ?B = "bus_adapter S"
  obtain k where k: "packets_of xs = Suc k" using packets_of_pos [OF assms(3)] by (cases "packets_of xs") auto
  obtain c1 la' where f: "con_feed C S net (map (dt_packet C dst src xs) [0..<k]) c = Inr c1"
    and c1: "linked net dst src c1" "con_on_data_set c1" "con_sock (con_bus c1) = con_sock (con_bus c)"
      "sent_calls (con_bus c1) = sent_calls (con_bus c)"
      "con_calls (con_bus c1) = con_calls (con_bus c) @ map Read_frame (map (dt_packet C dst src xs) [0..<k])"
    and m: "um_find (sessions (con_tp c1)) (src, dst) = Some (rx_session 0xFF src dst g xs k la')"
    using canary_frame_header.con_feed_packets [OF C c(1) s _ assms(4), of k S] k c(2) by auto
  let ?fr = "dt_packet C dst src xs k"
  let ?t = "tp_reading dst ?fr c1" and ?b = "called (Data_received (tp_message C src dst g xs)) (tp_bus (tp_reading dst ?fr c1))"
  let ?s = "rx_session 0xFF src dst g xs (Suc k) (tp_now ?B ?t)"
  let ?r = "put_session (src, dst) ?s (?t\<lparr>tp_bus := ?b\<rparr>)"
  have r: "rx_call ?t = con_tp_data" using c1(1,2) by (simp add: linked_def rx_call_Some)
  have u: "up (con_sock (tp_bus ?r)) \<and> src_addr (tp_bus ?r) = dst" using c(3) c1(3) by simp
  have "um_find (sessions ?t) (src, dst) = Some (rx_session 0xFF src dst g xs k la')" using m by simp
  from canary_frame_header.rx_packet [OF C this _ _ assms(4), of ?B]
  have "on_can_frame C ?B ?fr ?t = Inr (?r\<lparr>tp_bus := bus_sends ?B [?eom] (tp_bus ?r)\<rparr>)"
    using k assms(8) reliable_bus.send_eom_ack_ok [OF reliable_socket.adapter_bus [OF S] u, of C ?s]
    by (simp add: Let_def r con_tp_data_def rx_answers(2) [where i = "Suc k"])
  from on_receive_linked [OF c1(1) canary_frame_header.dt_packet_for [OF C] this]
  obtain c' where c': "on_receive C S net (Inr ?fr) c1 = Inr c'" "linked net dst src c'"
      "con_bus c' = bus_sends ?B [?eom] (tp_bus ?r)"
    by auto
  have l: "[0..<packets_of xs] = [0..<k] @ [k]" using k by simp
  note a = reliable_socket.adapter_sends [OF S, of "tp_bus ?r" "[?eom]"]
  have "log (con_sock (con_bus c')) = log (con_sock (con_bus c)) @ [?eom]"
    "con_calls (con_bus c') = con_calls (con_bus c1) @ [Read_frame ?fr, Data_received (tp_message C src dst g xs)]
        @ sent_calls (con_bus c) [?eom]"
    unfolding c'(3) using a(1,2) u c1(3,4) by simp_all
  then show ?thesis
    unfolding l map_append con_feed_append f using c' c1(5) by simp
qed

text \<open>What the sender does: it announces the message, and sends its packets when it is asked to.\<close>

lemma con_send_announces:
  assumes "reliable_socket S log up" and "linked net me peer c" and "up (con_sock (con_bus c))"
    and "8 < length (data_payload d)" and "length (data_payload d) \<le> 1785"
    and "fh_pdu_specific C (data_header d) = peer" and "peer \<noteq> 0xFF" and "me \<noteq> J1939_IDLE_ADDR"
    and "rts = announcement C RTS 0xFF me peer (fh_pgn C (data_header d)) (data_payload d)"
  shows "\<exists>c' now. con_send_data C S net d c = Inr (True, c') \<and> linked net me peer c'
    \<and> log (con_sock (con_bus c')) = log (con_sock (con_bus c)) @ [rts] \<and> up (con_sock (con_bus c'))
    \<and> con_calls (con_bus c') = con_calls (con_bus c) @ sent_calls (con_bus c) [rts]
    \<and> sent_calls (con_bus c') = sent_calls (con_bus c)
    \<and> um_find (sessions (con_tp c')) (me, peer) =
        Some (tx_session me peer (fh_pgn C (data_header d)) (data_payload d) now)"
proof -
  let ?c = "upd_bus (\<lambda>b. b\<lparr>src_addr := me\<rparr>) c"
  have u: "up (con_sock (con_bus ?c)) \<and> src_addr (con_bus ?c) = me" using assms(3) by simp
  obtain t now where t: "start_tx C (bus_adapter S) (data_payload d) peer (fh_pgn C (data_header d)) (con_tp ?c) = Inr (True, t)"
    "tp_bus t = bus_sends (bus_adapter S) [rts] (con_bus ?c)" "rx_callback t = rx_callback (con_tp ?c)"
    "um_find (sessions t) (me, peer) = Some (tx_session me peer (fh_pgn C (data_header d)) (data_payload d) now)"
    using reliable_bus.start_tx_rts [OF reliable_socket.adapter_bus [OF assms(1)] assms(4,5,7) u, of C "fh_pgn C (data_header d)"]
    unfolding assms(9) by auto
  obtain n where n: "local_name c = Some n" "net_get_address n net = me"
    using assms(2) by (auto simp: linked_def split: option.splits)
  have s: "con_send_data C S net d c = Inr (True, ?c\<lparr>con_tp := t\<rparr>)"
    using n assms(4,6,8) t(1) by (simp add: con_send_data_def transport_send_def Let_def)
  have l: "linked net me peer (?c\<lparr>con_tp := t\<rparr>)" using assms(2) t(3) by (simp add: linked_def)
  have "up (con_sock (con_bus ?c))" using assms(3) by simp
  note a = reliable_socket.adapter_sends [OF assms(1) this, of "[rts]"]
  show ?thesis
    using s l a t by (intro exI [of _ "?c\<lparr>con_tp := t\<rparr>"] exI [of _ now]) simp
qed

lemma con_sends_packets:
  assumes "canary_frame_header C" and "reliable_socket S log up" and "linked net me peer c" and "up (con_sock (con_bus c))"
    and "length xs \<le> 1785" and "um_find (sessions (con_tp c)) (me, peer) = Some (tx_session me peer g xs now)"
    and "peer \<noteq> 0xFF" and "cts = cts_frame C (rx_session 0xFF me peer g xs 0 0)"
    and "frs = map (dt_packet C peer me xs) [0..<packets_of xs]
        @ (if length xs \<le> 1778 then [eom_frame C (tx_session me peer g xs 0)] else [])"
  shows "\<exists>c'. on_receive C S net (Inr cts) c = Inr c'
    \<and> log (con_sock (con_bus c')) = log (con_sock (con_bus c)) @ frs
    \<and> con_calls (con_bus c') = con_calls (con_bus c) @ Read_frame cts # sent_calls (con_bus c) frs"
proof -
  let ?t = "tp_reading me cts c"
  have u: "up (con_sock (tp_bus ?t)) \<and> src_addr (tp_bus ?t) = me" using assms(4) by simp
  have "um_find (sessions ?t) (me, peer) = Some (tx_session me peer g xs now)" using assms(6) by simp
  from reliable_bus.handle_cts_all [OF reliable_socket.adapter_bus [OF assms(2)] assms(1,5,7) u this]
  obtain t where t: "on_can_frame C (bus_adapter S) cts ?t = Inr t" "rx_callback t = rx_callback (con_tp c)"
    "tp_bus t = bus_sends (bus_adapter S) frs (tp_bus ?t)"
    unfolding assms(8,9) by auto
  have a: "fh_source_address C (header cts) = peer" "fh_pdu_specific C (header cts) = me"
    "\<not> normal_pgn (fh_pgn C (header cts))"
    using assms(8) by (simp_all add: canary_frame_header.base_frame_addresses [OF assms(1)] canary_frame_header.tp_frame_kinds [OF assms(1)])
  have "up (con_sock (tp_bus ?t))" using u by simp
  note s = reliable_socket.adapter_sends [OF assms(2) this, of frs]
  show ?thesis
    using on_receive_linked [OF assms(3) a t(1,2)] t(3) s(1,2) by auto
qed

lemma con_answers_request:
  assumes "canary_frame_header C" and "reliable_socket S log up" and "linked net me peer c" and "up (con_sock (con_bus c))"
    and "length xs \<le> 1785" and "me \<noteq> 0xFF" and "rts = announcement C RTS 0xFF peer me g xs"
    and "cts = cts_frame C (rx_session 0xFF peer me g xs 0 0)"
  shows "\<exists>c' la. on_receive C S net (Inr rts) c = Inr c' \<and> linked net me peer c' \<and> con_on_data_set c' = con_on_data_set c
    \<and> log (con_sock (con_bus c')) = log (con_sock (con_bus c)) @ [cts] \<and> up (con_sock (con_bus c'))
    \<and> con_calls (con_bus c') = con_calls (con_bus c) @ Read_frame rts # sent_calls (con_bus c) [cts]
    \<and> sent_calls (con_bus c') = sent_calls (con_bus c)
    \<and> um_find (sessions (con_tp c')) (peer, me) = Some (rx_session 0xFF peer me g xs 0 la)"
proof -
  let ?t = "tp_reading me rts c"
  let ?s = "rx_session 0xFF peer me g xs 0 (tp_now (bus_adapter S) ?t)"
  have "tp_source_address (bus_adapter S) ?t = me" by (simp add: tp_source_address_def bus_adapter_def)
  from canary_frame_header.rx_rts [OF assms(1,5,6) this, of "0xFF" peer g]
  have r: "on_can_frame C (bus_adapter S) rts ?t = Inr ((put_session (peer, me) ?s ?t)
      \<lparr>tp_bus := bus_sends (bus_adapter S) [cts] (tp_bus ?t)\<rparr>)"
    unfolding assms(7,8) .
  have h: "fh_source_address C (header rts) = peer" "fh_pdu_specific C (header rts) = me"
    "\<not> normal_pgn (fh_pgn C (header rts))"
    using assms(7) by (simp_all add: canary_frame_header.base_frame_addresses [OF assms(1)]
        canary_frame_header.tp_frame_kinds [OF assms(1)])
  have "up (con_sock (tp_bus ?t))" using assms(4) by simp
  note s = reliable_socket.adapter_sends [OF assms(2) this, of "[cts]"]
  show ?thesis
    using on_receive_linked [OF assms(3) h r] s by auto
qed

text \<open>
  The acknowledgement that the sender puts on the bus itself carries the address of the receiver as its
  source: no receiver takes it for a frame to itself.
\<close>

lemma con_ignores_tail:
  assumes "canary_frame_header C" and "linked net me peer c" and "me \<noteq> peer"
    and "tail = (if P then [eom_frame C (tx_session peer me g xs 0)] else [])"
  shows "\<exists>c'. con_feed C S net tail c = Inr c' \<and> con_sock (con_bus c') = con_sock (con_bus c)
    \<and> con_calls (con_bus c') = con_calls (con_bus c) @ map Read_frame tail"
proof (cases P)
  case True
  let ?fr = "eom_frame C (tx_session peer me g xs 0)"
  have "fh_pdu_specific C (header ?fr) = peer" "\<not> fh_is_broadcast C (header ?fr)"
    by (simp_all add: canary_frame_header.base_frame_addresses [OF assms(1)] canary_frame_header.tp_frame_kinds [OF assms(1)])
  then have "\<not> accepts C net ?fr c" using assms(2,3) by (auto simp: linked_def accepts_def split: option.splits)
  from on_receive_other [OF assms(2) this, of S] True assms(4) show ?thesis by auto
qed (simp add: assms(4))

section \<open>Sequences of events\<close>

text \<open>What may happen to a connection, each time with the network as it is then.\<close>

datatype 'h con_event = Con_read "socket_error + 'h frame" | Con_send_frame "'h frame" | Con_send_to name "'h frame"
  | Con_send_data "'h data" | Con_timer bool

fun con_handle :: "'h canary_header \<Rightarrow> ('h, 'f, 's) socket \<Rightarrow> network \<Rightarrow> 'h con_event \<Rightarrow>
    ('h, 's) connection \<Rightarrow> failure + ('h, 's) connection" where
  "con_handle C S net (Con_read input) c = on_receive C S net input c"
| "con_handle C S net (Con_send_frame fr) c = map_sum id snd (con_send C S net fr c)"
| "con_handle C S net (Con_send_to n fr) c = map_sum id snd (send_to C S net n fr c)"
| "con_handle C S net (Con_send_data d) c = map_sum id snd (con_send_data C S net d c)"
| "con_handle C S net (Con_timer ec) c = Inr (con_tick C S ec c)"

fun con_run :: "'h canary_header \<Rightarrow> ('h, 'f, 's) socket \<Rightarrow> (network \<times> 'h con_event) list \<Rightarrow>
    ('h, 's) connection \<Rightarrow> failure + ('h, 's) connection" where
  "con_run C S [] c = Inr c"
| "con_run C S ((net, e) # es) c = (case con_handle C S net e c of Inl f \<Rightarrow> Inl f | Inr c \<Rightarrow> con_run C S es c)"

text \<open>A frame as other devices send it: consistent, and with one to eight bytes if it is not a control frame.\<close>

fun con_event_sane :: "'h canary_header \<Rightarrow> address_t set \<Rightarrow> 'h con_event \<Rightarrow> bool" where
  "con_event_sane C A (Con_read (Inr fr)) \<longleftrightarrow> frame_sane C A fr
     \<and> (normal_pgn (fh_pgn C (header fr)) \<longrightarrow> 0 < fh_payload_length C (header fr) \<and> fh_payload_length C (header fr) \<le> 8)"
| "con_event_sane C A e \<longleftrightarrow> True"

text \<open>The callbacks that the connection calls without a check are set, and it has a local name.\<close>

definition con_ok :: "address_t set \<Rightarrow> name \<Rightarrow> ('h, 's) connection \<Rightarrow> bool" where
  "con_ok A me c \<longleftrightarrow> con_on_read_set c \<and> con_on_data_set c \<and> local_name c = Some me \<and> tp_ok A (con_tp c)
     \<and> keeps con_on_error_set (Some con_tp_data) (Some con_tp_error) (con_tp c)"

interpretation ca: bus_invariant C "bus_adapter S" "\<lambda>_. True" con_on_error_set "Some con_tp_data" "Some con_tp_error"
  for C :: "'h canary_header" and S :: "('h, 'f, 's) socket"
  by unfold_locales (auto simp: bus_adapter_def con_write_def con_on_error_def con_tp_data_def con_tp_error_def split_beta Let_def)

lemma con_ok_bus:
  "con_ok A me c \<Longrightarrow> con_on_error_set b \<Longrightarrow> con_ok A me (c\<lparr>con_tp := (con_tp c)\<lparr>tp_bus := b\<rparr>\<rparr>)"
  by (simp add: con_ok_def keeps_def tp_ok_def)

lemma con_ok_upd: "con_ok A me c \<Longrightarrow> con_on_error_set (f (con_bus c)) \<Longrightarrow> con_ok A me (upd_bus f c)"
  unfolding upd_bus_def by (rule con_ok_bus)

lemma con_ok_frame [simp]:
  "con_ok A me (c\<lparr>out_buffer := x\<rparr>) = con_ok A me c" "con_ok A me (c\<lparr>in_buffer := x\<rparr>) = con_ok A me c"
  "con_ok A me (c\<lparr>con_reading := r\<rparr>) = con_ok A me c" "con_ok A me (ready_again C fr c) = con_ok A me c"
  by (simp_all add: con_ok_def ready_again_def async_read_def)

lemma con_ok_error_set: "con_ok A me c \<Longrightarrow> con_on_error_set (con_bus c)"
  by (simp add: con_ok_def keeps_def)

lemma write_keeps: "con_on_error_set b \<Longrightarrow> con_on_error_set (snd (con_write S fr b))"
  using ca.send_keeps [of b S fr] by (simp add: bus_adapter_def)

lemma send_raw_ok_inv: "con_ok A me c \<Longrightarrow> con_ok A me (snd (send_raw S fr c))"
  by (simp add: send_raw_def split_beta Let_def con_ok_upd write_keeps con_ok_error_set)

definition con_fine :: "address_t set \<Rightarrow> name \<Rightarrow> failure + ('h, 's) connection \<Rightarrow> bool" where
  "con_fine A me r \<longleftrightarrow> (case r of Inl f \<Rightarrow> False | Inr c \<Rightarrow> con_ok A me c)"

lemma con_fine_simps [simp]: "con_fine A me (Inr c) = con_ok A me c" "\<not> con_fine A me (Inl f)"
  by (simp_all add: con_fine_def)

lemma con_ok_local: "con_ok A me c \<Longrightarrow> local_name c = Some me"
  by (simp add: con_ok_def)

lemma refuse_ok: "con_ok A me c \<Longrightarrow> con_fine A me (map_sum id snd (refuse what c))"
  using con_ok_error_set [of A me c] by (simp add: refuse_def con_ok_upd)

lemma send_to_ok: "con_ok A me c \<Longrightarrow> con_fine A me (map_sum id snd (send_to C S net n fr c))"
  by (simp add: send_to_def con_ok_local Let_def refuse_ok send_raw_ok_inv)

lemma con_send_ok: "con_ok A me c \<Longrightarrow> con_fine A me (map_sum id snd (con_send C S net fr c))"
  by (simp add: con_send_def con_ok_local Let_def refuse_ok send_raw_ok_inv send_to_ok split: option.split)

lemma con_ok_tp:
  "con_ok A me c \<Longrightarrow> tp_ok A t \<Longrightarrow> keeps con_on_error_set (Some con_tp_data) (Some con_tp_error) t \<Longrightarrow>
   con_ok A me (c\<lparr>con_tp := t\<rparr>)"
  by (simp add: con_ok_def)

lemma con_ok_parts:
  "con_ok A me c \<Longrightarrow> tp_ok A (con_tp c)"
  "con_ok A me c \<Longrightarrow> keeps con_on_error_set (Some con_tp_data) (Some con_tp_error) (con_tp c)"
  by (simp_all add: con_ok_def)

lemma con_send_data_ok:
  assumes "con_ok A me c" and "net_get_address me net \<in> A"
  shows "con_fine A me (map_sum id snd (con_send_data C S net d c))"
proof -
  let ?c = "upd_bus (\<lambda>b. b\<lparr>src_addr := net_get_address me net\<rparr>) c"
  have c: "con_ok A me ?c" using con_ok_upd [OF assms(1)] con_ok_error_set [OF assms(1)] by simp
  have a: "tp_source_address (bus_adapter S) (con_tp ?c) \<in> A"
    using assms(2) by (simp add: tp_source_address_def bus_adapter_def)
  obtain ok t where t: "start_tx C (bus_adapter S) (data_payload d) (fh_pdu_specific C (data_header d))
      (fh_pgn C (data_header d)) (con_tp ?c) = Inr (ok, t)" "tp_ok A t"
    using start_tx_defined [OF con_ok_parts(1) [OF c] a] by blast
  have "con_ok A me (?c\<lparr>con_tp := t\<rparr>)"
    using con_ok_tp [OF c t(2)] ca.keeps_start_tx [OF con_ok_parts(2) [OF c] t(1)] .
  then show ?thesis
    using t(1) assms(1) by (simp add: con_send_data_def transport_send_def con_ok_local Let_def refuse_ok con_send_ok)
qed

lemma handle_frame_ok:
  assumes "con_ok A me c" and "src_addr (con_bus c) \<in> A" and "in_buffer c = fr" and "con_event_sane C A (Con_read (Inr fr))"
  shows "con_fine A me (handle_frame C S fr c)"
proof -
  have a: "tp_source_address (bus_adapter S) (con_tp c) \<in> A"
    using assms(2) by (simp add: tp_source_address_def bus_adapter_def)
  obtain t where t: "on_can_frame C (bus_adapter S) fr (con_tp c) = Inr t" "tp_ok A t"
    using on_can_frame_defined [OF con_ok_parts(1) [OF assms(1)] a] assms(4) by auto
  have c: "con_ok A me (c\<lparr>con_tp := t\<rparr>)"
    using con_ok_tp [OF assms(1) t(2)] ca.keeps_frame [OF con_ok_parts(2) [OF assms(1)] t(1)] .
  have "con_on_data_set c" "length (payload fr) = 8" using assms(1,4) by (simp_all add: con_ok_def frame_sane_def)
  then show ?thesis
    using t(1) c assms(3,4) con_ok_upd [OF c] con_ok_error_set [OF c]
    by (auto simp: handle_frame_def deliver_frame_def Let_def)
qed

lemma with_frame_ok: "con_ok A me c \<Longrightarrow> con_ok A me (with_frame net fr c)"
  by (auto simp: con_ok_def keeps_def tp_ok_def)

lemma on_receive_ok:
  assumes "con_ok A me c" and "net_get_address me net \<in> A" and "con_event_sane C A (Con_read input)"
  shows "con_fine A me (on_receive C S net input c)"
proof (cases input)
  case (Inl e)
  then show ?thesis
    using assms(1) con_ok_upd [of A me "c\<lparr>con_reading := False\<rparr>"] con_ok_error_set [OF assms(1)]
    by (simp add: on_receive_def con_on_error_def)
next
  case (Inr fr)
  have w: "con_ok A me (with_frame net fr c)" by (rule with_frame_ok [OF assms(1)])
  have "src_addr (con_bus (with_frame net fr c)) \<in> A"
    using assms(2) with_frame_tp [OF con_ok_local [OF assms(1)]] by simp
  with handle_frame_ok [OF w, of fr C S] assms(3)
  have "con_fine A me (handle_frame C S fr (with_frame net fr c))" by (simp add: Inr)
  then show ?thesis
    using assms(1) w unfolding Inr by (auto simp: on_receive_frame con_ok_def con_fine_def split: sum.splits)
qed

lemma con_tick_ok: "con_ok A me c \<Longrightarrow> con_ok A me (con_tick C S ec c)"
  unfolding con_tick_def by (intro con_ok_tp on_tick_timer_ok ca.keeps_tick con_ok_parts)

lemma con_handle_ok:
  assumes "con_ok A me c" and "net_get_address me net \<in> A" and "con_event_sane C A e"
  shows "con_fine A me (con_handle C S net e c)"
  using assms by (cases e) (auto simp: con_send_ok send_to_ok con_send_data_ok on_receive_ok con_tick_ok)

lemma con_run_ok:
  "con_ok A me c \<Longrightarrow> \<forall>(net, e) \<in> set es. net_get_address me net \<in> A \<and> con_event_sane C A e \<Longrightarrow>
   con_fine A me (con_run C S es c)"
proof (induction es arbitrary: c)
  case (Cons x es)
  obtain net e where x: "x = (net, e)" by fastforce
  have "con_fine A me (con_handle C S net e c)"
    by (rule con_handle_ok [OF Cons.prems(1)]) (use Cons.prems(2) x in simp_all)
  then obtain c' where "con_handle C S net e c = Inr c'" "con_ok A me c'"
    by (cases "con_handle C S net e c") auto
  then show ?case using Cons.IH Cons.prems(2) x by auto
qed simp

lemma con_ok_new:
  "con_ok A me (con_set_on_data True (con_set_on_error True (con_set_on_read True (con_new C s (Some me) target))))"
  by (simp add: con_ok_def keeps_def tp_ok_def con_set_on_data_def con_set_on_error_def con_set_on_read_def con_new_def
      set_rx_handler_def set_error_handler_def tp_new_def Let_def)

section \<open>The frames on the bus\<close>

text \<open>
  What reaches the bus. The socket takes a frame as it is or not at all, and \<open>log\<close> is what it has taken.
  \<open>typed\<close> says that these are frames for the bus and that the handlers are those of the connection.
\<close>

definition typed :: "'h canary_header \<Rightarrow> ('s \<Rightarrow> 'h frame list) \<Rightarrow> ('h, 's) connection \<Rightarrow> bool" where
  "typed C log c \<longleftrightarrow> keeps (\<lambda>b. list_all (can_frame C) (log (con_sock b)))
     (if con_on_data_set c then Some con_tp_data else None) (Some con_tp_error) (con_tp c)"

fun con_event_typed :: "'h canary_header \<Rightarrow> 'h con_event \<Rightarrow> bool" where
  "con_event_typed C (Con_send_frame fr) = can_frame C fr"
| "con_event_typed C (Con_send_to n fr) = can_frame C fr"
| "con_event_typed C (Con_send_data d) \<longleftrightarrow> fh_wf C (data_header d) \<and> fh_payload_length C (data_header d) \<le> 8"
| "con_event_typed C e = True"

locale logged_socket = canary_frame_header C for C :: "'h canary_header" +
  fixes S :: "('h, 'f, 's) socket" and log :: "'s \<Rightarrow> 'h frame list"
  assumes takes: "log (snd (sock_send S fr s)) = log s \<or> log (snd (sock_send S fr s)) = log s @ [fr]"
begin

lemma write_typed:
  "can_frame C fr \<Longrightarrow> list_all (can_frame C) (log (con_sock b)) \<Longrightarrow>
   list_all (can_frame C) (log (con_sock (snd (con_write S fr b))))"
  using takes [of fr "con_sock b"]
  by (auto simp: con_write_def con_on_error_def called_def Let_def split_beta)

lemma base_can_frame: "can_frame C fr"
  if "header fr = header (make_base_frame C g dst src)" and "length (payload fr) = 8"
  using that wf_put [of Pdu_specific] wf_put [of Source_address] length_set
  by (simp add: can_frame_def frame_wf_def make_base_frame_def frame_default_def fh_payload_length_def fh_set_payload_length_def [symmetric] Let_def)

lemma readdressed [simp]:
  "can_frame C fr \<Longrightarrow> can_frame C (fr\<lparr>header := fh_set_source_address C a (header fr)\<rparr>)"
  "can_frame C fr \<Longrightarrow> can_frame C (fr\<lparr>header := fh_set_pdu_specific C d (fh_set_source_address C a (header fr))\<rparr>)"
  using wf_put [of Pdu_specific d] wf_put [of Source_address a] length_put [of Pdu_specific d] length_put [of Source_address a]
  by (simp_all add: can_frame_def frame_wf_def)

end

sublocale logged_socket \<subseteq> td: bus_invariant C "bus_adapter S" "can_frame C" "\<lambda>b. list_all (can_frame C) (log (con_sock b))"
    "Some con_tp_data" "Some con_tp_error"
  by unfold_locales (auto simp: bus_adapter_def con_tp_data_def con_tp_error_def con_on_error_def called_def
      intro: base_can_frame write_typed)

sublocale logged_socket \<subseteq> tn: bus_invariant C "bus_adapter S" "can_frame C" "\<lambda>b. list_all (can_frame C) (log (con_sock b))"
    None "Some con_tp_error"
  by unfold_locales (auto intro: td.base_built td.send_keeps td.err_keeps)

context logged_socket
begin

lemma typed_tp_cases:
  "typed C log (c\<lparr>con_tp := t\<rparr>) \<longleftrightarrow> (if con_on_data_set c
     then keeps (\<lambda>b. list_all (can_frame C) (log (con_sock b))) (Some con_tp_data) (Some con_tp_error) t
     else keeps (\<lambda>b. list_all (can_frame C) (log (con_sock b))) None (Some con_tp_error) t)"
  by (simp add: typed_def)

lemma typed_tp:
  assumes "typed C log c"
  shows "start_tx C (bus_adapter S) xs dest g (con_tp c) = Inr (ok, t) \<Longrightarrow> typed C log (c\<lparr>con_tp := t\<rparr>)"
    "on_can_frame C (bus_adapter S) fr (con_tp c) = Inr t \<Longrightarrow> typed C log (c\<lparr>con_tp := t\<rparr>)"
    "typed C log (c\<lparr>con_tp := on_tick_timer C (bus_adapter S) ec (con_tp c)\<rparr>)"
  using assms unfolding typed_tp_cases typed_def
  by (auto split: if_splits intro: td.keeps_start_tx tn.keeps_start_tx td.keeps_frame tn.keeps_frame
      td.keeps_tick tn.keeps_tick)

lemma typed_log: "typed C log c \<Longrightarrow> list_all (can_frame C) (log (con_sock (con_bus c)))"
  by (simp add: typed_def keeps_def)

lemma typed_upd: "typed C log c \<Longrightarrow> (\<And>b. list_all (can_frame C) (log (con_sock b)) \<Longrightarrow>
    list_all (can_frame C) (log (con_sock (f b)))) \<Longrightarrow> typed C log (upd_bus f c)"
  by (simp add: typed_def keeps_def upd_bus_def)

lemma typed_fields [simp]:
  "typed C log (c\<lparr>out_buffer := fr\<rparr>) = typed C log c" "typed C log (c\<lparr>in_buffer := fr\<rparr>) = typed C log c"
  "typed C log (c\<lparr>con_reading := x\<rparr>) = typed C log c" "typed C log (ready_again C fr c) = typed C log c"
  "typed C log (async_read c) = typed C log c"
  by (simp_all add: typed_def ready_again_def async_read_def)

lemma typed_called [simp]: "typed C log c \<Longrightarrow> typed C log (upd_bus (called e) c)"
  by (rule typed_upd) (simp_all add: called_def)

lemma typed_send_raw: "typed C log c \<Longrightarrow> can_frame C fr \<Longrightarrow> typed C log (snd (send_raw S fr c))"
  using typed_log [of c] write_typed [of fr "con_bus c"]
  by (simp add: send_raw_def Let_def split_beta typed_upd)

lemma typed_refuse: "typed C log c \<Longrightarrow> refuse what c = Inr r \<Longrightarrow> typed C log (snd r)"
  by (auto simp: refuse_def split: if_splits)

lemma typed_send_to: "typed C log c \<Longrightarrow> can_frame C fr \<Longrightarrow> send_to C S net n fr c = Inr r \<Longrightarrow> typed C log (snd r)"
  by (auto simp: send_to_def Let_def typed_send_raw split: option.splits if_splits dest: typed_refuse)

lemma typed_send: "typed C log c \<Longrightarrow> can_frame C fr \<Longrightarrow> con_send C S net fr c = Inr r \<Longrightarrow> typed C log (snd r)"
  by (auto simp: con_send_def Let_def typed_send_raw split: option.splits if_splits dest: typed_refuse typed_send_to)

lemma typed_send_data:
  assumes "typed C log c" and "con_event_typed C (Con_send_data d)"
    and "con_send_data C S net d c = Inr r"
  shows "typed C log (snd r)"
proof -
  have "can_frame C \<lparr>header = data_header d, payload = data_payload d @ drop (length (data_payload d)) (payload (frame_default C))\<rparr>"
    if "length (data_payload d) \<le> 8"
    using assms(2) that by (simp add: can_frame_def frame_wf_def frame_default_def)
  with assms(1,3) have short: ?thesis if "length (data_payload d) \<le> 8"
    using that typed_send [OF assms(1)] by (auto simp: con_send_data_def)
  have long: "typed C log (c2\<lparr>con_tp := t\<rparr>)"
    if "c2 = upd_bus (\<lambda>b. b\<lparr>src_addr := a\<rparr>) c" "start_tx C (bus_adapter S) xs p g (con_tp c2) = Inr (ok, t)" for c2 a xs p g ok t
    by (rule typed_tp(1) [OF _ that(2)]) (simp add: that(1) typed_upd [OF assms(1)])
  show ?thesis
  proof (cases "length (data_payload d) \<le> 8")
    case False
    then show ?thesis
      using assms(3) typed_refuse [OF assms(1)] long [OF HOL.refl]
      by (auto simp: con_send_data_def transport_send_def Let_def split: option.splits if_splits sum.splits)
  qed (rule short)
qed

lemma typed_with_frame: "typed C log c \<Longrightarrow> typed C log (with_frame net fr c)"
  by (auto simp: typed_def keeps_def)

lemma typed_receive:
  assumes "typed C log c" and "on_receive C S net input c = Inr c'"
  shows "typed C log c'"
proof (cases input)
  case (Inl e)
  then show ?thesis
    using assms(1,2) typed_upd [of "c\<lparr>con_reading := False\<rparr>" "con_on_error ''read'' (ec_of_socket e)"]
    by (simp add: on_receive_def con_on_error_def called_def split: if_splits)
next
  case (Inr fr)
  have w: "typed C log (with_frame net fr c)" by (rule typed_with_frame [OF assms(1)])
  have "typed C log ((with_frame net fr c)\<lparr>con_tp := t\<rparr>)"
    if "on_can_frame C (bus_adapter S) fr (con_tp (with_frame net fr c)) = Inr t" for t
    by (rule typed_tp(2) [OF w that])
  then have "typed C log c2" if "handle_frame C S fr (with_frame net fr c) = Inr c2" for c2
    using that by (auto simp: handle_frame_def deliver_frame_def Let_def split: sum.splits if_splits)
  moreover have r: "con_on_read_set c" using assms(2) by (auto simp: on_receive_def Inr split: if_splits)
  ultimately show ?thesis
    using assms(2) w unfolding Inr on_receive_frame [OF r] by (auto split: if_splits simp: map_sum_Inr)
qed

lemma typed_tick: "typed C log c \<Longrightarrow> typed C log (con_tick C S ec c)"
  unfolding con_tick_def by (rule typed_tp(3))

lemma typed_handle:
  assumes "typed C log c" and "con_event_typed C e" and "con_handle C S net e c = Inr c'"
  shows "typed C log c'"
  using assms
  by (cases e) (auto simp: map_sum_Inr dest: typed_receive typed_send typed_send_to typed_send_data intro: typed_tick)

lemma typed_run: "typed C log c \<Longrightarrow> list_all (\<lambda>(net, e). con_event_typed C e) es \<Longrightarrow> con_run C S es c = Inr c' \<Longrightarrow> typed C log c'"
proof (induction es arbitrary: c)
  case (Cons x es)
  obtain net e where x: "x = (net, e)" by fastforce
  obtain c2 where c2: "con_handle C S net e c = Inr c2" using Cons.prems(3) by (auto simp: x split: sum.splits)
  have "typed C log c2" by (rule typed_handle [OF Cons.prems(1) _ c2]) (use Cons.prems(2) x in simp)
  then show ?case using Cons.IH Cons.prems(2,3) by (simp add: x c2)
qed simp

lemma typed_new:
  "list_all (can_frame C) (log s) \<Longrightarrow>
   typed C log (con_set_on_data x (con_set_on_error y (con_set_on_read z (con_new C s local target))))"
  by (simp add: typed_def keeps_def con_set_on_data_def con_set_on_error_def con_set_on_read_def con_new_def upd_bus_def
      set_rx_handler_def set_error_handler_def tp_new_def Let_def)

end

interpretation lgs: logged_socket can_header_ops log_socket fst
  by unfold_locales (simp add: log_socket_def split_beta)

section \<open>Properties\<close>











text \<open>
  C3. A long message travels between two connections: the sender announces it under the address of its
  local name, the connection with the destination address answers, and its answer makes the sender
  send the packets, which the other connection puts together and hands to its user as one message,
  once and unchanged. These frames are all that is sent, no error is reported on either side, and the
  receiver is not confused by the acknowledgement that the sender adds.
\<close>

theorem connection_message_delivered:
  assumes "canary_frame_header C" and "reliable_socket S log up" and "reliable_socket S' log' up'"
    and "linked net sa da a" and "linked net' da sa b" and "con_on_data_set b"
    and "up (con_sock (con_bus a))" and "up' (con_sock (con_bus b))"
    and "8 < length (data_payload d)" and "length (data_payload d) \<le> 1785"
    and "fh_pdu_specific C (data_header d) = da" and "da \<noteq> J1939_NO_ADDR" and "sa \<noteq> J1939_IDLE_ADDR" and "sa \<noteq> da"
  shows "\<exists>a1 rts b1 cts a2 packets tail b2 eom.
    con_send_data C S net d a = Inr (True, a1) \<and> log (con_sock (con_bus a1)) = log (con_sock (con_bus a)) @ [rts]
    \<and> on_receive C S' net' (Inr rts) b = Inr b1 \<and> log' (con_sock (con_bus b1)) = log' (con_sock (con_bus b)) @ [cts]
    \<and> on_receive C S net (Inr cts) a1 = Inr a2
    \<and> log (con_sock (con_bus a2)) = log (con_sock (con_bus a1)) @ packets @ tail
    \<and> length packets = (length (data_payload d) + 6) div 7
    \<and> con_feed C S' net' (packets @ tail) b1 = Inr b2
    \<and> log' (con_sock (con_bus b2)) = log' (con_sock (con_bus b1)) @ [eom]
    \<and> con_calls (con_bus a2) = con_calls (con_bus a) @ sent_calls (con_bus a) [rts]
        @ [Read_frame cts] @ sent_calls (con_bus a) (packets @ tail)
    \<and> con_calls (con_bus b2) = con_calls (con_bus b) @ [Read_frame rts] @ sent_calls (con_bus b) [cts]
        @ map Read_frame packets
        @ [Data_received (tp_message C sa da (fh_pgn C (data_header d)) (data_payload d))]
        @ sent_calls (con_bus b) [eom] @ map Read_frame tail"
proof -
  let ?g = "fh_pgn C (data_header d)" and ?xs = "data_payload d"
  define rts where "rts = announcement C RTS 0xFF sa da ?g ?xs"
  define cts where "cts = cts_frame C (rx_session 0xFF sa da ?g ?xs 0 0)"
  define packets where "packets = map (dt_packet C da sa ?xs) [0..<packets_of ?xs]"
  define tail where "tail = (if length ?xs \<le> 1778 then [eom_frame C (tx_session sa da ?g ?xs 0)] else [])"
  have da: "da \<noteq> 0xFF" using assms(12) by (simp add: J1939_NO_ADDR_def)
  obtain a1 now where a1: "con_send_data C S net d a = Inr (True, a1)" "linked net sa da a1"
    "log (con_sock (con_bus a1)) = log (con_sock (con_bus a)) @ [rts]" "up (con_sock (con_bus a1))"
    "con_calls (con_bus a1) = con_calls (con_bus a) @ sent_calls (con_bus a) [rts]"
    "sent_calls (con_bus a1) = sent_calls (con_bus a)"
    "um_find (sessions (con_tp a1)) (sa, da) = Some (tx_session sa da ?g ?xs now)"
    using con_send_announces [OF assms(2,4,7,9,10,11) da assms(13) rts_def] by blast
  obtain b1 la where b1: "on_receive C S' net' (Inr rts) b = Inr b1" "linked net' da sa b1" "con_on_data_set b1"
    "log' (con_sock (con_bus b1)) = log' (con_sock (con_bus b)) @ [cts]" "up' (con_sock (con_bus b1))"
    "con_calls (con_bus b1) = con_calls (con_bus b) @ Read_frame rts # sent_calls (con_bus b) [cts]"
    "sent_calls (con_bus b1) = sent_calls (con_bus b)"
    "um_find (sessions (con_tp b1)) (sa, da) = Some (rx_session 0xFF sa da ?g ?xs 0 la)"
    using con_answers_request [OF assms(1,3,5,8,10) da rts_def cts_def] assms(6) by blast
  obtain a2 where a2: "on_receive C S net (Inr cts) a1 = Inr a2"
    "log (con_sock (con_bus a2)) = log (con_sock (con_bus a1)) @ packets @ tail"
    "con_calls (con_bus a2) = con_calls (con_bus a1) @ Read_frame cts # sent_calls (con_bus a1) (packets @ tail)"
    using con_sends_packets [OF assms(1,2) a1(2,4) assms(10) a1(7) da cts_def HOL.refl]
    unfolding packets_def tail_def by blast
  obtain b2 eom where b2: "con_feed C S' net' packets b1 = Inr b2" "linked net' da sa b2"
    "log' (con_sock (con_bus b2)) = log' (con_sock (con_bus b1)) @ [eom]"
    "con_calls (con_bus b2) = con_calls (con_bus b1) @ map Read_frame packets
        @ [Data_received (tp_message C sa da ?g ?xs)] @ sent_calls (con_bus b1) [eom]"
    using con_receive_message [OF assms(1,3,9,10) b1(2,3,5) da b1(8)] unfolding packets_def by blast
  obtain b3 where b3: "con_feed C S' net' tail b2 = Inr b3" "con_sock (con_bus b3) = con_sock (con_bus b2)"
    "con_calls (con_bus b3) = con_calls (con_bus b2) @ map Read_frame tail"
    using con_ignores_tail [OF assms(1) b2(2) assms(14) [symmetric] tail_def] by blast
  have "length packets = (length ?xs + 6) div 7" by (simp add: packets_def packets_of_def)
  then show ?thesis
    using a1(1,3,5,6) b1(1,4,6,7) a2 b2 b3
    by (intro exI [of _ a1] exI [of _ rts] exI [of _ b1] exI [of _ cts] exI [of _ a2] exI [of _ packets]
        exI [of _ tail] exI [of _ b3] exI [of _ eom]) (simp add: con_feed_append)
qed

theorem connection_message_delivered_witness:
  "let net = snd (net_insert (Name 1) 0x10 (snd (net_insert (Name 2) 0x20 (net_new ''can0'' False))));
       a = con_set_on_read True (con_new can_header_ops ([], 0) (Some (Name 1)) None);
       b = con_set_on_data True (con_set_on_read True (con_new can_header_ops ([], 0) (Some (Name 2)) (Some (Name 1))));
       d = \<lparr>data_header = fh_of_parts can_header_ops 6 False 0xEF 0x20 0 8, data_payload = [1, 2, 3, 4, 5, 6, 7, 8, 9]\<rparr>
   in \<exists>a1 rts b1 cts a2 frs b2.
    con_send_data can_header_ops log_socket net d a = Inr (True, a1) \<and> fst (con_sock (con_bus a1)) = [rts]
    \<and> on_receive can_header_ops log_socket net (Inr rts) b = Inr b1 \<and> fst (con_sock (con_bus b1)) = [cts]
    \<and> on_receive can_header_ops log_socket net (Inr cts) a1 = Inr a2
    \<and> con_feed can_header_ops log_socket net frs b1 = Inr b2
    \<and> map data_payload (data_calls (con_calls (con_bus b2))) = [[1, 2, 3, 4, 5, 6, 7, 8, 9]]
    \<and> error_calls (con_calls (con_bus b2)) = []"
proof -
  let ?net = "snd (net_insert (Name 1) 0x10 (snd (net_insert (Name 2) 0x20 (net_new ''can0'' False))))"
  let ?a = "con_set_on_read True (con_new can_header_ops ([], 0) (Some (Name 1)) None)"
  let ?b = "con_set_on_data True (con_set_on_read True (con_new can_header_ops ([], 0) (Some (Name 2)) (Some (Name 1))))"
  let ?d = "\<lparr>data_header = fh_of_parts can_header_ops 6 False 0xEF 0x20 0 8, data_payload = [1, 2, 3, 4, 5, 6, 7, 8, 9]\<rparr>"
  have n: "net_get_address (Name 1) ?net = 0x10" "net_get_address (Name 2) ?net = 0x20"
    "fh_pdu_specific can_header_ops (data_header ?d) = 0x20" "con_on_data_set ?b"
    by code_simp+
  have l: "linked ?net 0x10 0x20 ?a" "linked ?net 0x20 0x10 ?b"
    using n(1,2) by (simp_all add: linked_def con_set_on_read_def con_set_on_data_def con_new_def tp_new_def
        set_error_handler_def set_rx_handler_def Let_def)
  have e: "fst (con_sock (con_bus ?a)) = []" "fst (con_sock (con_bus ?b)) = []" "con_calls (con_bus ?b) = []"
    "data_payload ?d = [1, 2, 3, 4, 5, 6, 7, 8, 9]"
    by code_simp+
  have p: "8 < length (data_payload ?d)" "length (data_payload ?d) \<le> 1785" "(0x20 :: address_t) \<noteq> J1939_NO_ADDR"
    "(0x10 :: address_t) \<noteq> J1939_IDLE_ADDR" "(0x10 :: address_t) \<noteq> 0x20"
    by (simp_all add: J1939_NO_ADDR_def J1939_IDLE_ADDR_def)
  show ?thesis
    using connection_message_delivered [OF can.canary_frame_header_axioms ls.reliable_socket_axioms
        ls.reliable_socket_axioms l n(4) TrueI TrueI p(1,2) n(3) p(3-5)]
    unfolding Let_def e(1-3) append_Nil
    by (elim exE conjE, intro exI conjI) (assumption | simp add: tp_message_def Let_def)+
qed

end
