(* ===== verification/Jay_State_Machine.thy ===== *)
theory Jay_State_Machine
  imports Jay_Network
begin

text \<open>
  The class \<^verbatim>\<open>jay::address_state_machine\<close> of \<^verbatim>\<open>src/include/jay/address_state_machine.hpp\<close>:
  states, events, guards, actions and the transition table, in the order of the source. The
  table is data; the engine that runs it, \<^verbatim>\<open>boost::sml\<close>, is not part of the repository and is a
  parameter, with its documented behaviour as the laws of the locale \<open>boost_sml\<close>.
\<close>

section \<open>State\<close>

text \<open>
  What the machine shares with its surroundings: the network, and whatever else its callbacks
  change.
\<close>

record 'w env =
  env_net :: network
  env_world :: 'w

text \<open>An empty \<^verbatim>\<open>std::function\<close> is \<open>None\<close>.\<close>

record 'w callbacks =
  on_address :: "(name \<Rightarrow> u8 \<Rightarrow> 'w env \<Rightarrow> 'w env) option"
  on_lose_address :: "(name \<Rightarrow> 'w env \<Rightarrow> 'w env) option"
  on_begin_claiming :: "('w env \<Rightarrow> 'w env) option"
  on_address_claim :: "(name \<Rightarrow> u8 \<Rightarrow> 'w env \<Rightarrow> 'w env) option"
  on_request :: "('w env \<Rightarrow> 'w env) option"
  on_cannot_claim :: "(name \<Rightarrow> 'w env \<Rightarrow> 'w env) option"

record 'w address_state_machine =
  sm_name :: name
  sm_callbacks :: "'w callbacks"

definition callbacks_none :: "'w callbacks" where
  "callbacks_none = \<lparr>on_address = None, on_lose_address = None, on_begin_claiming = None,
     on_address_claim = None, on_request = None, on_cannot_claim = None\<rparr>"

definition asm_new :: "name \<Rightarrow> 'w address_state_machine" where
  "asm_new n = \<lparr>sm_name = n, sm_callbacks = callbacks_none\<rparr>"

text \<open>The constructor with callbacks; \<open>None\<close> is a failed assertion.\<close>

definition asm_new_callbacks :: "name \<Rightarrow> 'w callbacks \<Rightarrow> 'w address_state_machine option" where
  "asm_new_callbacks n cb =
     (if on_address cb \<noteq> None \<and> on_lose_address cb \<noteq> None \<and> on_begin_claiming cb \<noteq> None
        \<and> on_address_claim cb \<noteq> None \<and> on_request cb \<noteq> None \<and> on_cannot_claim cb \<noteq> None
      then Some \<lparr>sm_name = n, sm_callbacks = cb\<rparr> else None)"

definition asm_set_callbacks ::
  "'w callbacks \<Rightarrow> 'w address_state_machine \<Rightarrow> 'w address_state_machine" where
  "asm_set_callbacks cb m = m\<lparr>sm_callbacks := cb\<rparr>"

definition asm_get_name :: "'w address_state_machine \<Rightarrow> name" where
  "asm_get_name m = sm_name m"

datatype st = St_no_address | St_claiming | St_has_address | St_address_lost

datatype ev =
    Ev_start_claim (pref_address: address_t)
  | Ev_address_claim (claim_name: name_t) (claim_address: address_t)
  | Ev_address_request (destination_address: address_t)
  | Ev_timeout
  | Ev_random_retry
  | Ev_restart

text \<open>
  The objects the engine passes by reference to guards and actions: the two states that carry an
  address, the start event given to it at construction, and the surroundings.
\<close>

record 'w deps =
  claiming :: address_t
  has_address :: address_t
  dep_start_claim :: address_t
  deps_env :: "'w env"

abbreviation deps_net :: "'w deps \<Rightarrow> network" where
  "deps_net d \<equiv> env_net (deps_env d)"

definition deps_new :: "'w env \<Rightarrow> 'w deps" where
  "deps_new e = \<lparr>claiming = J1939_NO_ADDR, has_address = J1939_NO_ADDR, dep_start_claim = 0,
     deps_env = e\<rparr>"

section \<open>Guards\<close>

definition no_address_available :: "network \<Rightarrow> bool" where
  [machine_defs]: "no_address_available net = net_full net"

definition address_available :: "network \<Rightarrow> bool" where
  [machine_defs]: "address_available net = (\<not> net_full net)"

definition address_priority :: "'w address_state_machine \<Rightarrow> name \<Rightarrow> bool" where
  [machine_defs]: "address_priority m n = name_less (sm_name m) n"

definition address_conflict :: "address_t \<Rightarrow> address_t \<Rightarrow> bool" where
  [machine_defs]: "address_conflict l_address r_address = (l_address = r_address)"

definition address_change_required ::
  "'w address_state_machine \<Rightarrow> name \<Rightarrow> address_t \<Rightarrow> address_t \<Rightarrow> bool" where
  [machine_defs]: "address_change_required m n l_address r_address =
     (address_conflict l_address r_address \<and> \<not> address_priority m n)"

definition retry_allowed :: "'w address_state_machine \<Rightarrow> network \<Rightarrow> bool" where
  [machine_defs]: "retry_allowed m net = (self_config_address (sm_name m) \<noteq> 0 \<and> address_available net)"

definition retry_disallowed :: "'w address_state_machine \<Rightarrow> network \<Rightarrow> bool" where
  [machine_defs]: "retry_disallowed m net = (\<not> retry_allowed m net)"

definition claiming_priority ::
  "'w address_state_machine \<Rightarrow> address_t \<Rightarrow> name \<Rightarrow> address_t \<Rightarrow> bool" where
  [machine_defs]: "claiming_priority m cl n a = (address_conflict cl a \<and> address_priority m n)"

definition claiming_loss ::
  "'w address_state_machine \<Rightarrow> address_t \<Rightarrow> name \<Rightarrow> address_t \<Rightarrow> network \<Rightarrow> bool" where
  [machine_defs]: "claiming_loss m cl n a net =
     (address_change_required m n a cl \<and> address_available net)"

definition claiming_failure ::
  "'w address_state_machine \<Rightarrow> address_t \<Rightarrow> name \<Rightarrow> address_t \<Rightarrow> network \<Rightarrow> bool" where
  [machine_defs]: "claiming_failure m cl n a net =
     (address_change_required m n a cl \<and> no_address_available net)"

definition claimed_priority ::
  "'w address_state_machine \<Rightarrow> address_t \<Rightarrow> name \<Rightarrow> address_t \<Rightarrow> bool" where
  [machine_defs]: "claimed_priority m ha n a = (address_conflict ha a \<and> address_priority m n)"

definition claimed_loss ::
  "'w address_state_machine \<Rightarrow> address_t \<Rightarrow> name \<Rightarrow> address_t \<Rightarrow> network \<Rightarrow> bool" where
  [machine_defs]: "claimed_loss m ha n a net =
     (address_change_required m n a ha \<and> address_available net)"

definition claimed_failure ::
  "'w address_state_machine \<Rightarrow> address_t \<Rightarrow> name \<Rightarrow> address_t \<Rightarrow> network \<Rightarrow> bool" where
  [machine_defs]: "claimed_failure m ha n a net =
     (address_change_required m n a ha \<and> no_address_available net)"

definition valid_address :: "'w address_state_machine \<Rightarrow> address_t \<Rightarrow> network \<Rightarrow> bool" where
  [machine_defs]: "valid_address m cl net =
     (net_claimable cl (sm_name m) net \<or> net_get_address (sm_name m) net < J1939_IDLE_ADDR)"

definition no_valid_address :: "'w address_state_machine \<Rightarrow> address_t \<Rightarrow> network \<Rightarrow> bool" where
  [machine_defs]: "no_valid_address m cl net =
     (\<not> net_claimable cl (sm_name m) net \<and> net_get_address (sm_name m) net = J1939_IDLE_ADDR)"

definition is_global_address_req :: "address_t \<Rightarrow> bool" where
  [machine_defs]: "is_global_address_req dst = (dst = J1939_NO_ADDR)"

definition valid_claiming_request :: "address_t \<Rightarrow> address_t \<Rightarrow> bool" where
  [machine_defs]: "valid_claiming_request cl dst = (dst = cl \<or> is_global_address_req dst)"

definition valid_address_request :: "address_t \<Rightarrow> address_t \<Rightarrow> bool" where
  [machine_defs]: "valid_address_request ha dst = (dst = ha \<or> is_global_address_req dst)"

section \<open>Actions\<close>

text \<open>Calling a callback, which may be empty.\<close>

definition call_env :: "('w env \<Rightarrow> 'w env) option \<Rightarrow> 'w deps \<Rightarrow> 'w deps" where
  [machine_defs]: "call_env f d = (case f of None \<Rightarrow> d | Some g \<Rightarrow> d\<lparr>deps_env := g (deps_env d)\<rparr>)"

definition set_pref_address :: "address_t \<Rightarrow> 'w deps \<Rightarrow> 'w deps" where
  [machine_defs]: "set_pref_address pref d = d\<lparr>claiming := pref\<rparr>"

definition set_claimed_address :: "'w deps \<Rightarrow> 'w deps" where
  [machine_defs]: "set_claimed_address d = d\<lparr>has_address := claiming d\<rparr>"

definition set_claiming_address :: "'w deps \<Rightarrow> 'w deps" where
  [machine_defs]: "set_claiming_address d = d\<lparr>claiming := has_address d\<rparr>"

definition send_address_claim :: "'w address_state_machine \<Rightarrow> address_t \<Rightarrow> 'w deps \<Rightarrow> 'w deps" where
  "send_address_claim m address =
     call_env (map_option (\<lambda>f. f (sm_name m) address) (on_address_claim (sm_callbacks m)))"

definition send_request :: "'w address_state_machine \<Rightarrow> 'w deps \<Rightarrow> 'w deps" where
  "send_request m = call_env (on_request (sm_callbacks m))"

definition claim_address :: "'w address_state_machine \<Rightarrow> 'w deps \<Rightarrow> 'w deps" where
  "claim_address m d =
     (let address = net_find_address (sm_name m) (claiming d) (deps_net d)
      in send_address_claim m address (d\<lparr>claiming := address\<rparr>))"

definition begin_claiming_address :: "'w address_state_machine \<Rightarrow> 'w deps \<Rightarrow> 'w deps" where
  "begin_claiming_address m d = claim_address m (call_env (on_begin_claiming (sm_callbacks m)) d)"

definition send_claiming :: "'w address_state_machine \<Rightarrow> 'w deps \<Rightarrow> 'w deps" where
  "send_claiming m d = send_address_claim m (claiming d) d"

definition send_claimed :: "'w address_state_machine \<Rightarrow> 'w deps \<Rightarrow> 'w deps" where
  "send_claimed m d = send_address_claim m (has_address d) d"

definition send_cannot_claim :: "'w address_state_machine \<Rightarrow> 'w deps \<Rightarrow> 'w deps" where
  "send_cannot_claim m = call_env (map_option (\<lambda>f. f (sm_name m)) (on_cannot_claim (sm_callbacks m)))"

definition notify_address_gain :: "'w address_state_machine \<Rightarrow> 'w deps \<Rightarrow> 'w deps" where
  "notify_address_gain m d =
     call_env (map_option (\<lambda>f. f (sm_name m) (has_address d)) (on_address (sm_callbacks m))) d"

definition notify_address_loss :: "'w address_state_machine \<Rightarrow> 'w deps \<Rightarrow> 'w deps" where
  "notify_address_loss m = call_env (map_option (\<lambda>f. f (sm_name m)) (on_lose_address (sm_callbacks m)))"

section \<open>The transition table\<close>

datatype guard =
    Guard_no_address_available | Guard_address_available | Guard_retry_allowed
  | Guard_retry_disallowed | Guard_claiming_priority | Guard_claiming_loss | Guard_claiming_failure
  | Guard_claimed_priority | Guard_claimed_loss | Guard_claimed_failure | Guard_valid_address
  | Guard_no_valid_address | Guard_valid_claiming_request | Guard_is_global_address_req
  | Guard_valid_address_request

datatype action =
    Act_set_pref_address | Act_set_claimed_address | Act_set_claiming_address | Act_send_request
  | Act_begin_claiming_address | Act_send_claiming | Act_send_claimed | Act_send_cannot_claim
  | Act_notify_address_gain | Act_notify_address_loss

datatype trigger =
    On_entry | On_exit | On_start_claim | On_address_claim | On_address_request | On_timeout
  | On_random_retry | On_restart

fun trigger_of :: "ev \<Rightarrow> trigger" where
  "trigger_of (Ev_start_claim p) = On_start_claim"
| "trigger_of (Ev_address_claim n a) = On_address_claim"
| "trigger_of (Ev_address_request a) = On_address_request"
| "trigger_of Ev_timeout = On_timeout"
| "trigger_of Ev_random_retry = On_random_retry"
| "trigger_of Ev_restart = On_restart"

text \<open>\<open>Row src trigger guard action dst\<close> is \<^verbatim>\<open>state<src> + trigger[guard] / action = state<dst>\<close>.\<close>

datatype row = Row (row_src: st) (row_trigger: trigger) (row_guard: "guard option")
  (row_action: "action option") (row_dst: "st option")

definition transition_table :: "row list" where
  "transition_table =
    [Row St_no_address On_entry (Some Guard_address_available) (Some Act_send_request) None,
     Row St_no_address On_address_request (Some Guard_is_global_address_req) (Some Act_send_cannot_claim) None,
     Row St_no_address On_start_claim (Some Guard_address_available) (Some Act_set_pref_address) (Some St_claiming),
     Row St_no_address On_start_claim (Some Guard_no_address_available) (Some Act_send_cannot_claim) None,
     Row St_no_address On_restart None None (Some St_no_address),

     Row St_claiming On_entry None (Some Act_begin_claiming_address) None,
     Row St_claiming On_address_claim (Some Guard_claiming_priority) (Some Act_send_claiming) None,
     Row St_claiming On_address_claim (Some Guard_claiming_loss) (Some Act_begin_claiming_address) None,
     Row St_claiming On_address_claim (Some Guard_claiming_failure) None (Some St_address_lost),
     Row St_claiming On_timeout (Some Guard_valid_address) (Some Act_set_claimed_address) (Some St_has_address),
     Row St_claiming On_timeout (Some Guard_no_valid_address) None (Some St_no_address),
     Row St_claiming On_address_request (Some Guard_valid_claiming_request) (Some Act_send_claiming) None,

     Row St_has_address On_entry None (Some Act_notify_address_gain) None,
     Row St_has_address On_address_request (Some Guard_valid_address_request) (Some Act_send_claimed) None,
     Row St_has_address On_address_claim (Some Guard_claimed_priority) (Some Act_send_claimed) None,
     Row St_has_address On_address_claim (Some Guard_claimed_loss) (Some Act_set_claiming_address) (Some St_claiming),
     Row St_has_address On_address_claim (Some Guard_claimed_failure) None (Some St_address_lost),
     Row St_has_address On_exit None (Some Act_notify_address_loss) None,

     Row St_address_lost On_entry None (Some Act_send_cannot_claim) None,
     Row St_address_lost On_address_request (Some Guard_is_global_address_req) (Some Act_send_cannot_claim) None,
     Row St_address_lost On_random_retry (Some Guard_retry_allowed) (Some Act_set_pref_address) (Some St_claiming),
     Row St_address_lost On_random_retry (Some Guard_retry_disallowed) (Some Act_send_cannot_claim) (Some St_no_address)]"

text \<open>
  The function objects of the guards and actions. Their arguments are the machine, the state
  objects, the network and the event of their type; an action that takes a start event but is
  attached to another event gets the one the engine was constructed with.
\<close>

fun guard_holds :: "'w address_state_machine \<Rightarrow> guard \<Rightarrow> ev \<Rightarrow> 'w deps \<Rightarrow> bool" where
  "guard_holds m Guard_no_address_available e d = no_address_available (deps_net d)"
| "guard_holds m Guard_address_available e d = address_available (deps_net d)"
| "guard_holds m Guard_retry_allowed e d = retry_allowed m (deps_net d)"
| "guard_holds m Guard_retry_disallowed e d = retry_disallowed m (deps_net d)"
| "guard_holds m Guard_claiming_priority e d =
     (case e of Ev_address_claim n a \<Rightarrow> claiming_priority m (claiming d) (Name n) a | _ \<Rightarrow> False)"
| "guard_holds m Guard_claiming_loss e d =
     (case e of Ev_address_claim n a \<Rightarrow> claiming_loss m (claiming d) (Name n) a (deps_net d) | _ \<Rightarrow> False)"
| "guard_holds m Guard_claiming_failure e d =
     (case e of Ev_address_claim n a \<Rightarrow> claiming_failure m (claiming d) (Name n) a (deps_net d) | _ \<Rightarrow> False)"
| "guard_holds m Guard_claimed_priority e d =
     (case e of Ev_address_claim n a \<Rightarrow> claimed_priority m (has_address d) (Name n) a | _ \<Rightarrow> False)"
| "guard_holds m Guard_claimed_loss e d =
     (case e of Ev_address_claim n a \<Rightarrow> claimed_loss m (has_address d) (Name n) a (deps_net d) | _ \<Rightarrow> False)"
| "guard_holds m Guard_claimed_failure e d =
     (case e of Ev_address_claim n a \<Rightarrow> claimed_failure m (has_address d) (Name n) a (deps_net d) | _ \<Rightarrow> False)"
| "guard_holds m Guard_valid_address e d = valid_address m (claiming d) (deps_net d)"
| "guard_holds m Guard_no_valid_address e d = no_valid_address m (claiming d) (deps_net d)"
| "guard_holds m Guard_valid_claiming_request e d =
     (case e of Ev_address_request a \<Rightarrow> valid_claiming_request (claiming d) a | _ \<Rightarrow> False)"
| "guard_holds m Guard_is_global_address_req e d =
     (case e of Ev_address_request a \<Rightarrow> is_global_address_req a | _ \<Rightarrow> False)"
| "guard_holds m Guard_valid_address_request e d =
     (case e of Ev_address_request a \<Rightarrow> valid_address_request (has_address d) a | _ \<Rightarrow> False)"

fun run_action :: "'w address_state_machine \<Rightarrow> action \<Rightarrow> ev \<Rightarrow> 'w deps \<Rightarrow> 'w deps" where
  "run_action m Act_set_pref_address e d =
     set_pref_address (case e of Ev_start_claim p \<Rightarrow> p | _ \<Rightarrow> dep_start_claim d) d"
| "run_action m Act_set_claimed_address e d = set_claimed_address d"
| "run_action m Act_set_claiming_address e d = set_claiming_address d"
| "run_action m Act_send_request e d = send_request m d"
| "run_action m Act_begin_claiming_address e d = begin_claiming_address m d"
| "run_action m Act_send_claiming e d = send_claiming m d"
| "run_action m Act_send_claimed e d = send_claimed m d"
| "run_action m Act_send_cannot_claim e d = send_cannot_claim m d"
| "run_action m Act_notify_address_gain e d = notify_address_gain m d"
| "run_action m Act_notify_address_loss e d = notify_address_loss m d"

section \<open>The engine\<close>

text \<open>
  What the documentation of \<^verbatim>\<open>boost::sml\<close> says of a table: the first row of the current state and
  event whose guard holds is taken. A row without a target runs its action only. A row with a
  target runs the exit action of the old state, its own action and the entry action of the
  target, in this order. An event without such a row is ignored.
\<close>

definition row_enabled ::
  "(guard \<Rightarrow> ev \<Rightarrow> 'd \<Rightarrow> bool) \<Rightarrow> st \<Rightarrow> trigger \<Rightarrow> ev \<Rightarrow> 'd \<Rightarrow> row \<Rightarrow> bool" where
  "row_enabled gh s t e d r \<longleftrightarrow> row_src r = s \<and> row_trigger r = t \<and>
     (case row_guard r of None \<Rightarrow> True | Some g \<Rightarrow> gh g e d)"

definition row_run :: "(action \<Rightarrow> ev \<Rightarrow> 'd \<Rightarrow> 'd) \<Rightarrow> ev \<Rightarrow> 'd \<Rightarrow> row \<Rightarrow> 'd" where
  "row_run ra e d r = (case row_action r of None \<Rightarrow> d | Some a \<Rightarrow> ra a e d)"

definition state_hook :: "(guard \<Rightarrow> ev \<Rightarrow> 'd \<Rightarrow> bool) \<Rightarrow> (action \<Rightarrow> ev \<Rightarrow> 'd \<Rightarrow> 'd) \<Rightarrow> row list \<Rightarrow>
    trigger \<Rightarrow> st \<Rightarrow> ev \<Rightarrow> 'd \<Rightarrow> 'd" where
  "state_hook gh ra tab t s e d =
     (case List.find (row_enabled gh s t e d) tab of None \<Rightarrow> d | Some r \<Rightarrow> row_run ra e d r)"

type_synonym 'd sml_engine = "row list \<Rightarrow> (guard \<Rightarrow> ev \<Rightarrow> 'd \<Rightarrow> bool) \<Rightarrow> (action \<Rightarrow> ev \<Rightarrow> 'd \<Rightarrow> 'd) \<Rightarrow>
  ev \<Rightarrow> st \<times> 'd \<Rightarrow> st \<times> 'd"

locale boost_sml =
  fixes sml :: "'w deps sml_engine"
  assumes sml_unhandled:
      "List.find (row_enabled gh s (trigger_of e) e d) tab = None \<Longrightarrow> sml tab gh ra e (s, d) = (s, d)"
    and sml_internal:
      "List.find (row_enabled gh s (trigger_of e) e d) tab = Some r \<Longrightarrow> row_dst r = None \<Longrightarrow>
       sml tab gh ra e (s, d) = (s, row_run ra e d r)"
    and sml_external:
      "List.find (row_enabled gh s (trigger_of e) e d) tab = Some r \<Longrightarrow> row_dst r = Some t \<Longrightarrow>
       sml tab gh ra e (s, d) = (t, state_hook gh ra tab On_entry t e
         (row_run ra e (state_hook gh ra tab On_exit s e d) r))"

text \<open>The machine: the engine on the table of the class.\<close>

definition process_event ::
  "'w deps sml_engine \<Rightarrow> 'w address_state_machine \<Rightarrow> ev \<Rightarrow> st \<times> 'w deps \<Rightarrow> st \<times> 'w deps" where
  "process_event sml m = sml transition_table (guard_holds m) (run_action m)"

section \<open>An engine with these laws\<close>

definition sml_run :: "'d sml_engine" where
  "sml_run tab gh ra e c =
     (case c of (s, d) \<Rightarrow>
        (case List.find (row_enabled gh s (trigger_of e) e d) tab of
           None \<Rightarrow> (s, d)
         | Some r \<Rightarrow> (case row_dst r of
              None \<Rightarrow> (s, row_run ra e d r)
            | Some t \<Rightarrow> (t, state_hook gh ra tab On_entry t e
                (row_run ra e (state_hook gh ra tab On_exit s e d) r)))))"

interpretation run: boost_sml sml_run
  by unfold_locales (simp_all add: sml_run_def)

context boost_sml
begin

lemma sml_eq_run: "sml = sml_run"
proof (intro ext)
  fix tab gh ra e c
  show "sml tab gh ra e c = sml_run tab gh ra e c"
  proof (cases c)
    case (Pair s d)
    then show ?thesis
      using sml_unhandled [of gh s e d tab ra] sml_internal [of gh s e d tab _ ra]
        sml_external [of gh s e d tab _ _ ra]
      by (simp add: sml_run_def split: option.split)
  qed
qed

end

section \<open>The machine by states and events\<close>

definition reenter :: "'w address_state_machine \<Rightarrow> 'w deps \<Rightarrow> 'w deps" where
  "reenter m d = (if net_full (deps_net d) then d else send_request m d)"

fun asm_step :: "'w address_state_machine \<Rightarrow> ev \<Rightarrow> st \<times> 'w deps \<Rightarrow> st \<times> 'w deps" where
  "asm_step m (Ev_start_claim p) (St_no_address, d) =
     (if net_full (deps_net d) then (St_no_address, send_cannot_claim m d)
      else (St_claiming, begin_claiming_address m (d\<lparr>claiming := p\<rparr>)))"
| "asm_step m Ev_restart (St_no_address, d) = (St_no_address, reenter m d)"
| "asm_step m (Ev_address_claim n a) (St_claiming, d) =
     (if a \<noteq> claiming d then (St_claiming, d)
      else if name_less (sm_name m) (Name n) then (St_claiming, send_claiming m d)
      else if net_full (deps_net d) then (St_address_lost, send_cannot_claim m d)
      else (St_claiming, begin_claiming_address m d))"
| "asm_step m Ev_timeout (St_claiming, d) =
     (if net_claimable (claiming d) (sm_name m) (deps_net d) \<or>
         unicast (net_get_address (sm_name m) (deps_net d))
      then (St_has_address, notify_address_gain m (d\<lparr>has_address := claiming d\<rparr>))
      else if net_get_address (sm_name m) (deps_net d) = J1939_IDLE_ADDR
      then (St_no_address, reenter m d)
      else (St_claiming, d))"
| "asm_step m (Ev_address_claim n a) (St_has_address, d) =
     (if a \<noteq> has_address d then (St_has_address, d)
      else if name_less (sm_name m) (Name n) then (St_has_address, send_claimed m d)
      else if net_full (deps_net d)
      then (St_address_lost, send_cannot_claim m (notify_address_loss m d))
      else (St_claiming, begin_claiming_address m (set_claiming_address (notify_address_loss m d))))"
| "asm_step m Ev_random_retry (St_address_lost, d) =
     (if self_config_address (sm_name m) \<noteq> 0 \<and> \<not> net_full (deps_net d)
      then (St_claiming, begin_claiming_address m (d\<lparr>claiming := dep_start_claim d\<rparr>))
      else (St_no_address, reenter m (send_cannot_claim m d)))"
| "asm_step m (Ev_address_request a) (St_claiming, d) =
     (St_claiming, if a = claiming d \<or> a = J1939_NO_ADDR then send_claiming m d else d)"
| "asm_step m (Ev_address_request a) (St_has_address, d) =
     (St_has_address, if a = has_address d \<or> a = J1939_NO_ADDR then send_claimed m d else d)"
| "asm_step m (Ev_address_request a) (s, d) =
     (s, if a = J1939_NO_ADDR then send_cannot_claim m d else d)"
| "asm_step m e (s, d) = (s, d)"

lemma less_idle_unicast: "a < J1939_IDLE_ADDR \<longleftrightarrow> unicast a"
  by (simp add: J1939_IDLE_ADDR_def J1939_MAX_UNICAST_ADDR_def word_less_nat_alt word_le_nat_alt)
    linarith

lemma process_event_run: "process_event sml_run m e (s, d) = asm_step m e (s, d)"
  by (cases s; cases e)
    (simp_all add: process_event_def sml_run_def transition_table_def row_enabled_def row_run_def
      state_hook_def machine_defs reenter_def less_idle_unicast)

section \<open>The calls the machine makes\<close>

text \<open>
  Callbacks that record their calls, and change the network in a way given by \<open>h\<close>.
\<close>

datatype call = Call_address name u8 | Call_lose_address name | Call_begin_claiming
  | Call_address_claim name u8 | Call_request | Call_cannot_claim name

definition record_call :: "(call \<Rightarrow> network \<Rightarrow> network) \<Rightarrow> call \<Rightarrow> call list env \<Rightarrow> call list env" where
  "record_call h c e = \<lparr>env_net = h c (env_net e), env_world = env_world e @ [c]\<rparr>"

definition recording :: "(call \<Rightarrow> network \<Rightarrow> network) \<Rightarrow> call list callbacks" where
  "recording h = \<lparr>
     on_address = Some (\<lambda>n a. record_call h (Call_address n a)),
     on_lose_address = Some (\<lambda>n. record_call h (Call_lose_address n)),
     on_begin_claiming = Some (record_call h Call_begin_claiming),
     on_address_claim = Some (\<lambda>n a. record_call h (Call_address_claim n a)),
     on_request = Some (record_call h Call_request),
     on_cannot_claim = Some (\<lambda>n. record_call h (Call_cannot_claim n))\<rparr>"

definition recorder :: "(call \<Rightarrow> network \<Rightarrow> network) \<Rightarrow> name \<Rightarrow> call list address_state_machine" where
  "recorder h n = asm_set_callbacks (recording h) (asm_new n)"

abbreviation calls :: "call list deps \<Rightarrow> call list" where
  "calls d \<equiv> env_world (deps_env d)"

definition deps_call :: "(call \<Rightarrow> network \<Rightarrow> network) \<Rightarrow> call \<Rightarrow> call list deps \<Rightarrow> call list deps" where
  "deps_call h c d = d\<lparr>deps_env := record_call h c (deps_env d)\<rparr>"

lemma deps_call_simps [simp]:
  "calls (deps_call h c d) = calls d @ [c]"
  "deps_net (deps_call h c d) = h c (deps_net d)"
  "claiming (deps_call h c d) = claiming d"
  "has_address (deps_call h c d) = has_address d"
  "dep_start_claim (deps_call h c d) = dep_start_claim d"
  by (simp_all add: deps_call_def record_call_def)

lemma recorder_name [simp]: "sm_name (recorder h n) = n"
  by (simp add: recorder_def asm_set_callbacks_def asm_new_def)

lemma recorder_actions [simp]:
  "send_address_claim (recorder h n) a d = deps_call h (Call_address_claim n a) d"
  "send_request (recorder h n) d = deps_call h Call_request d"
  "send_cannot_claim (recorder h n) d = deps_call h (Call_cannot_claim n) d"
  "notify_address_gain (recorder h n) d = deps_call h (Call_address n (has_address d)) d"
  "notify_address_loss (recorder h n) d = deps_call h (Call_lose_address n) d"
  "send_claiming (recorder h n) d = deps_call h (Call_address_claim n (claiming d)) d"
  "send_claimed (recorder h n) d = deps_call h (Call_address_claim n (has_address d)) d"
  by (simp_all add: send_address_claim_def send_request_def send_cannot_claim_def
      notify_address_gain_def notify_address_loss_def send_claiming_def send_claimed_def call_env_def
      recorder_def asm_set_callbacks_def asm_new_def recording_def deps_call_def)

text \<open>The address the machine turns to when it begins to claim.\<close>

definition next_address :: "(call \<Rightarrow> network \<Rightarrow> network) \<Rightarrow> name \<Rightarrow> call list deps \<Rightarrow> address_t" where
  "next_address h n d = net_find_address n (claiming d) (h Call_begin_claiming (deps_net d))"

lemma recorder_begin [simp]:
  "calls (begin_claiming_address (recorder h n) d) =
     calls d @ [Call_begin_claiming, Call_address_claim n (next_address h n d)]"
  "claiming (begin_claiming_address (recorder h n) d) = next_address h n d"
  by (simp_all add: begin_claiming_address_def claim_address_def Let_def next_address_def)
    (simp_all add: recorder_def asm_set_callbacks_def recording_def call_env_def deps_call_def
      record_call_def)

text \<open>
  The histories of a machine whose network is also changed by others.
\<close>

inductive asm_reach :: "call list deps sml_engine \<Rightarrow> (call \<Rightarrow> network \<Rightarrow> network) \<Rightarrow> name \<Rightarrow>
    st \<times> call list deps \<Rightarrow> bool" for sml h n where
  start: "asm_reach sml h n (St_no_address, deps_new \<lparr>env_net = net, env_world = []\<rparr>)"
| event: "asm_reach sml h n c \<Longrightarrow> asm_reach sml h n (process_event sml (recorder h n) e c)"
| others: "asm_reach sml h n (s, d) \<Longrightarrow>
    asm_reach sml h n (s, d\<lparr>deps_env := (deps_env d)\<lparr>env_net := net\<rparr>\<rparr>)"

text \<open>
  The protocol of the calls: an address is reported only while none is held and only when it is
  the one claimed last; a loss is reported only while an address is held. The state is whether an
  address is held, and the address claimed last.
\<close>

fun protocol_step :: "name \<Rightarrow> call \<Rightarrow> (bool \<times> address_t option) option \<Rightarrow> (bool \<times> address_t option) option" where
  "protocol_step n c None = None"
| "protocol_step n (Call_address m a) (Some (h, l)) =
     (if m = n \<and> \<not> h \<and> l = Some a then Some (True, l) else None)"
| "protocol_step n (Call_lose_address m) (Some (h, l)) = (if m = n \<and> h then Some (False, l) else None)"
| "protocol_step n (Call_address_claim m a) (Some (h, l)) = (if m = n then Some (h, Some a) else None)"
| "protocol_step n c (Some (h, l)) = Some (h, l)"

definition protocol :: "name \<Rightarrow> call list \<Rightarrow> (bool \<times> address_t option) option" where
  "protocol n cs = fold (protocol_step n) cs (Some (False, None))"

lemma protocol_append [simp]: "protocol n (cs @ cs') = fold (protocol_step n) cs' (protocol n cs)"
  by (simp add: protocol_def)

text \<open>What links the state of the machine to the calls.\<close>

definition asm_inv :: "name \<Rightarrow> st \<times> call list deps \<Rightarrow> bool" where
  "asm_inv n c = (case c of (s, d) \<Rightarrow> (case protocol n (calls d) of None \<Rightarrow> False
     | Some (h, l) \<Rightarrow> h = (s = St_has_address)
        \<and> (s = St_claiming \<longrightarrow> l = Some (claiming d))
        \<and> (s = St_has_address \<longrightarrow> l = Some (has_address d))))"

lemma asm_inv_step:
  assumes "asm_inv n (s, d)"
  shows "asm_inv n (asm_step (recorder h n) e (s, d))"
  using assms
  by (cases s; cases e)
    (auto simp: asm_inv_def reenter_def set_claiming_address_def split: option.splits)

context boost_sml
begin

lemma process_event_step: "process_event sml m e c = asm_step m e c"
  by (cases c) (simp add: sml_eq_run process_event_run)

end

lemma asm_reach_inv:
  assumes "boost_sml sml" and "asm_reach sml h n c"
  shows "asm_inv n c"
  using assms(2)
proof (induction rule: asm_reach.induct)
  case (start net)
  then show ?case by (simp add: asm_inv_def deps_new_def protocol_def)
next
  case (event c e)
  then show ?case
    by (cases c) (simp add: boost_sml.process_event_step [OF assms(1)] asm_inv_step)
next
  case (others s d net)
  then show ?case by (auto simp: asm_inv_def split: option.splits)
qed

section \<open>Properties\<close>

text \<open>The surroundings of the examples: an empty network and no calls yet.\<close>

definition deps_example :: "call list deps" where
  "deps_example = deps_new \<lparr>env_net = net_new ''can0'' False, env_world = []\<rparr>"



text \<open>
  No two rows of the table compete: for a state, a trigger and an event at most one row has a
  guard that holds, so the order of the rows does not matter.
\<close>

theorem state_machine_deterministic:
  "length (filter (row_enabled (guard_holds m) s t e d) transition_table) \<le> 1"
  by (cases s; cases t; cases e)
    (auto simp: transition_table_def row_enabled_def machine_defs)

text \<open>
  C19. In every history, whatever the callbacks and the other users do to the network, the
  machine reports an address only while it holds none and only when it is the address it claimed
  last, and it reports a loss only while it holds one; it holds one exactly in the state
  \<open>St_has_address\<close>, and there the address of the state is the one claimed last.
\<close>

theorem state_machine_protocol:
  assumes "boost_sml sml" and "asm_reach sml h n (s, d)"
  shows "\<exists>l. protocol n (calls d) = Some (s = St_has_address, l)
    \<and> (s = St_claiming \<longrightarrow> l = Some (claiming d)) \<and> (s = St_has_address \<longrightarrow> l = Some (has_address d))"
  using asm_reach_inv [OF assms] by (auto simp: asm_inv_def split: option.splits)

theorem state_machine_protocol_witness:
  "let c = process_event sml_run (recorder (\<lambda>c. id) (Name 7)) Ev_timeout
       (process_event sml_run (recorder (\<lambda>c. id) (Name 7)) (Ev_start_claim 5) (St_no_address, deps_example))
   in fst c = St_has_address \<and> protocol (Name 7) (calls (snd c)) = Some (True, Some 5)"
proof -
  let ?c = "process_event sml_run (recorder (\<lambda>c. id) (Name 7)) Ev_timeout
       (process_event sml_run (recorder (\<lambda>c. id) (Name 7)) (Ev_start_claim 5) (St_no_address, deps_example))"
  have c: "fst ?c = St_has_address" "has_address (snd ?c) = 5" by code_simp+
  have "asm_reach sml_run (\<lambda>c. id) (Name 7) ?c"
    unfolding deps_example_def by (intro asm_reach.intros)
  then have "asm_reach sml_run (\<lambda>c. id) (Name 7) (fst ?c, snd ?c)" by simp
  from state_machine_protocol [OF run.boost_sml_axioms this] c show ?thesis by (simp only: Let_def) auto
qed

text \<open>
  A request to all devices for their address gets exactly one answer in every state, a claim
  of the address when the machine is claiming or has one and a cannot-claim otherwise, and the
  state stays. A request to another address gets none.
\<close>

theorem state_machine_answers_requests:
  assumes "boost_sml sml"
  shows "let (s', d') = process_event sml (recorder h n) (Ev_address_request a) (s, d)
    in s' = s \<and> calls d' = calls d @
      (if s = St_claiming \<and> a \<in> {claiming d, J1939_NO_ADDR} then [Call_address_claim n (claiming d)]
       else if s = St_has_address \<and> a \<in> {has_address d, J1939_NO_ADDR} then [Call_address_claim n (has_address d)]
       else if s \<in> {St_no_address, St_address_lost} \<and> a = J1939_NO_ADDR then [Call_cannot_claim n]
       else [])"
  by (cases s) (simp_all add: boost_sml.process_event_step [OF assms])

theorem state_machine_answers_requests_witness:
  "calls (snd (process_event sml_run (recorder (\<lambda>c. id) (Name 7)) (Ev_address_request J1939_NO_ADDR)
     (St_no_address, deps_example))) = [Call_cannot_claim (Name 7)]"
  using state_machine_answers_requests [OF run.boost_sml_axioms,
      of "\<lambda>c. id" "Name 7" J1939_NO_ADDR St_no_address deps_example]
  by (simp add: split_beta deps_example_def deps_new_def)

text \<open>
  C20. How the machine answers a claim of another device when it has an address. A claim of a
  different address is ignored. A claim of its address by a name of lower priority is answered by
  claiming the address again. Otherwise the loss is reported first, and then the machine claims
  the address that the search returns from the lost one on, or, on a full network, reports that
  it cannot claim.
\<close>

theorem state_machine_conflict:
  assumes "boost_sml sml"
  shows "let (s', d') = process_event sml (recorder h n) (Ev_address_claim other a) (St_has_address, d);
       net' = h Call_begin_claiming (h (Call_lose_address n) (deps_net d))
    in if a \<noteq> has_address d then s' = St_has_address \<and> d' = d
       else if name_less n (Name other)
       then s' = St_has_address \<and> calls d' = calls d @ [Call_address_claim n a]
       else if net_full (deps_net d)
       then s' = St_address_lost \<and> calls d' = calls d @ [Call_lose_address n, Call_cannot_claim n]
       else s' = St_claiming \<and> claiming d' = net_find_address n a net'
         \<and> calls d' = calls d @
           [Call_lose_address n, Call_begin_claiming, Call_address_claim n (net_find_address n a net')]"
  by (auto simp: boost_sml.process_event_step [OF assms] set_claiming_address_def next_address_def)

theorem state_machine_conflict_witness:
  "let d = deps_example\<lparr>has_address := 5\<rparr>
   in fst (process_event sml_run (recorder (\<lambda>c. id) (Name 7)) (Ev_address_claim 3 5) (St_has_address, d))
     = St_claiming"
proof -
  let ?d = "deps_example\<lparr>has_address := 5\<rparr>"
  have f: "\<not> net_full (deps_net ?d)" "\<not> name_less (Name 7) (Name 3)" by code_simp+
  show ?thesis
    using f state_machine_conflict [OF run.boost_sml_axioms, of "\<lambda>c. id" "Name 7" 3 5 ?d]
    by (simp add: split_beta Let_def)
qed

text \<open>
  When the address the search returns is free and nobody else interferes, starting to claim
  and waiting for the timeout gives the name that address: it is claimed and then reported.
\<close>

theorem state_machine_claim_succeeds:
  assumes "boost_sml sml"
    and "\<not> net_full (deps_net d)" and "net_available (net_find_address n p (deps_net d)) (deps_net d)"
    and "\<And>net. h Call_begin_claiming net = net" and "\<And>a net. h (Call_address_claim n a) net = net"
  shows "let a = net_find_address n p (deps_net d);
       (s', d') = process_event sml (recorder h n) Ev_timeout
         (process_event sml (recorder h n) (Ev_start_claim p) (St_no_address, d))
    in s' = St_has_address \<and> has_address d' = a
      \<and> calls d' = calls d @ [Call_begin_claiming, Call_address_claim n a, Call_address n a]"
proof -
  let ?a = "net_find_address n p (deps_net d)"
  let ?d = "begin_claiming_address (recorder h n) (d\<lparr>claiming := p\<rparr>)"
  have "deps_net ?d = deps_net d"
    by (simp add: begin_claiming_address_def claim_address_def Let_def assms(4,5))
      (simp add: recorder_def asm_set_callbacks_def recording_def call_env_def record_call_def assms(4))
  moreover have "net_claimable ?a n (deps_net d)"
    using assms(3) by (auto simp: net_available_def net_claimable_def split: if_splits)
  moreover have "next_address h n (d\<lparr>claiming := p\<rparr>) = ?a" by (simp add: next_address_def assms(4))
  ultimately show ?thesis
    using assms(2) by (simp add: boost_sml.process_event_step [OF assms(1)] Let_def)
qed

theorem state_machine_claim_succeeds_witness:
  "let (s', d') = process_event sml_run (recorder (\<lambda>c. id) (Name 7)) Ev_timeout
       (process_event sml_run (recorder (\<lambda>c. id) (Name 7)) (Ev_start_claim 5) (St_no_address, deps_example))
   in s' = St_has_address \<and> has_address d' = 5"
proof -
  have f: "\<not> net_full (deps_net deps_example)" "net_find_address (Name 7) 5 (deps_net deps_example) = 5"
    "net_available 5 (deps_net deps_example)"
    by code_simp+
  show ?thesis
    using state_machine_claim_succeeds [OF run.boost_sml_axioms f(1), where n = "Name 7" and p = 5
        and h = "\<lambda>c. id"] f(2,3)
    by (simp add: split_beta)
qed

text \<open>
  A name without the self-configuration bit whose preferred address belongs to a name of
  smaller value never gets out of the claiming state: starting to claim sends a claim of the
  global address 255, and as long as the name is not registered in the network no timeout
  changes the state or reports that the address cannot be claimed.
\<close>

theorem state_machine_fixed_address_stuck:
  assumes "boost_sml sml"
    and "self_config_address n = 0" and "unicast p" and "net_get_name p (deps_net d) = Some c" and "c < n"
    and "\<not> net_full (deps_net d)" and "\<not> net_in_network n (deps_net d)"
    and "\<And>net. h Call_begin_claiming net = net" and "\<And>a net. h (Call_address_claim n a) net = net"
  shows "let c1 = process_event sml (recorder h n) (Ev_start_claim p) (St_no_address, d)
    in fst c1 = St_claiming \<and> calls (snd c1) = calls d @ [Call_begin_claiming, Call_address_claim n J1939_NO_ADDR]
      \<and> process_event sml (recorder h n) Ev_timeout c1 = c1"
proof -
  let ?d = "begin_claiming_address (recorder h n) (d\<lparr>claiming := p\<rparr>)"
  have "deps_net ?d = deps_net d"
    by (simp add: begin_claiming_address_def claim_address_def Let_def assms(8,9))
      (simp add: recorder_def asm_set_callbacks_def recording_def call_env_def record_call_def assms(8))
  moreover have "net_find_address n p (deps_net d) = J1939_NO_ADDR"
    using assms(2-5) by (auto simp: net_find_address_def Let_def clamp_unicast(2) net_get_name_def)
  then have "next_address h n (d\<lparr>claiming := p\<rparr>) = J1939_NO_ADDR"
    by (simp add: next_address_def assms(8))
  ultimately show ?thesis
    using assms(6,7)
    by (simp add: boost_sml.process_event_step [OF assms(1)] Let_def net_claimable_def
        net_in_network_def net_get_address_def)
qed

theorem state_machine_fixed_address_stuck_witness:
  "let d = deps_new \<lparr>env_net = snd (net_insert (Name 3) 5 (net_new ''can0'' False)), env_world = []\<rparr>;
       c1 = process_event sml_run (recorder (\<lambda>c. id) (Name 7)) (Ev_start_claim 5) (St_no_address, d)
   in fst c1 = St_claiming \<and> process_event sml_run (recorder (\<lambda>c. id) (Name 7)) Ev_timeout c1 = c1"
proof -
  let ?d = "deps_new \<lparr>env_net = snd (net_insert (Name 3) 5 (net_new ''can0'' False)), env_world = []\<rparr> :: call list deps"
  have "self_config_address (Name 7) = 0" "unicast (5 :: address_t)" "net_get_name 5 (deps_net ?d) = Some (Name 3)"
    "Name 3 < Name 7" "\<not> net_full (deps_net ?d)" "\<not> net_in_network (Name 7) (deps_net ?d)"
    by code_simp+
  from state_machine_fixed_address_stuck [OF run.boost_sml_axioms this, of "\<lambda>c. id"]
  show ?thesis by (simp add: Let_def)
qed

end
