(* ===== verification/Jay_Claimer.thy ===== *)
theory Jay_Claimer
  imports Jay_Frame Jay_State_Machine
begin

text \<open>
  The class \<^verbatim>\<open>jay::address_claimer\<close> of \<^verbatim>\<open>src/include/jay/address_claimer.hpp\<close>: the state machine
  with a timer, an event loop and the callbacks of its user.

  The event loop and the timer, \<^verbatim>\<open>boost::asio\<close>, are not part of the repository. The model keeps
  what the class asks of them: the functions it posts and the waits it starts. What becomes of them
  is left open: a posted function runs once at some time, in any order, and a wait completes once
  at some time with any error code. This covers a wait that a later \<^verbatim>\<open>expires_from_now\<close> cancels,
  which completes with \<^verbatim>\<open>operation_aborted\<close>.
\<close>

section \<open>State\<close>

datatype error_code = Success | Operation_aborted | Address_in_use | Other_error nat

text \<open>The functions given to \<^verbatim>\<open>async_wait\<close>, with the values they capture.\<close>

datatype handler = Start_claim_delay address_t | Claim_timeout | Cannot_claim_delay name

text \<open>The calls of the callbacks of the user.\<close>

datatype 'h claimer_call = Address_gained name address_t | Address_lost name | Frame_out "'h frame"
  | Claim_error string error_code | Logged string

text \<open>
  The callbacks of the user are present or not, and all their calls are recorded in their order.
  \<open>rand_delay\<close> is the next value of the random distribution.
\<close>

record 'h world =
  posted :: "ev list"
  waits :: "(nat \<times> handler) list"
  rand_delay :: nat
  on_address_set :: bool
  on_lose_address_set :: bool
  on_frame_set :: bool
  on_error_set :: bool
  on_log_set :: bool
  cl_calls :: "'h claimer_call list"

type_synonym 'h claimer = "st \<times> 'h world deps"

definition world_new :: "'h world" where
  "world_new = \<lparr>posted = [], waits = [], rand_delay = 0, on_address_set = False,
     on_lose_address_set = False, on_frame_set = False, on_error_set = False, on_log_set = False,
     cl_calls = []\<rparr>"

definition cl_called :: "'h claimer_call \<Rightarrow> 'h world \<Rightarrow> 'h world" where
  "cl_called call w = w\<lparr>cl_calls := cl_calls w @ [call]\<rparr>"

definition post :: "ev \<Rightarrow> 'h world \<Rightarrow> 'h world" where
  "post e w = w\<lparr>posted := posted w @ [e]\<rparr>"

definition wait_for :: "nat \<Rightarrow> handler \<Rightarrow> 'h world \<Rightarrow> 'h world" where
  "wait_for ms h w = w\<lparr>waits := waits w @ [(ms, h)]\<rparr>"

definition emit_frame :: "'h frame \<Rightarrow> 'h world \<Rightarrow> 'h world" where
  "emit_frame fr w = (if on_frame_set w then cl_called (Frame_out fr) w else w)"

definition emit_error :: "string \<Rightarrow> error_code \<Rightarrow> 'h world \<Rightarrow> 'h world" where
  "emit_error what ec w = (if on_error_set w then cl_called (Claim_error what ec) w else w)"

definition upd_world :: "('h world \<Rightarrow> 'h world) \<Rightarrow> 'h world env \<Rightarrow> 'h world env" where
  "upd_world f e = e\<lparr>env_world := f (env_world e)\<rparr>"

definition upd_claimer :: "('h world env \<Rightarrow> 'h world env) \<Rightarrow> 'h claimer \<Rightarrow> 'h claimer" where
  "upd_claimer f c = (fst c, (snd c)\<lparr>deps_env := f (deps_env (snd c))\<rparr>)"

abbreviation cl_world :: "'h claimer \<Rightarrow> 'h world" where
  "cl_world c \<equiv> env_world (deps_env (snd c))"

abbreviation cl_net :: "'h claimer \<Rightarrow> network" where
  "cl_net c \<equiv> env_net (deps_env (snd c))"

section \<open>Callbacks of the state machine\<close>

definition claimer_on_address :: "name \<Rightarrow> address_t \<Rightarrow> 'h world env \<Rightarrow> 'h world env" where
  "claimer_on_address n address e =
     (let e = e\<lparr>env_net := snd (net_insert n address (env_net e))\<rparr>
      in upd_world (\<lambda>w. if on_address_set w then cl_called (Address_gained n address) w else w) e)"

definition claimer_on_address_loss :: "name \<Rightarrow> 'h world env \<Rightarrow> 'h world env" where
  "claimer_on_address_loss n e =
     (let e = e\<lparr>env_net := net_release n (env_net e)\<rparr>
      in upd_world (\<lambda>w. if on_lose_address_set w then cl_called (Address_lost n) w else w) e)"

definition claimer_on_begin_claiming :: "'h world env \<Rightarrow> 'h world env" where
  "claimer_on_begin_claiming = upd_world (wait_for 250 Claim_timeout)"

definition claimer_on_address_claim ::
  "'h canary_header \<Rightarrow> name \<Rightarrow> address_t \<Rightarrow> 'h world env \<Rightarrow> 'h world env" where
  "claimer_on_address_claim C n address = upd_world (emit_frame (make_address_claim C n address))"

definition claimer_on_address_request :: "'h canary_header \<Rightarrow> 'h world env \<Rightarrow> 'h world env" where
  "claimer_on_address_request C = upd_world (emit_frame (make_address_request_all C))"

definition claimer_on_cannot_claim :: "name \<Rightarrow> 'h world env \<Rightarrow> 'h world env" where
  "claimer_on_cannot_claim n = upd_world (\<lambda>w. wait_for (rand_delay w) (Cannot_claim_delay n) w)"

definition claimer_callbacks :: "'h canary_header \<Rightarrow> 'h world callbacks" where
  "claimer_callbacks C = \<lparr>
     on_address = Some claimer_on_address,
     on_lose_address = Some claimer_on_address_loss,
     on_begin_claiming = Some claimer_on_begin_claiming,
     on_address_claim = Some (claimer_on_address_claim C),
     on_request = Some (claimer_on_address_request C),
     on_cannot_claim = Some claimer_on_cannot_claim\<rparr>"

section \<open>Construction\<close>

text \<open>
  The engine is constructed in the state \<^verbatim>\<open>st_no_address\<close>, before the callbacks are set: the entry
  action of this state calls none.
\<close>

definition claimer_sm :: "'h canary_header \<Rightarrow> name \<Rightarrow> 'h world address_state_machine" where
  "claimer_sm C n = asm_set_callbacks (claimer_callbacks C) (asm_new n)"

definition claimer_new :: "network \<Rightarrow> 'h claimer" where
  "claimer_new net = (St_no_address, deps_new \<lparr>env_net = net, env_world = world_new\<rparr>)"

definition on_address_claimed :: "bool \<Rightarrow> 'h claimer \<Rightarrow> 'h claimer" where
  "on_address_claimed b = upd_claimer (upd_world (\<lambda>w. w\<lparr>on_address_set := b\<rparr>))"

definition on_address_lost :: "bool \<Rightarrow> 'h claimer \<Rightarrow> 'h claimer" where
  "on_address_lost b = upd_claimer (upd_world (\<lambda>w. w\<lparr>on_lose_address_set := b\<rparr>))"

definition claimer_on_frame :: "bool \<Rightarrow> 'h claimer \<Rightarrow> 'h claimer" where
  "claimer_on_frame b = upd_claimer (upd_world (\<lambda>w. w\<lparr>on_frame_set := b\<rparr>))"

definition claimer_on_error :: "bool \<Rightarrow> 'h claimer \<Rightarrow> 'h claimer" where
  "claimer_on_error b = upd_claimer (upd_world (\<lambda>w. w\<lparr>on_error_set := b\<rparr>))"

definition on_log :: "bool \<Rightarrow> 'h claimer \<Rightarrow> 'h claimer" where
  "on_log b = upd_claimer (upd_world (\<lambda>w. w\<lparr>on_log_set := b\<rparr>))"

definition claimer_get_name :: "'h canary_header \<Rightarrow> name \<Rightarrow> name" where
  "claimer_get_name C n = asm_get_name (claimer_sm C n)"

section \<open>Operations\<close>

definition claimer_address_claim :: "name \<Rightarrow> address_t \<Rightarrow> 'h claimer \<Rightarrow> 'h claimer" where
  "claimer_address_claim n a = upd_claimer (upd_world (post (Ev_address_claim (name_val n) a)))"

definition claimer_address_request :: "address_t \<Rightarrow> 'h claimer \<Rightarrow> 'h claimer" where
  "claimer_address_request a = upd_claimer (upd_world (post (Ev_address_request a)))"

definition process_claim :: "name \<Rightarrow> address_t \<Rightarrow> 'h claimer \<Rightarrow> 'h claimer" where
  "process_claim n address_claimed c =
     (let (ok, net) = net_insert n address_claimed (cl_net c);
          c = upd_claimer (\<lambda>e. e\<lparr>env_net := net\<rparr>) c
      in if \<not> ok then upd_claimer (upd_world (emit_error ''on_frame_address_claim'' Address_in_use)) c
         else claimer_address_claim n address_claimed c)"

definition process_request :: "address_t \<Rightarrow> 'h claimer \<Rightarrow> 'h claimer" where
  "process_request dst_address = claimer_address_request dst_address"

definition claimer_process :: "'h canary_header \<Rightarrow> 'h frame \<Rightarrow> 'h claimer \<Rightarrow> 'h claimer" where
  "claimer_process C fr c =
     (if fh_is_claim C (header fr)
      then process_claim (name_of_payload (payload fr)) (fh_source_address C (header fr)) c
      else if fh_is_request C (header fr) then process_request (fh_pdu_specific C (header fr)) c
      else c)"

definition start_address_claim :: "address_t \<Rightarrow> 'h claimer \<Rightarrow> 'h claimer" where
  "start_address_claim preferred_address c =
     (if fst c \<noteq> St_no_address then c
      else upd_claimer (upd_world (\<lambda>w. wait_for 200 (Start_claim_delay preferred_address) (post Ev_restart w))) c)"

definition on_fail :: "string \<Rightarrow> error_code \<Rightarrow> 'h claimer \<Rightarrow> 'h claimer" where
  "on_fail what ec c =
     (if ec = Operation_aborted then c else upd_claimer (upd_world (emit_error what ec)) c)"

text \<open>The functions of \<^verbatim>\<open>async_wait\<close> when the wait completes, and the posted functions.\<close>

definition start_claim_delay :: "'h canary_header \<Rightarrow> 'h world deps sml_engine \<Rightarrow> name \<Rightarrow> address_t \<Rightarrow>
    error_code \<Rightarrow> 'h claimer \<Rightarrow> 'h claimer" where
  [simp]: "start_claim_delay C sml n preferred_address ec c =
     (if ec \<noteq> Success then on_fail ''start_claim_delay'' ec c
      else process_event sml (claimer_sm C n) (Ev_start_claim preferred_address) c)"

definition claim_timeout :: "'h canary_header \<Rightarrow> 'h world deps sml_engine \<Rightarrow> name \<Rightarrow>
    error_code \<Rightarrow> 'h claimer \<Rightarrow> 'h claimer" where
  [simp]: "claim_timeout C sml n ec c =
     (if ec \<noteq> Success then on_fail ''on_claim_timeout'' ec c
      else process_event sml (claimer_sm C n) Ev_timeout c)"

definition cannot_claim_delay :: "'h canary_header \<Rightarrow> name \<Rightarrow> error_code \<Rightarrow> 'h claimer \<Rightarrow> 'h claimer" where
  [simp]: "cannot_claim_delay C n ec c =
     (if ec \<noteq> Success then on_fail ''on_claim_timeout'' ec c
      else upd_claimer (upd_world (\<lambda>w.
        let w = emit_frame (make_cannot_claim C (name_of_payload (name_to_payload n))) w
        in if self_config_address n \<noteq> 0 then post Ev_random_retry w else w)) c)"

fun run_handler :: "'h canary_header \<Rightarrow> 'h world deps sml_engine \<Rightarrow> name \<Rightarrow> handler \<Rightarrow> error_code \<Rightarrow>
    'h claimer \<Rightarrow> 'h claimer" where
  "run_handler C sml n (Start_claim_delay p) ec c = start_claim_delay C sml n p ec c"
| "run_handler C sml n Claim_timeout ec c = claim_timeout C sml n ec c"
| "run_handler C sml n (Cannot_claim_delay m) ec c = cannot_claim_delay C m ec c"

definition run_posted :: "'h canary_header \<Rightarrow> 'h world deps sml_engine \<Rightarrow> name \<Rightarrow> ev \<Rightarrow>
    'h claimer \<Rightarrow> 'h claimer" where
  "run_posted C sml n e c = process_event sml (claimer_sm C n) e c"

section \<open>Runs\<close>

definition run_job :: "'h canary_header \<Rightarrow> 'h world deps sml_engine \<Rightarrow> name \<Rightarrow> nat \<Rightarrow>
    'h claimer \<Rightarrow> 'h claimer" where
  "run_job C sml n i c = run_posted C sml n (posted (cl_world c) ! i)
     (upd_claimer (upd_world (\<lambda>w. w\<lparr>posted := drop_nth i (posted w)\<rparr>)) c)"

definition complete_wait :: "'h canary_header \<Rightarrow> 'h world deps sml_engine \<Rightarrow> name \<Rightarrow> nat \<Rightarrow>
    error_code \<Rightarrow> 'h claimer \<Rightarrow> 'h claimer" where
  "complete_wait C sml n i ec c = run_handler C sml n (snd (waits (cl_world c) ! i)) ec
     (upd_claimer (upd_world (\<lambda>w. w\<lparr>waits := drop_nth i (waits w)\<rparr>)) c)"

text \<open>
  One step: a frame arrives, the user starts to claim, a posted function runs, a wait completes,
  the random value changes, or another user of the network claims or releases.
\<close>

inductive claimer_step :: "'h canary_header \<Rightarrow> 'h world deps sml_engine \<Rightarrow> name \<Rightarrow>
    'h claimer \<Rightarrow> 'h claimer \<Rightarrow> bool" for C sml n where
  receive: "claimer_step C sml n c (claimer_process C fr c)"
| start: "claimer_step C sml n c (start_address_claim p c)"
| job: "i < length (posted (cl_world c)) \<Longrightarrow> claimer_step C sml n c (run_job C sml n i c)"
| completion: "i < length (waits (cl_world c)) \<Longrightarrow> claimer_step C sml n c (complete_wait C sml n i ec c)"
| random: "r \<le> 150 \<Longrightarrow> claimer_step C sml n c (upd_claimer (upd_world (\<lambda>w. w\<lparr>rand_delay := r\<rparr>)) c)"
| insert: "claimer_step C sml n c (upd_claimer (\<lambda>e. e\<lparr>env_net := snd (net_insert m a (env_net e))\<rparr>) c)"
| release: "claimer_step C sml n c (upd_claimer (\<lambda>e. e\<lparr>env_net := net_release m (env_net e)\<rparr>) c)"

inductive claimer_reach :: "'h canary_header \<Rightarrow> 'h world deps sml_engine \<Rightarrow> name \<Rightarrow>
    'h claimer \<Rightarrow> 'h claimer \<Rightarrow> bool" for C sml n where
  refl: "claimer_reach C sml n c c"
| step: "claimer_reach C sml n c c' \<Longrightarrow> claimer_step C sml n c' c'' \<Longrightarrow> claimer_reach C sml n c c''"

section \<open>The calls of the user\<close>

definition addresses :: "'h world \<Rightarrow> (name \<times> address_t) list" where
  "addresses w = concat (map (\<lambda>c. case c of Address_gained n a \<Rightarrow> [(n, a)] | _ \<Rightarrow> []) (cl_calls w))"

definition lost :: "'h world \<Rightarrow> name list" where
  "lost w = concat (map (\<lambda>c. case c of Address_lost n \<Rightarrow> [n] | _ \<Rightarrow> []) (cl_calls w))"

definition frames :: "'h world \<Rightarrow> 'h frame list" where
  "frames w = concat (map (\<lambda>c. case c of Frame_out fr \<Rightarrow> [fr] | _ \<Rightarrow> []) (cl_calls w))"

definition errors :: "'h world \<Rightarrow> (string \<times> error_code) list" where
  "errors w = concat (map (\<lambda>c. case c of Claim_error what ec \<Rightarrow> [(what, ec)] | _ \<Rightarrow> []) (cl_calls w))"

lemmas call_lists = addresses_def lost_def frames_def errors_def

lemma cl_called_lists [simp]:
  "addresses (cl_called call w) = addresses w @ (case call of Address_gained n a \<Rightarrow> [(n, a)] | _ \<Rightarrow> [])"
  "lost (cl_called call w) = lost w @ (case call of Address_lost n \<Rightarrow> [n] | _ \<Rightarrow> [])"
  "frames (cl_called call w) = frames w @ (case call of Frame_out fr \<Rightarrow> [fr] | _ \<Rightarrow> [])"
  "errors (cl_called call w) = errors w @ (case call of Claim_error what ec \<Rightarrow> [(what, ec)] | _ \<Rightarrow> [])"
  by (simp_all add: cl_called_def call_lists)

lemma cl_called_fields [simp]:
  "posted (cl_called call w) = posted w" "waits (cl_called call w) = waits w"
  "rand_delay (cl_called call w) = rand_delay w" "on_address_set (cl_called call w) = on_address_set w"
  "on_lose_address_set (cl_called call w) = on_lose_address_set w"
  "on_frame_set (cl_called call w) = on_frame_set w" "on_error_set (cl_called call w) = on_error_set w"
  "on_log_set (cl_called call w) = on_log_set w" "cl_calls (cl_called call w) = cl_calls w @ [call]"
  by (simp_all add: cl_called_def)

text \<open>The lists depend on the calls only.\<close>

lemma call_lists_keep [simp]:
  "addresses (w\<lparr>posted := x1\<rparr>) = addresses w" "addresses (w\<lparr>waits := x2\<rparr>) = addresses w"
  "addresses (w\<lparr>rand_delay := x3\<rparr>) = addresses w"
  "lost (w\<lparr>posted := x1\<rparr>) = lost w" "lost (w\<lparr>waits := x2\<rparr>) = lost w" "lost (w\<lparr>rand_delay := x3\<rparr>) = lost w"
  "frames (w\<lparr>posted := x1\<rparr>) = frames w" "frames (w\<lparr>waits := x2\<rparr>) = frames w"
  "frames (w\<lparr>rand_delay := x3\<rparr>) = frames w"
  "errors (w\<lparr>posted := x1\<rparr>) = errors w" "errors (w\<lparr>waits := x2\<rparr>) = errors w"
  "errors (w\<lparr>rand_delay := x3\<rparr>) = errors w"
  by (simp_all add: call_lists)

section \<open>Invariants of the surroundings\<close>

text \<open>
  A property of the surroundings that every callback keeps is kept by every event.
\<close>

locale callback_invariant =
  fixes m :: "'w address_state_machine" and P :: "'w env \<Rightarrow> bool"
  assumes keeps_address: "on_address (sm_callbacks m) = Some f1 \<Longrightarrow> P e \<Longrightarrow> P (f1 (sm_name m) a e)"
    and keeps_lose: "on_lose_address (sm_callbacks m) = Some f2 \<Longrightarrow> P e \<Longrightarrow> P (f2 (sm_name m) e)"
    and keeps_begin: "on_begin_claiming (sm_callbacks m) = Some f3 \<Longrightarrow> P e \<Longrightarrow> P (f3 e)"
    and keeps_claim: "on_address_claim (sm_callbacks m) = Some f4 \<Longrightarrow> P e \<Longrightarrow> P (f4 (sm_name m) a e)"
    and keeps_request: "on_request (sm_callbacks m) = Some f5 \<Longrightarrow> P e \<Longrightarrow> P (f5 e)"
    and keeps_cannot: "on_cannot_claim (sm_callbacks m) = Some f6 \<Longrightarrow> P e \<Longrightarrow> P (f6 (sm_name m) e)"
begin

lemma keeps_actions:
  assumes "P (deps_env d)"
  shows "P (deps_env (send_address_claim m a d))"
    and "P (deps_env (send_request m d))"
    and "P (deps_env (send_cannot_claim m d))"
    and "P (deps_env (notify_address_gain m d))"
    and "P (deps_env (notify_address_loss m d))"
    and "P (deps_env (call_env (on_begin_claiming (sm_callbacks m)) d))"
  using assms
  by (auto simp: send_address_claim_def send_request_def send_cannot_claim_def notify_address_gain_def
      notify_address_loss_def call_env_def split: option.splits
      intro: keeps_address keeps_lose keeps_begin keeps_claim keeps_request keeps_cannot)

lemma keeps_begin_claiming:
  "P (deps_env d) \<Longrightarrow> P (deps_env (begin_claiming_address m d))"
  using keeps_actions(1) [of "(call_env (on_begin_claiming (sm_callbacks m)) d)\<lparr>claiming := _\<rparr>"]
    keeps_actions(6) [of d]
  by (simp add: begin_claiming_address_def claim_address_def Let_def)

lemma keeps_step: "P (deps_env d) \<Longrightarrow> P (deps_env (snd (asm_step m e (s, d))))"
  by (cases s; cases e)
    (simp_all add: keeps_actions keeps_begin_claiming reenter_def send_claiming_def send_claimed_def
      set_claiming_address_def)

end

lemma claimer_sm_simps [simp]:
  "sm_name (claimer_sm C n) = n" "sm_callbacks (claimer_sm C n) = claimer_callbacks C"
  by (simp_all add: claimer_sm_def asm_set_callbacks_def asm_new_def)

lemma upd_simps [simp]:
  "env_world (upd_world f e) = f (env_world e)" "env_net (upd_world f e) = env_net e"
  "deps_env (snd (upd_claimer g c)) = g (deps_env (snd c))" "fst (upd_claimer g c) = fst c"
  "has_address (snd (upd_claimer g c)) = has_address (snd c)"
  "claiming (snd (upd_claimer g c)) = claiming (snd c)"
  by (simp_all add: upd_world_def upd_claimer_def)

text \<open>The claimer sets every callback that the other constructor of the machine asks for.\<close>

lemma claimer_sm_callbacks: "asm_new_callbacks n (claimer_callbacks C) = Some (claimer_sm C n)"
  by (simp add: asm_new_callbacks_def claimer_callbacks_def claimer_sm_def asm_set_callbacks_def asm_new_def)

lemma claimer_get_name_eq: "claimer_get_name C n = n"
  by (simp add: claimer_get_name_def asm_get_name_def)

text \<open>
  The frames the claimer may send, the waits it may start, and the state of the network.
\<close>

definition own_frame :: "'h canary_header \<Rightarrow> name \<Rightarrow> 'h frame \<Rightarrow> bool" where
  "own_frame C n fr \<longleftrightarrow> fr = make_address_request_all C \<or> (\<exists>a. fr = make_address_claim C n a)"

fun own_wait :: "name \<Rightarrow> nat \<times> handler \<Rightarrow> bool" where
  "own_wait n (ms, Start_claim_delay p) \<longleftrightarrow> ms = 200"
| "own_wait n (ms, Claim_timeout) \<longleftrightarrow> ms = 250"
| "own_wait n (ms, Cannot_claim_delay m) \<longleftrightarrow> ms \<le> 150 \<and> m = n"

definition env_inv :: "'h canary_header \<Rightarrow> name \<Rightarrow> 'h world env \<Rightarrow> bool" where
  "env_inv C n e \<longleftrightarrow> net_inv (env_net e) \<and> list_all (own_frame C n) (frames (env_world e))
     \<and> list_all (own_wait n) (waits (env_world e)) \<and> rand_delay (env_world e) \<le> 150"

lemmas world_ops = post_def wait_for_def emit_frame_def emit_error_def

lemmas claimer_cbs = claimer_callbacks_def claimer_on_address_def claimer_on_address_loss_def
  claimer_on_begin_claiming_def claimer_on_address_claim_def claimer_on_address_request_def
  claimer_on_cannot_claim_def

lemma own_frames [simp]:
  "own_frame C n (make_address_claim C n a)" "own_frame C n (make_address_request_all C)"
  "own_frame C n (make_cannot_claim C n)"
  by (auto simp: own_frame_def make_cannot_claim_def make_address_claim_def)

interpretation cl_env: callback_invariant "claimer_sm C n" "env_inv C n" for C n
  by unfold_locales
    (auto simp: claimer_cbs env_inv_def Let_def world_ops net_inv_insert net_inv_release)

lemma env_inv_process:
  assumes "boost_sml sml" and "env_inv C n (deps_env (snd c))"
  shows "env_inv C n (deps_env (snd (process_event sml (claimer_sm C n) e c)))"
  using assms(2) cl_env.keeps_step [of C n "snd c" e "fst c"]
  by (simp add: boost_sml.process_event_step [OF assms(1)])

lemma env_inv_step:
  assumes sml: "boost_sml sml" and st: "claimer_step C sml n c c'" and inv: "env_inv C n (deps_env (snd c))"
  shows "env_inv C n (deps_env (snd c'))"
  using st
proof cases
  case (receive fr)
  then show ?thesis
    using inv net_inv_insert [of "cl_net c"]
    by (auto simp: claimer_process_def process_claim_def process_request_def Let_def split_beta
        claimer_address_claim_def claimer_address_request_def env_inv_def world_ops)
next
  case (start p)
  then show ?thesis
    using inv by (auto simp: start_address_claim_def env_inv_def world_ops)
next
  case (job i)
  then show ?thesis
    using inv by (simp add: run_job_def run_posted_def, intro env_inv_process [OF sml]) (simp add: env_inv_def)
next
  case (completion i ec)
  let ?c = "upd_claimer (upd_world (\<lambda>w. w\<lparr>waits := drop_nth i (waits w)\<rparr>)) c"
  have w: "own_wait n (waits (cl_world c) ! i)"
    using inv completion(2) by (simp add: env_inv_def list_all_length)
  have "env_inv C n (deps_env (snd ?c))"
    using inv by (simp add: env_inv_def list_all_drop_nth)
  then show ?thesis
    using w env_inv_process [OF sml] unfolding completion(1) complete_wait_def
    by (cases "waits (cl_world c) ! i"; cases "snd (waits (cl_world c) ! i)")
      (auto simp: on_fail_def env_inv_def world_ops Let_def)
next
  case (random r)
  then show ?thesis using inv by (simp add: env_inv_def)
next
  case (insert m a)
  then show ?thesis using inv by (simp add: env_inv_def net_inv_insert)
next
  case (release m)
  then show ?thesis using inv by (simp add: env_inv_def net_inv_release)
qed

lemma env_inv_reach:
  assumes "boost_sml sml" and "claimer_reach C sml n c c'" and "env_inv C n (deps_env (snd c))"
  shows "env_inv C n (deps_env (snd c'))"
  using assms(2,3) by induction (use assms(1) env_inv_step in blast)+

section \<open>Gains and losses\<close>

abbreviation dworld :: "'h world deps \<Rightarrow> 'h world" where
  "dworld d \<equiv> env_world (deps_env d)"

text \<open>What the actions leave alone.\<close>

lemmas claimer_actions = send_address_claim_def send_request_def send_cannot_claim_def
  notify_address_gain_def notify_address_loss_def send_claiming_def send_claimed_def call_env_def
  claimer_cbs Let_def world_ops

definition flags :: "'h world \<Rightarrow> bool \<times> bool \<times> bool \<times> bool \<times> bool" where
  "flags w = (on_address_set w, on_lose_address_set w, on_frame_set w, on_error_set w, on_log_set w)"

lemma flags_actions [simp]:
  "flags (dworld (send_address_claim (claimer_sm C n) a d)) = flags (dworld d)"
  "flags (dworld (send_request (claimer_sm C n) d)) = flags (dworld d)"
  "flags (dworld (send_cannot_claim (claimer_sm C n) d)) = flags (dworld d)"
  "flags (dworld (notify_address_gain (claimer_sm C n) d)) = flags (dworld d)"
  "flags (dworld (notify_address_loss (claimer_sm C n) d)) = flags (dworld d)"
  "flags (dworld (begin_claiming_address (claimer_sm C n) d)) = flags (dworld d)"
  by (simp_all add: claimer_actions flags_def begin_claiming_address_def claim_address_def)

lemma addresses_actions [simp]:
  "addresses (dworld (send_address_claim (claimer_sm C n) a d)) = addresses (dworld d)"
  "addresses (dworld (send_request (claimer_sm C n) d)) = addresses (dworld d)"
  "addresses (dworld (send_cannot_claim (claimer_sm C n) d)) = addresses (dworld d)"
  "addresses (dworld (notify_address_loss (claimer_sm C n) d)) = addresses (dworld d)"
  "addresses (dworld (begin_claiming_address (claimer_sm C n) d)) = addresses (dworld d)"
  "addresses (dworld (notify_address_gain (claimer_sm C n) d)) =
     addresses (dworld d) @ (if on_address_set (dworld d) then [(n, has_address d)] else [])"
  by (simp_all add: claimer_actions begin_claiming_address_def claim_address_def)

lemma lost_actions [simp]:
  "lost (dworld (send_address_claim (claimer_sm C n) a d)) = lost (dworld d)"
  "lost (dworld (send_request (claimer_sm C n) d)) = lost (dworld d)"
  "lost (dworld (send_cannot_claim (claimer_sm C n) d)) = lost (dworld d)"
  "lost (dworld (notify_address_gain (claimer_sm C n) d)) = lost (dworld d)"
  "lost (dworld (begin_claiming_address (claimer_sm C n) d)) = lost (dworld d)"
  "lost (dworld (notify_address_loss (claimer_sm C n) d)) =
     lost (dworld d) @ (if on_lose_address_set (dworld d) then [n] else [])"
  by (simp_all add: claimer_actions begin_claiming_address_def claim_address_def)

text \<open>
  What the user knows from the reports so far: \<open>Some None\<close> without an address, \<open>Some (Some a)\<close> with
  the address \<open>a\<close>. A report that makes no sense, one of another name, of a gain on top of an address
  or of a loss without one, makes it \<open>None\<close>.
\<close>

fun reported :: "name \<Rightarrow> 'h claimer_call \<Rightarrow> address_t option \<Rightarrow> address_t option option" where
  "reported n (Address_gained m a) x = (if m = n \<and> x = None then Some (Some a) else None)"
| "reported n (Address_lost m) x = (if m = n \<and> x \<noteq> None then Some None else None)"
| "reported n (Frame_out fr) x = Some x"
| "reported n (Claim_error what ec) x = Some x"
| "reported n (Logged line) x = Some x"

definition reports :: "name \<Rightarrow> 'h world \<Rightarrow> address_t option option" where
  "reports n w = foldl (\<lambda>x call. Option.bind x (reported n call)) (Some None) (cl_calls w)"

lemma reports_called [simp]: "reports n (cl_called call w) = Option.bind (reports n w) (reported n call)"
  by (simp add: reports_def cl_called_def)

lemma reports_keep [simp]:
  "reports n (w\<lparr>posted := x1\<rparr>) = reports n w" "reports n (w\<lparr>waits := x2\<rparr>) = reports n w"
  "reports n (w\<lparr>rand_delay := x3\<rparr>) = reports n w"
  by (simp_all add: reports_def)

lemma reports_quiet [simp]:
  "Option.bind x (reported n (Frame_out fr)) = x" "Option.bind x (reported n (Claim_error what ec)) = x"
  "Option.bind x (reported n (Logged line)) = x"
  by (cases x; simp)+

lemma reports_actions [simp]:
  "reports n (dworld (send_address_claim (claimer_sm C n) a d)) = reports n (dworld d)"
  "reports n (dworld (send_request (claimer_sm C n) d)) = reports n (dworld d)"
  "reports n (dworld (send_cannot_claim (claimer_sm C n) d)) = reports n (dworld d)"
  "reports n (dworld (begin_claiming_address (claimer_sm C n) d)) = reports n (dworld d)"
  "on_lose_address_set (dworld d) \<Longrightarrow>
     reports n (dworld (notify_address_loss (claimer_sm C n) d)) =
     (case reports n (dworld d) of Some (Some a) \<Rightarrow> Some None | _ \<Rightarrow> None)"
  "on_address_set (dworld d) \<Longrightarrow> reports n (dworld (notify_address_gain (claimer_sm C n) d)) =
     (case reports n (dworld d) of Some None \<Rightarrow> Some (Some (has_address d)) | _ \<Rightarrow> None)"
  by (simp_all add: claimer_actions begin_claiming_address_def claim_address_def split: option.split bind_split)

lemma has_address_actions [simp]:
  "has_address (send_address_claim (claimer_sm C n) a d) = has_address d"
  "has_address (send_cannot_claim (claimer_sm C n) d) = has_address d"
  "has_address (notify_address_gain (claimer_sm C n) d) = has_address d"
  by (simp_all add: claimer_actions)

text \<open>With both callbacks present, the user knows the address of the machine.\<close>

definition report_inv :: "name \<Rightarrow> 'h claimer \<Rightarrow> bool" where
  "report_inv n c \<longleftrightarrow> on_address_set (cl_world c) \<and> on_lose_address_set (cl_world c)
     \<and> reports n (cl_world c) = Some (if fst c = St_has_address then Some (has_address (snd c)) else None)"

lemma flags_keep:
  "flags w = flags w' \<Longrightarrow> on_address_set w = on_address_set w' \<and> on_lose_address_set w = on_lose_address_set w'"
  by (simp add: flags_def)

lemma flags_step: "flags (dworld (snd (asm_step (claimer_sm C n) e (s, d)))) = flags (dworld d)"
  by (cases s; cases e) (simp_all add: reenter_def send_claiming_def send_claimed_def set_claiming_address_def)

lemma report_inv_step:
  assumes "report_inv n (s, d)"
  shows "report_inv n (asm_step (claimer_sm C n) e (s, d))"
  using assms flags_keep [OF flags_step [of C n e s d]] unfolding report_inv_def
  by (cases s; cases e)
    (auto simp: reenter_def send_claiming_def send_claimed_def set_claiming_address_def split: if_splits)

lemma report_inv_process:
  assumes "boost_sml sml" and "report_inv n c"
  shows "report_inv n (process_event sml (claimer_sm C n) e c)"
  using assms report_inv_step [of n "fst c" "snd c"]
  by (simp add: boost_sml.process_event_step)

lemma report_inv_upd:
  assumes "report_inv n c" and "\<And>w. reports n (env_world (f w)) = reports n (env_world w)"
    and "\<And>w. on_address_set (env_world (f w)) = on_address_set (env_world w)"
    and "\<And>w. on_lose_address_set (env_world (f w)) = on_lose_address_set (env_world w)"
  shows "report_inv n (upd_claimer f c)"
  using assms by (simp add: report_inv_def)

lemma report_inv_claimer_step:
  assumes sml: "boost_sml sml" and st: "claimer_step C sml n c c'" and inv: "report_inv n c"
  shows "report_inv n c'"
  using st
proof cases
  case (receive fr)
  then show ?thesis
    using inv by (auto simp: claimer_process_def process_claim_def process_request_def Let_def split_beta
        claimer_address_claim_def claimer_address_request_def world_ops split: if_splits intro!: report_inv_upd)
next
  case (start p)
  then show ?thesis using inv by (auto simp: start_address_claim_def world_ops split: if_splits intro!: report_inv_upd)
next
  case (job i)
  then show ?thesis
    using inv by (auto simp: run_job_def run_posted_def split: if_splits intro!: report_inv_process [OF sml] report_inv_upd)
next
  case (completion i ec)
  let ?c = "upd_claimer (upd_world (\<lambda>w. w\<lparr>waits := drop_nth i (waits w)\<rparr>)) c"
  have "report_inv n ?c" using inv by (auto intro!: report_inv_upd)
  then show ?thesis
    unfolding completion(1) complete_wait_def
    by (cases "snd (waits (cl_world c) ! i)")
      (auto simp: on_fail_def world_ops Let_def split: if_splits intro!: report_inv_process [OF sml] report_inv_upd)
qed (use inv in \<open>auto intro!: report_inv_upd\<close>)

lemma report_inv_reach:
  assumes "boost_sml sml" and "claimer_reach C sml n c c'" and "report_inv n c"
  shows "report_inv n c'"
  using assms(2,3) by induction (use assms(1) report_inv_claimer_step in blast)+

section \<open>Properties\<close>

text \<open>A new claimer with all callbacks of its user.\<close>

definition claimer_ready :: "network \<Rightarrow> 'h claimer" where
  "claimer_ready net =
     claimer_on_error True (claimer_on_frame True (on_address_lost True (on_address_claimed True (claimer_new net))))"

lemmas claimer_setters = claimer_on_error_def claimer_on_frame_def on_address_lost_def
  on_address_claimed_def

lemma claimer_ready_simps [simp]:
  "fst (claimer_ready net) = St_no_address" "cl_net (claimer_ready net) = net"
  "posted (cl_world (claimer_ready net)) = []" "waits (cl_world (claimer_ready net)) = []"
  "frames (cl_world (claimer_ready net)) = []" "addresses (cl_world (claimer_ready net)) = []"
  "lost (cl_world (claimer_ready net)) = []" "rand_delay (cl_world (claimer_ready net)) = 0"
  "on_frame_set (cl_world (claimer_ready net))" "on_address_set (cl_world (claimer_ready net))"
  "on_lose_address_set (cl_world (claimer_ready net))"
  by (simp_all add: claimer_ready_def claimer_setters claimer_new_def deps_new_def world_new_def call_lists)

lemma net_find_address_available:
  "net_available p net \<Longrightarrow> net_find_address n p net = p"
  by (auto simp: net_available_def net_find_address_def Let_def clamp_unicast(2)
      net_search.simps [of n p] less_idle_unicast split: if_splits)

lemma net_available_not_full: "net_inv net \<Longrightarrow> net_available p net \<Longrightarrow> \<not> net_full net"
  using net_full_iff [of net] unfolding net_available_def not_less [symmetric] by metis



text \<open>
  C15. The reports to the user are right at any time: gains and losses come in turn and for the name of
  the claimer only, and the last of them says whether the claimer has an address, and which one.
\<close>

theorem claimer_reports_balance:
  assumes "boost_sml sml" and "claimer_reach C sml n (claimer_ready net) c"
  shows "reports n (cl_world c) = Some (if fst c = St_has_address then Some (has_address (snd c)) else None)"
proof -
  have "report_inv n (claimer_ready net)"
    by (simp add: report_inv_def reports_def claimer_ready_def claimer_setters claimer_new_def deps_new_def world_new_def)
  from report_inv_reach [OF assms this] show ?thesis by (simp add: report_inv_def)
qed

theorem claimer_reports_balance_witness:
  "let c = complete_wait can_header_ops sml_run (Name 7) 0 Success (complete_wait can_header_ops sml_run (Name 7) 0 Success
        (run_job can_header_ops sml_run (Name 7) 0 (start_address_claim 5 (claimer_ready (net_new ''can0'' False)))))
   in reports (Name 7) (cl_world c) = Some (Some 5)"
proof -
  let ?s = "start_address_claim 5 (claimer_ready (net_new ''can0'' False)) :: can_header claimer"
  let ?c1 = "run_job can_header_ops sml_run (Name 7) 0 ?s"
  let ?c2 = "complete_wait can_header_ops sml_run (Name 7) 0 Success ?c1"
  let ?c = "complete_wait can_header_ops sml_run (Name 7) 0 Success ?c2"
  have n: "0 < length (posted (cl_world ?s))" "0 < length (waits (cl_world ?c1))" "0 < length (waits (cl_world ?c2))"
    "fst ?c = St_has_address" "has_address (snd ?c) = 5"
    by code_simp+
  have "claimer_reach can_header_ops sml_run (Name 7) (claimer_ready (net_new ''can0'' False)) ?c"
    by (rule claimer_reach.step [OF claimer_reach.step [OF claimer_reach.step [OF claimer_reach.step [OF
      claimer_reach.refl claimer_step.start] claimer_step.job [OF n(1)]] claimer_step.completion [OF n(2)]]
      claimer_step.completion [OF n(3)]])
  from claimer_reports_balance [OF run.boost_sml_axioms this] show ?thesis
    unfolding Let_def n(4,5) by simp
qed

text \<open>The steps of an undisturbed claim, from the frames \<open>fs\<close> sent so far.\<close>

definition quiet_world :: "'h frame list \<Rightarrow> (nat \<times> handler) list \<Rightarrow> 'h world" where
  "quiet_world fs ws = \<lparr>posted = [], waits = ws, rand_delay = 0, on_address_set = True,
     on_lose_address_set = True, on_frame_set = True, on_error_set = True, on_log_set = False,
     cl_calls = map Frame_out fs\<rparr>"

lemma quiet_calls: "frames (quiet_world fs ws) = fs" "addresses (quiet_world fs ws) = []"
  by (simp_all add: call_lists quiet_world_def comp_def)

definition quiet_claimer :: "st \<Rightarrow> network \<Rightarrow> 'h world \<Rightarrow> 'h claimer" where
  "quiet_claimer st net w = (st, deps_new \<lparr>env_net = net, env_world = w\<rparr>)"

lemma quiet_simps [simp]:
  "env_world (deps_env (snd (quiet_claimer st net w))) = w" "env_net (deps_env (snd (quiet_claimer st net w))) = net"
  "fst (quiet_claimer st net w) = st" "waits (quiet_world fs ws) = ws" "frames (quiet_world fs ws) = fs"
  "addresses (quiet_world fs ws) = []" "posted (quiet_world fs ws) = []"
  "(quiet_world fs ws)\<lparr>cl_calls := []\<rparr> = quiet_world [] ws"
  by (simp_all add: quiet_calls, simp_all add: quiet_claimer_def quiet_world_def deps_new_def)

lemma claim_restarted:
  assumes "boost_sml sml" and "\<not> net_full net"
  shows "run_job C sml n 0 (start_address_claim p (claimer_ready net)) =
    quiet_claimer St_no_address net (quiet_world [make_address_request_all C] [(200, Start_claim_delay p)])"
  using assms(2)
  by (simp add: run_job_def run_posted_def start_address_claim_def world_ops drop_nth_def
      boost_sml.process_event_step [OF assms(1)] claimer_ready_def claimer_setters claimer_new_def
      upd_claimer_def upd_world_def deps_new_def world_new_def reenter_def send_request_def call_env_def claimer_cbs
      quiet_claimer_def quiet_world_def cl_called_def)

lemma claim_begun:
  assumes "boost_sml sml" and "\<not> net_full net" and "net_find_address n p net = q"
  shows "complete_wait C sml n 0 Success
      (quiet_claimer St_no_address net (quiet_world fs [(200, Start_claim_delay p)])) =
    (St_claiming, (snd (quiet_claimer St_claiming net
       (quiet_world (fs @ [make_address_claim C n q]) [(250, Claim_timeout)])))\<lparr>claiming := q\<rparr>)"
  using assms(2,3)
  by (simp add: complete_wait_def world_ops drop_nth_def boost_sml.process_event_step [OF assms(1)]
      upd_claimer_def upd_world_def deps_new_def begin_claiming_address_def claim_address_def
      send_address_claim_def call_env_def claimer_cbs quiet_claimer_def quiet_world_def cl_called_def)

lemma claim_completed:
  assumes "boost_sml sml" and "net_claimable q n net"
  shows "complete_wait C sml n 0 Success
      (St_claiming, (snd (quiet_claimer St_claiming net (quiet_world fs [(250, Claim_timeout)])))\<lparr>claiming := q\<rparr>) =
    (St_has_address, (snd (quiet_claimer St_has_address (snd (net_insert n q net))
       (cl_called (Address_gained n q) (quiet_world fs []))))\<lparr>claiming := q, has_address := q\<rparr>)"
  using assms(2)
  by (simp add: complete_wait_def world_ops drop_nth_def boost_sml.process_event_step [OF assms(1)]
      upd_claimer_def upd_world_def deps_new_def notify_address_gain_def call_env_def claimer_cbs Let_def
      quiet_claimer_def quiet_world_def cl_called_def)

text \<open>
  C16. Undisturbed, starting to claim a free address ends with it: once the posted restart has
  run and the two waits have completed, the claimer has the address, the network gives it to the
  name, and the calls of the user were a request and a claim to send and then the news of the address,
  in this order and nothing else.
\<close>

theorem claimer_claims_preferred:
  assumes "boost_sml sml" and "net_inv net" and "net_available p net"
  shows "let c = complete_wait C sml n 0 Success (complete_wait C sml n 0 Success
        (run_job C sml n 0 (start_address_claim p (claimer_ready net))))
    in fst c = St_has_address \<and> has_address (snd c) = p \<and> net_get_address n (cl_net c) = p
      \<and> cl_calls (cl_world c) =
          [Frame_out (make_address_request_all C), Frame_out (make_address_claim C n p), Address_gained n p]
      \<and> posted (cl_world c) = [] \<and> waits (cl_world c) = []"
proof -
  have f: "\<not> net_full net" "net_find_address n p net = p" "unicast p" "net_claimable p n net"
    using assms(2,3) net_available_not_full net_find_address_available
    by (auto simp: net_available_def net_claimable_def split: if_splits)
  have g: "net_get_address n (snd (net_insert n p net)) = p"
    using assms(3) f(3) by (intro net_insert_won_get) (auto simp: net_insert_fst may_take_def net_available_def
        split: if_splits)
  show ?thesis
    unfolding claim_restarted [OF assms(1) f(1)] claim_begun [OF assms(1) f(1,2)] claim_completed [OF assms(1) f(4)]
    using g by (simp add: Let_def quiet_claimer_def quiet_world_def deps_new_def)
qed

theorem claimer_claims_preferred_witness:
  "let c = complete_wait can_header_ops sml_run (Name 7) 0 Success
        (complete_wait can_header_ops sml_run (Name 7) 0 Success
        (run_job can_header_ops sml_run (Name 7) 0 (start_address_claim 5 (claimer_ready (net_new ''can0'' False)))))
   in fst c = St_has_address \<and> net_get_address (Name 7) (cl_net c) = 5"
proof -
  have "net_available 5 (net_new ''can0'' False)" by code_simp
  from claimer_claims_preferred [OF run.boost_sml_axioms net_inv_new this, of can_header_ops "Name 7"]
  show ?thesis by (simp add: Let_def)
qed

lemma net_actions [simp]:
  "deps_net (send_cannot_claim (claimer_sm C n) d) = deps_net d"
  "deps_net (notify_address_loss (claimer_sm C n) d) = net_release n (deps_net d)"
  "deps_net (begin_claiming_address (claimer_sm C n) d) = deps_net d"
  by (simp_all add: claimer_actions begin_claiming_address_def claim_address_def)

lemma net_release_idle_frame:
  "net_get_address n net = J1939_IDLE_ADDR \<Longrightarrow> unicast a \<Longrightarrow>
     net_get_name a (net_release n net) = net_get_name a net"
  by (auto simp: net_get_name_def net_release_maps net_get_address_def split: option.splits)



text \<open>
  C40. A device of lower priority that claims the registered address of the claimer is never
  answered: its claim fails in the network, the user sees an error, and no event reaches the
  state machine, whose row for defending the address is not used.
\<close>

theorem claimer_does_not_defend:
  assumes "canary_frame_header C" and "unicast a"
    and "net_get_name a (cl_net c) = Some n" and "name_less n other"
  shows "let c' = claimer_process C (make_address_claim C other a) c
    in posted (cl_world c') = posted (cl_world c) \<and> waits (cl_world c') = waits (cl_world c)
      \<and> frames (cl_world c') = frames (cl_world c)
      \<and> errors (cl_world c') = errors (cl_world c) @
          (if on_error_set (cl_world c) then [(''on_frame_address_claim'', Address_in_use)] else [])"
proof -
  have "\<not> fst (net_insert other a (cl_net c))"
    using assms(2-4) by (simp add: net_insert_decides name_order_prio)
  then show ?thesis
    using canary_frame_header.claim_frame [OF assms(1), of other a]
    by (simp add: claimer_process_def process_claim_def Let_def split_beta emit_error_def)
qed

theorem claimer_does_not_defend_witness:
  "let c = claimer_ready (snd (net_insert (Name 7) 5 (net_new ''can0'' False)));
       c' = claimer_process can_header_ops (make_address_claim can_header_ops (Name 9) 5) c
   in posted (cl_world c') = [] \<and> frames (cl_world c') = []"
proof -
  have "net_get_name 5 (snd (net_insert (Name 7) 5 (net_new ''can0'' False))) = Some (Name 7)"
    "unicast (5::address_t)" "name_less (Name 7) (Name 9)"
    by code_simp+
  then show ?thesis
    using claimer_does_not_defend [OF can.canary_frame_header_axioms, of 5
        "claimer_ready (snd (net_insert (Name 7) 5 (net_new ''can0'' False)))" "Name 7" "Name 9"]
    by (simp add: Let_def)
qed

text \<open>
  Every request frame is taken for a request of the address, whatever parameter group its
  payload asks for.
\<close>

theorem claimer_ignores_requested_group:
  assumes "fh_is_request C (header fr)" and "\<not> fh_is_claim C (header fr)"
  shows "claimer_process C fr c =
    upd_claimer (upd_world (post (Ev_address_request (fh_pdu_specific C (header fr))))) c"
  using assms by (simp add: claimer_process_def process_request_def claimer_address_request_def)

theorem claimer_ignores_requested_group_witness:
  "posted (cl_world (claimer_process can_header_ops
      ((make_address_request_all can_header_ops)\<lparr>payload := [0xEB, 0xFE, 0, 0, 0, 0, 0, 0]\<rparr>)
      (claimer_ready (net_new ''can0'' False)))) = [Ev_address_request J1939_NO_ADDR]"
proof -
  let ?fr = "(make_address_request_all can_header_ops)\<lparr>payload := [0xEB, 0xFE, 0, 0, 0, 0, 0, 0]\<rparr>"
  have "fh_is_request can_header_ops (header ?fr)" "\<not> fh_is_claim can_header_ops (header ?fr)"
    "fh_pdu_specific can_header_ops (header ?fr) = J1939_NO_ADDR"
    using can.request_frame [of J1939_NO_ADDR] by (simp_all add: make_address_request_all_def)
  with claimer_ignores_requested_group [OF this(1,2)] show ?thesis by (simp add: post_def)
qed

end
