(* ===== verification/Jay_Main.thy ===== *)
theory Jay_Main
  imports Jay_Connection Jay_Claimer
begin

unbundle bit_operations_syntax

text \<open>
  The example program \<^verbatim>\<open>src/examples/main.cpp\<close>: a connection and an address claimer on one network. The
  connection gives every frame it reads to the claimer, and the claimer sends its frames through the
  connection. Their other callbacks write to the console. The program runs the event loop, whose order
  of events is left open, until a signal stops it.
\<close>

section \<open>The program\<close>

text \<open>\<open>console\<close> is the lines written to \<^verbatim>\<open>std::cout\<close>, \<open>stopped\<close> is set by \<^verbatim>\<open>io_layer.stop()\<close>.\<close>

record ('h, 's) program =
  the_claimer :: "'h claimer"
  the_con :: "('h, 's) connection"
  console :: "string list"
  stopped :: bool

text \<open>The texts of error codes, which belong to \<^verbatim>\<open>boost::system\<close>.\<close>

record messages =
  claim_message :: "error_code \<Rightarrow> string"
  con_message :: "con_error \<Rightarrow> string"

definition main_name :: name where "main_name = Name 0x7758"

text \<open>The objects with their callbacks. There is none for data.\<close>

definition main_objects :: "'h canary_header \<Rightarrow> 's \<Rightarrow> ('h, 's) program" where
  "main_objects C s =
     (let conn = con_new_nameless C s;
          conn = con_set_on_start True conn;
          conn = con_set_on_close True conn;
          conn = con_set_on_read True conn;
          conn = con_set_on_send True conn;
          conn = con_set_on_error True conn;
          addr_mngr = claimer_new (net_new ''vcan0'' False);
          addr_mngr = on_address_claimed True addr_mngr;
          addr_mngr = on_address_lost True addr_mngr;
          addr_mngr = claimer_on_frame True addr_mngr;
          addr_mngr = claimer_on_error True addr_mngr
      in \<lparr>the_claimer = addr_mngr, the_con = conn, console = [], stopped = False\<rparr>)"

text \<open>
  The callbacks of the connection, for its calls since the last time. The address of a name is
  written as a character, since \<^verbatim>\<open>uint8_t\<close> is a character type for a stream.
\<close>

fun con_output :: "messages \<Rightarrow> 'h canary_header \<Rightarrow> 'h con_call \<Rightarrow> string list" where
  "con_output M C Started = [''Listening for can messages...'']"
| "con_output M C Destroyed = [''J1939 Connection closed'']"
| "con_output M C (Read_frame fr) = []"
| "con_output M C (Sent_frame fr) = [''Sent frame: '' @ frame_to_string C fr]"
| "con_output M C (Data_received d) = []"
| "con_output M C (Error_reported what ec) = [what @ '' '' @ con_message M ec]"

definition main_con_calls :: "messages \<Rightarrow> 'h canary_header \<Rightarrow> ('h, 's) program \<Rightarrow> ('h, 's) program" where
  "main_con_calls M C p =
     p\<lparr>console := console p @ concat (map (con_output M C) (con_calls (con_bus (the_con p)))),
       the_con := upd_bus (\<lambda>b. b\<lparr>con_calls := []\<rparr>) (the_con p)\<rparr>"

text \<open>The callbacks of the claimer, likewise. A frame is written and then sent by the connection.\<close>

fun claimer_output :: "messages \<Rightarrow> 'h canary_header \<Rightarrow> 'h claimer_call \<Rightarrow> string list" where
  "claimer_output M C (Address_gained n address) =
     [to_hex (unat (name_to_value n)) @ '' local ctrl gained address: '' @ [char_of (unat address)]]"
| "claimer_output M C (Address_lost n) = [to_hex (unat (name_to_value n)) @ '' local ctrl lost address'']"
| "claimer_output M C (Frame_out fr) = [''Output frame: '' @ frame_to_string C fr]"
| "claimer_output M C (Claim_error what ec) = [what @ '' '' @ claim_message M ec]"
| "claimer_output M C (Logged line) = []"

definition main_claimer_call :: "messages \<Rightarrow> 'h canary_header \<Rightarrow> ('h, 'f, 's) socket \<Rightarrow> 'h claimer_call \<Rightarrow>
    ('h, 's) program \<Rightarrow> ('h, 's) program" where
  "main_claimer_call M C S call p =
     (let p = p\<lparr>console := console p @ claimer_output M C call\<rparr>
      in case call of
           Frame_out fr \<Rightarrow> main_con_calls M C (p\<lparr>the_con := snd (send_raw S fr (the_con p))\<rparr>)
         | _ \<Rightarrow> p)"

definition main_claimer_calls :: "messages \<Rightarrow> 'h canary_header \<Rightarrow> ('h, 'f, 's) socket \<Rightarrow> ('h, 's) program \<Rightarrow> ('h, 's) program" where
  "main_claimer_calls M C S p =
     fold (main_claimer_call M C S) (cl_calls (cl_world (the_claimer p)))
       (p\<lparr>the_claimer := upd_claimer (upd_world (\<lambda>w. w\<lparr>cl_calls := []\<rparr>)) (the_claimer p)\<rparr>)"

definition main_open :: "messages \<Rightarrow> 'h canary_header \<Rightarrow> ('h, 'f, 's) socket \<Rightarrow> 's \<Rightarrow> bool \<times> ('h, 's) program" where
  "main_open M C S s =
     (let p = main_objects C s; (ok, conn) = con_open S (cl_net (the_claimer p)) (the_con p)
      in (ok, main_con_calls M C (p\<lparr>the_con := conn\<rparr>)))"

definition main_start :: "messages \<Rightarrow> 'h canary_header \<Rightarrow> ('h, 's) program \<Rightarrow> ('h, 's) program" where
  "main_start M C p =
     (let p = main_con_calls M C (p\<lparr>the_con := con_start (the_con p)\<rparr>)
      in p\<lparr>the_claimer := start_address_claim 0x44 (the_claimer p)\<rparr>)"

text \<open>What the event loop runs; \<open>Signal_wait\<close> is the end of the wait for a signal, with or without an error.\<close>

datatype 'h loop_event = Socket_read "socket_error + 'h frame" | Tick_wait bool | Posted_function nat
  | Timer_wait nat error_code | Signal_wait bool

definition main_on_signal :: "bool \<Rightarrow> ('h, 's) program \<Rightarrow> ('h, 's) program" where
  "main_on_signal ec p = (if \<not> ec then p\<lparr>stopped := True\<rparr> else p)"

fun main_event :: "messages \<Rightarrow> 'h canary_header \<Rightarrow> ('h, 'f, 's) socket \<Rightarrow> 'h world deps sml_engine \<Rightarrow> 'h loop_event \<Rightarrow>
    ('h, 's) program \<Rightarrow> failure + ('h, 's) program" where
  "main_event M C S sml (Socket_read (Inr fr)) p =
     (let p = main_claimer_calls M C S (p\<lparr>the_claimer := claimer_process C fr (the_claimer p)\<rparr>)
      in case on_receive C S (cl_net (the_claimer p)) (Inr fr) (the_con p) of
           Inl f \<Rightarrow> Inl f | Inr c \<Rightarrow> Inr (main_con_calls M C (p\<lparr>the_con := c\<rparr>)))"
| "main_event M C S sml (Socket_read (Inl e)) p =
     (case on_receive C S (cl_net (the_claimer p)) (Inl e) (the_con p) of
        Inl f \<Rightarrow> Inl f | Inr c \<Rightarrow> Inr (main_con_calls M C (p\<lparr>the_con := c\<rparr>)))"
| "main_event M C S sml (Tick_wait ec) p = Inr (main_con_calls M C (p\<lparr>the_con := con_tick C S ec (the_con p)\<rparr>))"
| "main_event M C S sml (Posted_function i) p =
     (if i < length (posted (cl_world (the_claimer p)))
      then Inr (main_claimer_calls M C S (p\<lparr>the_claimer := run_job C sml main_name i (the_claimer p)\<rparr>)) else Inr p)"
| "main_event M C S sml (Timer_wait i ec) p =
     (if i < length (waits (cl_world (the_claimer p)))
      then Inr (main_claimer_calls M C S (p\<lparr>the_claimer := complete_wait C sml main_name i ec (the_claimer p)\<rparr>)) else Inr p)"
| "main_event M C S sml (Signal_wait ec) p = Inr (main_on_signal ec p)"

fun main_run :: "messages \<Rightarrow> 'h canary_header \<Rightarrow> ('h, 'f, 's) socket \<Rightarrow> 'h world deps sml_engine \<Rightarrow> 'h loop_event list \<Rightarrow>
    ('h, 's) program \<Rightarrow> failure + ('h, 's) program" where
  "main_run M C S sml [] p = Inr p"
| "main_run M C S sml (e # es) p =
     (if stopped p then Inr p
      else case main_event M C S sml e p of Inl f \<Rightarrow> Inl f | Inr p \<Rightarrow> main_run M C S sml es p)"

text \<open>The connection is closed when the objects are destroyed.\<close>

definition main_close :: "messages \<Rightarrow> 'h canary_header \<Rightarrow> ('h, 's) program \<Rightarrow> ('h, 's) program" where
  "main_close M C p = main_con_calls M C (p\<lparr>the_con := con_destroy (the_con p)\<rparr>)"

text \<open>
  The whole program on the events \<open>es\<close>: an exception, or the exit code with the final state. Without an
  exit code the event loop is still running.
\<close>

definition main_program :: "messages \<Rightarrow> 'h canary_header \<Rightarrow> ('h, 'f, 's) socket \<Rightarrow> 'h world deps sml_engine \<Rightarrow> 's \<Rightarrow>
    'h loop_event list \<Rightarrow> failure + (int option \<times> ('h, 's) program)" where
  "main_program M C S sml s es =
     (let (ok, p) = main_open M C S s
      in if \<not> ok then Inr (Some (- 1), main_close M C p)
         else case main_run M C S sml es (main_start M C p) of
                Inl f \<Rightarrow> Inl f
              | Inr p \<Rightarrow> if stopped p then Inr (Some 0, main_close M C p) else Inr (None, p))"

section \<open>Lemmas\<close>

lemma upd_bus_flags [simp]:
  "con_on_destroy_set (upd_bus f c) = con_on_destroy_set c" "con_on_start_set (upd_bus f c) = con_on_start_set c"
  by (simp_all add: upd_bus_def)

lemma main_con_calls_simps [simp]:
  "the_claimer (main_con_calls M C p) = the_claimer p" "stopped (main_con_calls M C p) = stopped p"
  by (simp_all add: main_con_calls_def)

lemma main_objects_claimer: "the_claimer (main_objects C s) = claimer_ready (net_new ''vcan0'' False)"
  by (simp add: main_objects_def claimer_ready_def Let_def)

lemma main_objects_con:
  "local_name (the_con (main_objects C s)) = None" "target_name (the_con (main_objects C s)) = None"
  "con_on_read_set (the_con (main_objects C s))" "\<not> con_on_data_set (the_con (main_objects C s))"
  "con_on_start_set (the_con (main_objects C s))" "con_on_destroy_set (the_con (main_objects C s))"
  "con_on_send_set (con_bus (the_con (main_objects C s)))" "con_calls (con_bus (the_con (main_objects C s))) = []"
  "con_sock (con_bus (the_con (main_objects C s))) = s"
  "console (main_objects C s) = []" "\<not> stopped (main_objects C s)"
  "rx_callback (con_tp (the_con (main_objects C s))) = None"
  "error_callback (con_tp (the_con (main_objects C s))) = Some con_tp_error"
  by (simp_all add: main_objects_def con_new_nameless_def con_new_def con_set_on_start_def con_set_on_close_def
      con_set_on_read_def con_set_on_send_def con_set_on_error_def upd_bus_def Let_def set_error_handler_def tp_new_def)

text \<open>The connection of the program never gets a name or a callback for data.\<close>

definition bare :: "('h, 's) connection \<Rightarrow> bool" where
  "bare c \<longleftrightarrow> local_name c = None \<and> target_name c = None \<and> con_on_read_set c \<and> \<not> con_on_data_set c"

lemma bare_upd_bus [simp]: "bare (upd_bus f c) = bare c"
  by (simp add: bare_def)

lemma bare_send_raw: "bare c \<Longrightarrow> bare (snd (send_raw S fr c))"
  by (simp add: send_raw_def Let_def split_beta)

lemma bare_tp: "bare c \<Longrightarrow> bare (c\<lparr>con_tp := t\<rparr>)"
  by (simp add: bare_def)

lemma bare_con_calls [simp]: "bare (the_con (main_con_calls M C p)) = bare (the_con p)"
  by (simp add: main_con_calls_def)

lemma bare_claimer_calls: "bare (the_con p) \<Longrightarrow> bare (the_con (main_claimer_calls M C S p))"
proof -
  have "bare (the_con p) \<Longrightarrow> bare (the_con (fold (main_claimer_call M C S) cs p))" for cs p
    by (induction cs arbitrary: p)
      (simp_all add: main_claimer_call_def Let_def bare_send_raw split: claimer_call.split)
  then show "bare (the_con p) \<Longrightarrow> bare (the_con (main_claimer_calls M C S p))"
    by (simp add: main_claimer_calls_def)
qed

lemma bare_on_receive:
  assumes "bare c" and "on_receive C S net input c = Inr c'"
  shows "bare c'"
proof (cases input)
  case (Inl e)
  then show ?thesis using assms by (auto simp: on_receive_def bare_def Let_def)
next
  case (Inr fr)
  have b: "bare (with_frame net fr c)" using assms(1) by (simp add: bare_def)
  have k: "bare c2" if "handle_frame C S fr (with_frame net fr c) = Inr c2" for c2
    using that bare_tp [OF b]
    by (auto simp: handle_frame_def deliver_frame_def bare_def Let_def split: sum.splits if_splits)
  have r: "con_on_read_set c" using assms(1) by (simp add: bare_def)
  have a: "bare (ready_again C fr c2)" if "bare c2" for c2 using that by (simp add: bare_def)
  show ?thesis
    using assms(2) k a b unfolding Inr on_receive_frame [OF r]
    by (cases "handle_frame C S fr (with_frame net fr c)") (auto split: if_splits)
qed

lemma bare_event: "bare (the_con p) \<Longrightarrow> main_event M C S sml e p = Inr p' \<Longrightarrow> bare (the_con p')"
proof (induction M C S sml e p rule: main_event.induct)
  case (1 M C S sml fr p)
  then show ?case
    using bare_claimer_calls [of "p\<lparr>the_claimer := claimer_process C fr (the_claimer p)\<rparr>" M C S]
    by (auto simp: Let_def split: sum.splits dest: bare_on_receive)
next
  case (2 M C S sml e p)
  then show ?case by (auto split: sum.splits dest: bare_on_receive)
next
  case (3 M C S sml ec p)
  then show ?case using bare_tp by (auto simp: con_tick_def)
qed (auto simp: main_on_signal_def split: if_splits intro: bare_claimer_calls)

lemma bare_run: "bare (the_con p) \<Longrightarrow> main_run M C S sml es p = Inr p' \<Longrightarrow> bare (the_con p')"
  by (induction es arbitrary: p) (auto split: sum.splits if_splits dest: bare_event)

text \<open>A connection that writes what it sends to the console, with nothing left to write.\<close>

definition verbose :: "('h, 's) connection \<Rightarrow> bool" where
  "verbose c \<longleftrightarrow> con_on_send_set (con_bus c) \<and> con_on_destroy_set c \<and> con_calls (con_bus c) = []"

lemma con_open_result:
  assumes "con_open S net c = (True, c')"
  shows "\<exists>s. c' = upd_bus (\<lambda>b. b\<lparr>con_sock := s\<rparr>) c"
  using assms by (auto simp: con_open_def split: sum.splits prod.splits option.splits)

lemma main_open_result:
  assumes "main_open M C S s = (True, p)"
  shows "\<exists>s'. p = main_con_calls M C ((main_objects C s)\<lparr>the_con := upd_bus (\<lambda>b. b\<lparr>con_sock := s'\<rparr>) (the_con (main_objects C s))\<rparr>)"
  using assms con_open_result by (fastforce simp: main_open_def Let_def split: prod.splits)

lemma main_opened:
  assumes "main_open M C S s = (True, p)"
  shows "the_claimer p = claimer_ready (net_new ''vcan0'' False)" "bare (the_con p)" "verbose (the_con p)"
    "con_on_start_set (the_con p)" "console p = []" "\<not> stopped p"
    "rx_callback (con_tp (the_con p)) = None" "error_callback (con_tp (the_con p)) = Some con_tp_error"
  using main_open_result [OF assms] main_objects_con [of C s] main_objects_claimer [of C s]
  by (auto simp: main_con_calls_def bare_def verbose_def upd_bus_def)

lemma main_started:
  assumes "main_open M C S s = (True, p)"
  shows "the_claimer (main_start M C p) = start_address_claim 0x44 (claimer_ready (net_new ''vcan0'' False))"
    "bare (the_con (main_start M C p))" "verbose (the_con (main_start M C p))"
    "console (main_start M C p) = [''Listening for can messages...'']" "\<not> stopped (main_start M C p)"
    "con_sock (con_bus (the_con (main_start M C p))) = con_sock (con_bus (the_con p))"
    "rx_callback (con_tp (the_con (main_start M C p))) = None"
    "error_callback (con_tp (the_con (main_start M C p))) = Some con_tp_error"
  using main_opened [OF assms]
  by (simp_all add: main_start_def main_con_calls_def con_start_def async_read_def start_tick_def called_def
      verbose_def bare_def Let_def upd_bus_def)

text \<open>A frame of the claimer on a socket that takes it.\<close>

lemma frame_out:
  assumes "reliable_socket S log up" and "verbose (the_con p)" and "up (con_sock (con_bus (the_con p)))"
  shows "\<exists>c. main_claimer_call M C S (Frame_out fr) p = p\<lparr>the_con := c, console := console p @
      [''Output frame: '' @ frame_to_string C fr, ''Sent frame: '' @ frame_to_string C fr]\<rparr>
    \<and> verbose c \<and> up (con_sock (con_bus c)) \<and> log (con_sock (con_bus c)) = log (con_sock (con_bus (the_con p))) @ [fr]"
  using assms(2) reliable_socket.write_ok [OF assms(1,3), of fr] reliable_socket.sock_log [OF assms(1,3), of fr]
    reliable_socket.sock_up [OF assms(1,3), of fr]
  by (intro exI [of _ "upd_bus (\<lambda>b. b\<lparr>con_calls := []\<rparr>) (snd (send_raw S fr (the_con p)))"])
    (simp add: main_claimer_call_def main_con_calls_def send_raw_def verbose_def sent_calls_def Let_def)

text \<open>The events of an undisturbed claim.\<close>

abbreviation claiming_claimer :: "network \<Rightarrow> 'h frame list \<Rightarrow> 'h claimer" where
  "claiming_claimer net fs \<equiv>
     (St_claiming, (snd (quiet_claimer St_claiming net (quiet_world fs [(250, Claim_timeout)])))\<lparr>claiming := 0x44\<rparr>)"

lemma cleared [simp]:
  "upd_claimer (upd_world (\<lambda>w. w\<lparr>cl_calls := []\<rparr>)) (quiet_claimer st net (quiet_world fs ws)) =
     quiet_claimer st net (quiet_world [] ws)"
  "upd_claimer (upd_world (\<lambda>w. w\<lparr>cl_calls := []\<rparr>)) (claiming_claimer net fs) = claiming_claimer net []"
  "cl_calls (quiet_world fs ws) = map Frame_out fs"
  by (simp_all add: quiet_claimer_def quiet_world_def upd_claimer_def upd_world_def deps_new_def)

lemma event_restart:
  assumes "boost_sml sml" and "reliable_socket S log up" and "\<not> net_full net"
    and "the_claimer p = start_address_claim 0x44 (claimer_ready net)"
    and "verbose (the_con p)" and "up (con_sock (con_bus (the_con p)))"
  shows "\<exists>c. main_event M C S sml (Posted_function 0) p =
      Inr (p\<lparr>the_claimer := quiet_claimer St_no_address net (quiet_world [] [(200, Start_claim_delay 0x44)]), the_con := c,
        console := console p @ concat (map (\<lambda>t. [t @ frame_to_string C (make_address_request_all C)]) [''Output frame: '', ''Sent frame: ''])\<rparr>)
    \<and> verbose c \<and> up (con_sock (con_bus c))
    \<and> log (con_sock (con_bus c)) = log (con_sock (con_bus (the_con p))) @ [make_address_request_all C]"
proof -
  have j: "0 < length (posted (cl_world (the_claimer p)))"
    by (simp add: assms(4) start_address_claim_def world_ops)
  let ?p = "p\<lparr>the_claimer := quiet_claimer St_no_address net (quiet_world [] [(200, Start_claim_delay 0x44)])\<rparr>"
  obtain c where "main_claimer_call M C S (Frame_out (make_address_request_all C)) ?p =
      ?p\<lparr>the_con := c, console := console p @ [''Output frame: '' @ frame_to_string C (make_address_request_all C),
        ''Sent frame: '' @ frame_to_string C (make_address_request_all C)]\<rparr>"
      and "verbose c" "up (con_sock (con_bus c))"
      "log (con_sock (con_bus c)) = log (con_sock (con_bus (the_con p))) @ [make_address_request_all C]"
    using frame_out [OF assms(2), of ?p M C "make_address_request_all C"] assms(5,6) by auto
  then show ?thesis
    using j by (intro exI [of _ c]) (simp add: assms(4) claim_restarted [OF assms(1,3)] main_claimer_calls_def)
qed

lemma event_claim:
  assumes "boost_sml sml" and "reliable_socket S log up" and "\<not> net_full net" and "net_find_address main_name 0x44 net = 0x44"
    and "the_claimer p = quiet_claimer St_no_address net (quiet_world [] [(200, Start_claim_delay 0x44)])"
    and "verbose (the_con p)" and "up (con_sock (con_bus (the_con p)))"
  shows "\<exists>c. main_event M C S sml (Timer_wait 0 Success) p =
      Inr (p\<lparr>the_claimer := claiming_claimer net [], the_con := c,
        console := console p @ concat (map (\<lambda>t. [t @ frame_to_string C (make_address_claim C main_name 0x44)]) [''Output frame: '', ''Sent frame: ''])\<rparr>)
    \<and> verbose c \<and> up (con_sock (con_bus c))
    \<and> log (con_sock (con_bus c)) = log (con_sock (con_bus (the_con p))) @ [make_address_claim C main_name 0x44]"
proof -
  let ?p = "p\<lparr>the_claimer := claiming_claimer net []\<rparr>"
  obtain c where "main_claimer_call M C S (Frame_out (make_address_claim C main_name 0x44)) ?p =
      ?p\<lparr>the_con := c, console := console p @ [''Output frame: '' @ frame_to_string C (make_address_claim C main_name 0x44),
        ''Sent frame: '' @ frame_to_string C (make_address_claim C main_name 0x44)]\<rparr>"
      and "verbose c" "up (con_sock (con_bus c))"
      "log (con_sock (con_bus c)) = log (con_sock (con_bus (the_con p))) @ [make_address_claim C main_name 0x44]"
    using frame_out [OF assms(2), of ?p M C "make_address_claim C main_name 0x44"] assms(6,7) by auto
  then show ?thesis
    by (intro exI [of _ c])
      (simp add: assms(5) claim_begun [OF assms(1,3,4)] main_claimer_calls_def)
qed

lemma event_claimed:
  assumes "boost_sml sml" and "net_claimable 0x44 main_name net" and "the_claimer p = claiming_claimer net []"
  shows "\<exists>cl. main_event M C S sml (Timer_wait 0 Success) p =
      Inr (p\<lparr>the_claimer := cl, console := console p @ [''7758 local ctrl gained address: D'']\<rparr>)
    \<and> fst cl = St_has_address \<and> cl_net cl = snd (net_insert main_name 0x44 net)"
proof -
  have h: "to_hex (unat (name_to_value main_name)) = ''7758''"
    by (simp add: name_to_value_def main_name_def to_hex.simps hex_digit_def)
  have d: "char_of (unat (0x44 :: address_t)) = CHR ''D''" by code_simp
  have t: "claimer_output M C (Address_gained main_name 0x44) = [''7758 local ctrl gained address: D'']"
    unfolding claimer_output.simps h d by simp
  let ?cl = "(St_has_address, (snd (quiet_claimer St_has_address (snd (net_insert main_name 0x44 net))
    (cl_called (Address_gained main_name 0x44) (quiet_world [] []))))\<lparr>claiming := 0x44, has_address := 0x44\<rparr>)"
  have c: "main_claimer_calls M C S (p\<lparr>the_claimer := ?cl\<rparr>) =
      p\<lparr>the_claimer := upd_claimer (upd_world (\<lambda>w. w\<lparr>cl_calls := []\<rparr>)) ?cl,
        console := console p @ claimer_output M C (Address_gained main_name 0x44)\<rparr>"
    by (simp add: main_claimer_calls_def main_claimer_call_def del: claimer_output.simps)
  have w: "0 < length (waits (cl_world (the_claimer p)))" by (simp add: assms(3))
  show ?thesis
    unfolding main_event.simps assms(3) if_P [OF w [unfolded assms(3)]] claim_completed [OF assms(1,2)] c t
    by (intro exI conjI, rule HOL.refl) simp_all
qed

section \<open>The frames on the bus\<close>

text \<open>The frames of the claimer are frames for the bus, so all frames of the program are.\<close>

definition main_typed :: "'h canary_header \<Rightarrow> ('s \<Rightarrow> 'h frame list) \<Rightarrow> ('h, 's) program \<Rightarrow> bool" where
  "main_typed C log p \<longleftrightarrow> typed C log (the_con p) \<and> env_inv C main_name (deps_env (snd (the_claimer p)))"

context logged_socket
begin

lemma own_can_frame: "own_frame C n fr \<Longrightarrow> can_frame C fr"
  by (auto simp: own_frame_def make_address_request_all_def)

lemma typed_con_calls [simp]: "typed C log (the_con p) \<Longrightarrow> typed C log (the_con (main_con_calls M C p))"
  by (simp add: main_con_calls_def typed_upd)

lemma typed_claimer_calls:
  assumes "typed C log (the_con p)" and "env_inv C main_name (deps_env (snd (the_claimer p)))"
  shows "main_typed C log (main_claimer_calls M C S p)"
proof -
  have "main_typed C log q \<Longrightarrow> list_all (\<lambda>c. \<forall>fr. c = Frame_out fr \<longrightarrow> can_frame C fr) cs \<Longrightarrow>
      main_typed C log (fold (main_claimer_call M C S) cs q)" for cs q
  proof (induction cs arbitrary: q)
    case (Cons c cs)
    have "main_typed C log (main_claimer_call M C S c q)"
      using Cons.prems typed_send_raw [of "the_con q"]
      by (cases c) (auto simp: main_claimer_call_def Let_def main_typed_def)
    then show ?case using Cons by simp
  qed simp
  moreover have "list_all (own_frame C main_name) (frames (cl_world (the_claimer p)))" using assms(2) by (simp add: env_inv_def)
  then have "list_all (\<lambda>c. \<forall>fr. c = Frame_out fr \<longrightarrow> can_frame C fr) (cl_calls (cl_world (the_claimer p)))"
    using own_can_frame by (fastforce simp: frames_def list_all_iff)
  ultimately show ?thesis
    using assms unfolding main_claimer_calls_def by (simp add: main_typed_def env_inv_def frames_def)
qed

lemma typed_event:
  assumes "boost_sml sml" and "main_typed C log p" and "main_event M C S sml e p = Inr p'"
  shows "main_typed C log p'"
proof -
  have st: "main_typed C log (main_claimer_calls M C S (p\<lparr>the_claimer := c\<rparr>))"
    if "claimer_step C sml main_name (the_claimer p) c" for c
    using assms(2) env_inv_step [OF assms(1) that] by (intro typed_claimer_calls) (simp_all add: main_typed_def)
  have rc: "main_typed C log (main_con_calls M C (q\<lparr>the_con := c\<rparr>))"
    if "main_typed C log q" "on_receive C S net input (the_con q) = Inr c" for q c net input
    using that typed_receive [OF _ that(2)] by (simp add: main_typed_def)
  show ?thesis
  proof (cases e)
    case (Socket_read r)
    then show ?thesis
      using assms(2,3) st [OF claimer_step.receive] rc by (cases r) (auto simp: Let_def split: sum.splits)
  next
    case (Tick_wait ec)
    then show ?thesis
      using assms(2,3) typed_tick [of "the_con p"] by (auto simp: main_typed_def)
  next
    case (Posted_function i)
    then show ?thesis using assms(2,3) st [OF claimer_step.job] by (auto split: if_splits)
  next
    case (Timer_wait i ec)
    then show ?thesis using assms(2,3) st [OF claimer_step.completion] by (auto split: if_splits)
  next
    case (Signal_wait ec)
    then show ?thesis using assms(2,3) by (auto simp: main_on_signal_def main_typed_def)
  qed
qed

lemma typed_main_run:
  assumes "boost_sml sml"
  shows "main_typed C log p \<Longrightarrow> main_run M C S sml es p = Inr p' \<Longrightarrow> main_typed C log p'"
proof (induction es arbitrary: p)
  case (Cons e es)
  show ?case
  proof (cases "stopped p")
    case False
    then obtain q where q: "main_event M C S sml e p = Inr q" using Cons.prems(2) by (auto split: sum.splits)
    then show ?thesis using Cons False typed_event [OF assms Cons.prems(1) q] by simp
  qed (use Cons in simp)
qed simp

end

section \<open>Properties\<close>

text \<open>
  C23. The whole program does its job: undisturbed, when the posted function has run, the two waits have
  ended and a signal has come, it exits with 0. Its claimer held the address 0x44 for its name, the request
  and the claim went out on the socket, in this order, and the console shows each step.
\<close>

theorem main_claims_address:
  assumes "boost_sml sml" and "reliable_socket S log up" and "main_open M C S s = (True, p)"
    and "up (con_sock (con_bus (the_con p)))"
  shows "\<exists>p'. main_program M C S sml s
        [Posted_function 0, Timer_wait 0 Success, Timer_wait 0 Success, Signal_wait False] = Inr (Some 0, p')
    \<and> fst (the_claimer p') = St_has_address \<and> net_get_address main_name (cl_net (the_claimer p')) = 0x44
    \<and> log (con_sock (con_bus (the_con p'))) = log (con_sock (con_bus (the_con p))) @
        [make_address_request_all C, make_address_claim C main_name 0x44]
    \<and> console p' = [''Listening for can messages...'']
        @ concat (map (\<lambda>fr. [''Output frame: '' @ frame_to_string C fr, ''Sent frame: '' @ frame_to_string C fr])
            [make_address_request_all C, make_address_claim C main_name 0x44])
        @ [''7758 local ctrl gained address: D'', ''J1939 Connection closed'']"
proof -
  let ?net = "net_new ''vcan0'' False" and ?p = "main_start M C p"
  note st = main_started [OF assms(3)]
  have f: "\<not> net_full ?net" "net_find_address main_name 0x44 ?net = 0x44" "net_claimable 0x44 main_name ?net"
      "net_get_address main_name (snd (net_insert main_name 0x44 ?net)) = 0x44"
    by code_simp+
  have u: "up (con_sock (con_bus (the_con ?p)))" using assms(4) by (simp add: st(6))
  from event_restart [OF assms(1,2) f(1) st(1,3) u, of M C] obtain c1 where
    e1: "main_event M C S sml (Posted_function 0) ?p =
      Inr (?p\<lparr>the_claimer := quiet_claimer St_no_address ?net (quiet_world [] [(200, Start_claim_delay 0x44)]), the_con := c1,
        console := console ?p @ concat (map (\<lambda>t. [t @ frame_to_string C (make_address_request_all C)]) [''Output frame: '', ''Sent frame: ''])\<rparr>)"
      (is "_ = Inr ?p1") and c1: "verbose c1" "up (con_sock (con_bus c1))"
      "log (con_sock (con_bus c1)) = log (con_sock (con_bus (the_con ?p))) @ [make_address_request_all C]"
    by blast
  from event_claim [OF assms(1,2) f(1,2), of ?p1 M C] c1 obtain c2 where
    e2: "main_event M C S sml (Timer_wait 0 Success) ?p1 =
      Inr (?p1\<lparr>the_claimer := claiming_claimer ?net [], the_con := c2,
        console := console ?p1 @ concat (map (\<lambda>t. [t @ frame_to_string C (make_address_claim C main_name 0x44)]) [''Output frame: '', ''Sent frame: ''])\<rparr>)"
      (is "_ = Inr ?p2") and c2: "verbose c2"
      "log (con_sock (con_bus c2)) = log (con_sock (con_bus c1)) @ [make_address_claim C main_name 0x44]"
    by auto
  from event_claimed [OF assms(1) f(3), of ?p2 M C S] obtain cl where
    e3: "main_event M C S sml (Timer_wait 0 Success) ?p2 =
      Inr (?p2\<lparr>the_claimer := cl, console := console ?p2 @ [''7758 local ctrl gained address: D'']\<rparr>)"
      and cl: "fst cl = St_has_address" "cl_net cl = snd (net_insert main_name 0x44 ?net)"
    by auto
  show ?thesis
    using e1 e2 e3 cl c1 c2 st f(4)
    by (simp add: main_program_def assms(3) main_on_signal_def main_close_def main_con_calls_def con_destroy_def
        verbose_def called_def)
qed

theorem main_claims_address_witness:
  "let M = \<lparr>claim_message = \<lambda>_. ''error'', con_message = \<lambda>_. ''error''\<rparr>
   in case main_program M can_header_ops log_socket sml_run ([], 0)
        [Posted_function 0, Timer_wait 0 Success, Timer_wait 0 Success, Signal_wait False] of
        Inl f \<Rightarrow> False | Inr (code, p') \<Rightarrow> code = Some 0 \<and> net_get_address main_name (cl_net (the_claimer p')) = 0x44"
proof -
  let ?M = "\<lparr>claim_message = \<lambda>_. ''error'', con_message = \<lambda>_. ''error''\<rparr>"
  have "fst (main_open ?M can_header_ops log_socket ([], 0))" by code_simp
  then obtain p where "main_open ?M can_header_ops log_socket ([], 0) = (True, p)"
    by (cases "main_open ?M can_header_ops log_socket ([], 0)") simp
  from main_claims_address [OF run.boost_sml_axioms ls.reliable_socket_axioms this]
  show ?thesis unfolding Let_def by auto
qed

text \<open>
  C24. In every run of the program, whatever it reads and however its waits end, the network stays
  consistent, and what the claimer and the transport protocol put on the bus are frames in the
  extended format with eight bytes.
\<close>

theorem main_frames_typed:
  assumes "boost_sml sml" and "logged_socket C S log" and "main_open M C S s = (True, p)"
    and "list_all (can_frame C) (log (con_sock (con_bus (the_con p))))"
    and "main_run M C S sml es (main_start M C p) = Inr p'"
  shows "list_all (can_frame C) (log (con_sock (con_bus (the_con p')))) \<and> net_inv (cl_net (the_claimer p'))"
proof -
  let ?p = "main_start M C p"
  have "env_inv C main_name (deps_env (snd (start_address_claim 0x44 (claimer_ready (net_new ''vcan0'' False)))))"
    by (rule env_inv_step [OF assms(1) claimer_step.start]) (simp add: env_inv_def net_inv_new)
  moreover have "typed C log (the_con ?p)"
    using assms(4) main_started(2,6,7,8) [OF assms(3)]
    by (simp add: typed_def keeps_def bare_def)
  ultimately have "main_typed C log ?p" by (simp add: main_typed_def main_started(1) [OF assms(3)])
  from logged_socket.typed_main_run [OF assms(2,1) this assms(5)] show ?thesis
    using logged_socket.typed_log [OF assms(2)] by (simp add: main_typed_def env_inv_def)
qed

theorem main_frames_typed_witness:
  "let M = \<lparr>claim_message = \<lambda>_. ''error'', con_message = \<lambda>_. ''error''\<rparr>;
       p = main_start M can_header_ops (snd (main_open M can_header_ops log_socket ([], 0)))
   in case main_run M can_header_ops log_socket sml_run [Posted_function 0, Signal_wait False] p of
        Inl f \<Rightarrow> False
      | Inr p' \<Rightarrow> list_all (can_frame can_header_ops) (fst (con_sock (con_bus (the_con p'))))
          \<and> fst (con_sock (con_bus (the_con p'))) = [make_address_request_all can_header_ops]"
proof -
  let ?M = "\<lparr>claim_message = \<lambda>_. ''error'', con_message = \<lambda>_. ''error''\<rparr>"
  let ?p = "snd (main_open ?M can_header_ops log_socket ([], 0))"
  have o: "fst (main_open ?M can_header_ops log_socket ([], 0))" "fst (con_sock (con_bus (the_con ?p))) = []"
      "\<not> net_full (net_new ''vcan0'' False)"
    by code_simp+
  have q: "main_open ?M can_header_ops log_socket ([], 0) = (True, ?p)" using o(1) by (metis prod.collapse)
  note st = main_started [OF q]
  from event_restart [OF run.boost_sml_axioms ls.reliable_socket_axioms o(3) st(1,3), where M = ?M and C = can_header_ops] st(5,6) o(2)
  obtain p' where r: "main_run ?M can_header_ops log_socket sml_run [Posted_function 0, Signal_wait False]
        (main_start ?M can_header_ops ?p) = Inr p'"
      and "fst (con_sock (con_bus (the_con p'))) = [make_address_request_all can_header_ops]"
    by (auto simp: main_on_signal_def)
  then show ?thesis
    using main_frames_typed [OF run.boost_sml_axioms lgs.logged_socket_axioms q _ r] o(2) unfolding Let_def r by simp
qed

text \<open>
  The exit codes: -1 exactly when the connection cannot be opened, 0 only after a signal.
\<close>

lemma stopped_claimer_calls [simp]: "stopped (main_claimer_calls M C S p) = stopped p"
proof -
  have "stopped (fold (main_claimer_call M C S) cs p) = stopped p" for cs p
    by (induction cs arbitrary: p) (simp_all add: main_claimer_call_def Let_def split: claimer_call.split)
  then show ?thesis by (simp add: main_claimer_calls_def)
qed

lemma stopped_event: "main_event M C S sml e p = Inr p' \<Longrightarrow> stopped p' \<Longrightarrow> stopped p \<or> e = Signal_wait False"
proof (cases e)
  case (Socket_read r)
  then show "main_event M C S sml e p = Inr p' \<Longrightarrow> stopped p' \<Longrightarrow> ?thesis"
    by (cases r) (auto simp: Let_def split: sum.splits)
qed (auto simp: main_on_signal_def split: if_splits)

lemma stopped_run:
  "main_run M C S sml es p = Inr p' \<Longrightarrow> stopped p' \<Longrightarrow> stopped p \<or> Signal_wait False \<in> set es"
proof (induction es arbitrary: p)
  case (Cons e es)
  then show ?case using stopped_event [of M C S sml e p] by (fastforce split: sum.splits if_splits)
qed simp

lemma main_exit:
  assumes "main_program M C S sml s es = Inr (Some code, p')"
  shows "code = (if fst (main_open M C S s) then 0 else - 1)" "code = 0 \<Longrightarrow> Signal_wait False \<in> set es"
proof -
  obtain ok p where o: "main_open M C S s = (ok, p)" by fastforce
  show "code = (if fst (main_open M C S s) then 0 else - 1)"
    using assms by (auto simp: main_program_def Let_def o split: if_splits sum.splits)
  show "Signal_wait False \<in> set es" if "code = 0"
  proof (cases ok)
    case True
    then have "main_open M C S s = (True, p)" using o by simp
    then show ?thesis
      using assms main_started(5) [of M C S s p] stopped_run [of M C S sml es "main_start M C p"]
      by (auto simp: main_program_def Let_def o split: if_splits sum.splits)
  next
    case False
    then show ?thesis using assms that by (simp add: main_program_def o)
  qed
qed

text \<open>
  The program does not survive the first frame of any other group: at any time, a data frame that is not
  one of the address and transport protocols ends the event loop with an exception, since the
  callback for data is empty.
\<close>

theorem main_fails_on_data:
  assumes "main_open M C S s = (True, p)" and "main_run M C S sml es (main_start M C p) = Inr p'"
    and "normal_pgn (fh_pgn C (header fr))" and "0 < fh_payload_length C (header fr)"
    and "fh_payload_length C (header fr) \<le> length (payload fr)"
  shows "main_event M C S sml (Socket_read (Inr fr)) p' = Inl Bad_function_call"
proof -
  have b: "bare (the_con (main_claimer_calls M C S (p'\<lparr>the_claimer := claimer_process C fr (the_claimer p')\<rparr>)))"
    using bare_run [OF main_started(2) [OF assms(1)] assms(2)] by (intro bare_claimer_calls) simp
  have "on_receive C S net (Inr fr) c = Inl Bad_function_call" if "bare c" for net and c
  proof -
    have a: "accepts C net fr c" "con_on_read_set c" using that by (simp_all add: bare_def accepts_def)
    have "handle_frame C S fr (with_frame net fr c) = Inl Bad_function_call"
      using assms(3-5) that by (simp add: handle_frame_def on_can_normal deliver_frame_def Let_def bare_def)
    then show ?thesis using a by (simp add: on_receive_frame)
  qed
  from this [OF b] show ?thesis by (simp add: Let_def)
qed

end
