(* ===== verification/Jay_Filters.thy ===== *)
theory Jay_Filters
  imports Jay_Claimer
begin

unbundle bit_operations_syntax

text \<open>
  \<^verbatim>\<open>src/include/jay/filters.hpp\<close>: the socket filters for the messages of the address protocol. The class
  \<^verbatim>\<open>canary::filter\<close> is not part of the repository; its operations are a parameter.
\<close>

section \<open>Filters\<close>

record ('h, 'f) canary_filter =
  cf_new :: 'f
  cf_set_id :: "u32 \<Rightarrow> 'f \<Rightarrow> 'f"
  cf_set_id_mask :: "u32 \<Rightarrow> 'f \<Rightarrow> 'f"
  cf_set_remote_transmission :: "bool \<Rightarrow> 'f \<Rightarrow> 'f"
  cf_set_extended_format :: "bool \<Rightarrow> 'f \<Rightarrow> 'f"
  cf_set_negation :: "bool \<Rightarrow> 'f \<Rightarrow> 'f"
  cf_passes :: "'f \<Rightarrow> 'h \<Rightarrow> bool"

definition make_address_request_filter :: "('h, 'f) canary_filter \<Rightarrow> 'f" where
  "make_address_request_filter F =
     (let filter = cf_new F;
          filter = cf_set_id F (push_bit 8 J1939_PGN_REQUEST) filter;
          filter = cf_set_id_mask F (push_bit 8 J1939_PGN_PDU1_MAX) filter;
          filter = cf_set_remote_transmission F False filter;
          filter = cf_set_extended_format F True filter;
          filter = cf_set_negation F False filter
      in filter)"

definition make_address_claim_filter :: "('h, 'f) canary_filter \<Rightarrow> 'f" where
  "make_address_claim_filter F =
     (let filter = cf_new F;
          filter = cf_set_id F (push_bit 8 J1939_PGN_ADDRESS_CLAIMED) filter;
          filter = cf_set_id_mask F (push_bit 8 J1939_PGN_PDU1_MAX) filter;
          filter = cf_set_remote_transmission F False filter;
          filter = cf_set_extended_format F True filter;
          filter = cf_set_negation F False filter
      in filter)"

section \<open>What the filter class promises\<close>

text \<open>
  A filter whose five settings have been made passes a header whose identifier agrees with the one of
  the filter under the mask and which has the two flags, or, when it is negated, any other header.
\<close>

locale socket_filter =
  fixes C :: "'h canary_header" and F :: "('h, 'f) canary_filter"
  assumes passes: "cf_passes F (cf_set_negation F neg (cf_set_extended_format F ext (cf_set_remote_transmission F rtr
      (cf_set_id_mask F m (cf_set_id F i f))))) h \<longleftrightarrow>
    neg \<noteq> (ch_id C h AND m = i AND m \<and> ch_extended_format C h = ext \<and> ch_remote_transmission C h = rtr)"
begin

lemma pdu1_filter:
  assumes "g AND J1939_PGN_PDU1_MAX = g"
  shows "ch_id C h AND push_bit 8 J1939_PGN_PDU1_MAX = push_bit 8 g AND push_bit 8 J1939_PGN_PDU1_MAX \<longleftrightarrow>
    fh_pgn C h AND J1939_PGN_PDU1_MAX = g"
proof -
  have m: "bit J1939_PGN_PDU1_MAX n \<longleftrightarrow> 8 \<le> n \<and> n < 18" for n
    by (simp add: header_bits)
  have g: "bit g n \<Longrightarrow> 8 \<le> n \<and> n < 18" for n
    using assms m [of n] by (metis bit_and_iff)
  have l: "bit (ch_id C h AND push_bit 8 J1939_PGN_PDU1_MAX) n \<longleftrightarrow> bit (ch_id C h) n \<and> 16 \<le> n \<and> n < 26"
    "bit (push_bit 8 g AND push_bit 8 J1939_PGN_PDU1_MAX) n \<longleftrightarrow> 8 \<le> n \<and> bit g (n - 8)"
    "bit (fh_pgn C h AND J1939_PGN_PDU1_MAX) n \<longleftrightarrow> bit (ch_id C h) (n + 8) \<and> 8 \<le> n \<and> n < 18"
    for n
  proof -
    have f: "bit (push_bit 8 J1939_PGN_PDU1_MAX :: u32) n \<longleftrightarrow> 16 \<le> n \<and> n < 26"
      by (auto simp: bit_push_bit_iff m)
    show "bit (ch_id C h AND push_bit 8 J1939_PGN_PDU1_MAX) n \<longleftrightarrow> bit (ch_id C h) n \<and> 16 \<le> n \<and> n < 26"
      by (simp add: bit_and_iff f)
    show "bit (push_bit 8 g AND push_bit 8 J1939_PGN_PDU1_MAX) n \<longleftrightarrow> 8 \<le> n \<and> bit g (n - 8)"
      using g [of "n - 8"] by (auto simp: bit_and_iff f bit_push_bit_iff m)
    show "bit (fh_pgn C h AND J1939_PGN_PDU1_MAX) n \<longleftrightarrow> bit (ch_id C h) (n + 8) \<and> 8 \<le> n \<and> n < 18"
      by (auto simp: bit_and_iff m bit_fh_pgn fh_id_def)
  qed
  show ?thesis
  proof
    assume e: "ch_id C h AND push_bit 8 J1939_PGN_PDU1_MAX = push_bit 8 g AND push_bit 8 J1939_PGN_PDU1_MAX"
    show "fh_pgn C h AND J1939_PGN_PDU1_MAX = g"
    proof (rule bit_word_eqI)
      fix n
      have "bit (ch_id C h AND push_bit 8 J1939_PGN_PDU1_MAX) (n + 8) =
          bit (push_bit 8 g AND push_bit 8 J1939_PGN_PDU1_MAX) (n + 8)"
        by (simp only: e)
      then show "bit (fh_pgn C h AND J1939_PGN_PDU1_MAX) n = bit g n"
        unfolding l using g [of n] by auto
    qed
  next
    assume e: "fh_pgn C h AND J1939_PGN_PDU1_MAX = g"
    show "ch_id C h AND push_bit 8 J1939_PGN_PDU1_MAX = push_bit 8 g AND push_bit 8 J1939_PGN_PDU1_MAX"
    proof (rule bit_word_eqI)
      fix n
      have "bit (fh_pgn C h AND J1939_PGN_PDU1_MAX) (n - 8) = bit g (n - 8)" by (simp only: e)
      then show "bit (ch_id C h AND push_bit 8 J1939_PGN_PDU1_MAX) n =
          bit (push_bit 8 g AND push_bit 8 J1939_PGN_PDU1_MAX) n"
        unfolding l by (cases "8 \<le> n") auto
    qed
  qed
qed

lemma address_filters:
  assumes "fh_wf C h"
  shows "cf_passes F (make_address_request_filter F) h \<longleftrightarrow> fh_is_request C h"
    and "cf_passes F (make_address_claim_filter F) h \<longleftrightarrow> fh_is_claim C h"
proof -
  have r: "J1939_PGN_REQUEST AND J1939_PGN_PDU1_MAX = J1939_PGN_REQUEST"
    "J1939_PGN_ADDRESS_CLAIMED AND J1939_PGN_PDU1_MAX = J1939_PGN_ADDRESS_CLAIMED"
    by (simp_all add: j1939_consts)
  have w: "ch_extended_format C h" "\<not> ch_remote_transmission C h" using assms by (simp_all add: fh_wf_def)
  show "cf_passes F (make_address_request_filter F) h \<longleftrightarrow> fh_is_request C h"
    unfolding make_address_request_filter_def Let_def passes pdu1_filter [OF r(1)] fh_is_request_def
    using w by blast
  show "cf_passes F (make_address_claim_filter F) h \<longleftrightarrow> fh_is_claim C h"
    unfolding make_address_claim_filter_def Let_def passes pdu1_filter [OF r(2)] fh_is_claim_def
    using w by blast
qed

end

section \<open>A concrete filter\<close>

text \<open>A filter that stores its settings, for the header that stores its identifier and flags.\<close>

record can_filter =
  flt_id :: u32
  flt_mask :: u32
  flt_rtr :: bool
  flt_eff :: bool
  flt_neg :: bool

definition can_filter_ops :: "(can_header, can_filter) canary_filter" where
  "can_filter_ops = \<lparr>cf_new = \<lparr>flt_id = 0, flt_mask = 0, flt_rtr = False, flt_eff = False, flt_neg = False\<rparr>,
     cf_set_id = (\<lambda>x f. f\<lparr>flt_id := x\<rparr>), cf_set_id_mask = (\<lambda>x f. f\<lparr>flt_mask := x\<rparr>),
     cf_set_remote_transmission = (\<lambda>x f. f\<lparr>flt_rtr := x\<rparr>), cf_set_extended_format = (\<lambda>x f. f\<lparr>flt_eff := x\<rparr>),
     cf_set_negation = (\<lambda>x f. f\<lparr>flt_neg := x\<rparr>),
     cf_passes = (\<lambda>f h. flt_neg f \<noteq> (can_id h AND flt_mask f = flt_id f AND flt_mask f
       \<and> can_eff h = flt_eff f \<and> can_rtr h = flt_rtr f))\<rparr>"

interpretation cfl: socket_filter can_header_ops can_filter_ops
  by unfold_locales (simp add: can_filter_ops_def can_header_ops_def)

section \<open>Properties\<close>

text \<open>
  C32. The two filters pass exactly the data frames that the address claimer handles: the requests
  and the claims. Any other frame leaves the claimer as it is, so a connection with these filters
  takes nothing from it.
\<close>

theorem filters_pass_claimer_frames:
  assumes "socket_filter C F" and "fh_wf C (header fr)"
  shows "(cf_passes F (make_address_request_filter F) (header fr) \<longleftrightarrow> fh_is_request C (header fr))
    \<and> (cf_passes F (make_address_claim_filter F) (header fr) \<longleftrightarrow> fh_is_claim C (header fr))
    \<and> (\<not> cf_passes F (make_address_request_filter F) (header fr)
        \<and> \<not> cf_passes F (make_address_claim_filter F) (header fr) \<longrightarrow> claimer_process C fr c = c)"
  using socket_filter.address_filters [OF assms] by (simp add: claimer_process_def)

theorem filters_pass_claimer_frames_witness:
  "cf_passes can_filter_ops (make_address_request_filter can_filter_ops)
     (header (make_address_request can_header_ops 0xFF))
   \<and> \<not> cf_passes can_filter_ops (make_address_claim_filter can_filter_ops)
     (header (make_address_request can_header_ops 0xFF))"
  using filters_pass_claimer_frames [OF cfl.socket_filter_axioms, of "make_address_request can_header_ops 0xFF"]
    can.request_frame [of "0xFF"] by (simp add: frame_wf_def)

end
