(* ===== verification/Jay_Logger.thy ===== *)
theory Jay_Logger
  imports Jay_Claimer
begin

text \<open>
  The logger of the address claimer, \<^verbatim>\<open>address_claimer::address_claimer_logger\<close> in
  \<^verbatim>\<open>src/include/jay/address_claimer.hpp\<close>. The engine of the state machine calls it while it handles an
  event; it writes a line for the callback \<^verbatim>\<open>on_log_\<close> of the claimer and does nothing else.

  The names of the C++ types, from \<^verbatim>\<open>boost::sml::aux::get_type_name\<close> and \<^verbatim>\<open>c_str\<close>, are arguments of the
  functions, and \<^verbatim>\<open>boost::format\<close> is a parameter.
\<close>

section \<open>Formats\<close>

text \<open>
  What is relied on of \<^verbatim>\<open>boost::format\<close>: a directive \<^verbatim>\<open>%N%\<close> stands for the argument with this number, all
  arguments occur, and other text stands for itself.
\<close>

datatype piece = Literal string | Argument nat

fun piece_text :: "piece \<Rightarrow> string" where
  "piece_text (Literal s) = s"
| "piece_text (Argument n) = ''%'' @ [char_of (48 + n)] @ ''%''"

fun piece_ok :: "nat \<Rightarrow> piece \<Rightarrow> bool" where
  "piece_ok k (Literal s) \<longleftrightarrow> CHR ''%'' \<notin> set s"
| "piece_ok k (Argument n) \<longleftrightarrow> 1 \<le> n \<and> n \<le> 9 \<and> n \<le> k"

fun piece_value :: "string list \<Rightarrow> piece \<Rightarrow> string" where
  "piece_value args (Literal s) = s"
| "piece_value args (Argument n) = args ! (n - 1)"

definition all_used :: "nat \<Rightarrow> piece list \<Rightarrow> bool" where
  "all_used k ps \<longleftrightarrow> list_all (\<lambda>n. Argument n \<in> set ps) [1..<k + 1]"

locale boost_format =
  fixes fmt :: "string \<Rightarrow> string list \<Rightarrow> string"
  assumes fmt_pieces: "list_all (piece_ok (length args)) ps \<Longrightarrow> all_used (length args) ps \<Longrightarrow>
    fmt (concat (map piece_text ps)) args = concat (map (piece_value args) ps)"

section \<open>The logger\<close>

definition log_process_event :: "(string \<Rightarrow> string list \<Rightarrow> string) \<Rightarrow> string \<Rightarrow> string \<Rightarrow> 'h world \<Rightarrow> 'h world" where
  "log_process_event fmt sm event w =
     (if on_log_set w then cl_called (Logged (fmt ''[%1%] process %2%'' [sm, event])) w else w)"

definition log_guard :: "(string \<Rightarrow> string list \<Rightarrow> string) \<Rightarrow> string \<Rightarrow> string \<Rightarrow> bool \<Rightarrow> 'h world \<Rightarrow> 'h world" where
  "log_guard fmt sm guard pass w =
     (if on_log_set w
      then cl_called (Logged (fmt ''[%1%] guard  %2%  [%3%]'' [sm, guard, if pass then ''OK'' else ''Reject''])) w
      else w)"

definition log_action :: "(string \<Rightarrow> string list \<Rightarrow> string) \<Rightarrow> string \<Rightarrow> string \<Rightarrow> 'h world \<Rightarrow> 'h world" where
  "log_action fmt sm action w =
     (if on_log_set w then cl_called (Logged (fmt ''[%1%] action %2%'' [sm, action])) w else w)"

text \<open>The arrow between the states is one character of the source, with three bytes in UTF-8.\<close>

definition arrow :: string where
  "arrow = [CHR 0xE2, CHR 0x86, CHR 0x92]"

definition log_state_change :: "(string \<Rightarrow> string list \<Rightarrow> string) \<Rightarrow> string \<Rightarrow> string \<Rightarrow> string \<Rightarrow> 'h world \<Rightarrow> 'h world" where
  "log_state_change fmt sm s d w =
     (if on_log_set w
      then cl_called (Logged (fmt (''[%1%] %2%  '' @ arrow @ ''  %3%'') [sm, s, d])) w else w)"

section \<open>A format with these laws\<close>

fun fill :: "string \<Rightarrow> string list \<Rightarrow> string" where
  "fill (c # d # e # xs) args =
     (if c = CHR ''%'' \<and> e = CHR ''%'' then args ! (of_char d - 49) @ fill xs args
      else c # fill (d # e # xs) args)"
| "fill xs args = xs"

lemma fill_char: "c \<noteq> CHR ''%'' \<Longrightarrow> fill (c # xs) args = c # fill xs args"
  by (cases xs; cases "tl xs") auto

lemma fill_text: "CHR ''%'' \<notin> set s \<Longrightarrow> fill (s @ xs) args = s @ fill xs args"
  by (induction s) (auto simp: fill_char simp del: fill.simps)

lemma fill_argument:
  "n \<le> 9 \<Longrightarrow> fill (piece_text (Argument n) @ xs) args = args ! (n - 1) @ fill xs args"
  by (simp add: of_char_of)

interpretation plain: boost_format fill
proof
  fix args :: "string list" and ps
  assume "list_all (piece_ok (length args)) ps"
  then show "fill (concat (map piece_text ps)) args = concat (map (piece_value args) ps)"
  proof (induction ps)
    case (Cons p ps)
    then show ?case by (cases p) (simp_all add: fill_text fill_argument del: fill.simps piece_text.simps(2))
  qed simp
qed

section \<open>What is logged\<close>

lemma digits: "char_of (49 :: nat) = CHR ''1''" "char_of (50 :: nat) = CHR ''2''" "char_of (51 :: nat) = CHR ''3''"
  by code_simp+

context boost_format
begin

lemma fmt_two:
  assumes "CHR ''%'' \<notin> set s1 \<union> set s2"
  shows "fmt (s1 @ ''%1%'' @ s2 @ ''%2%'') [x, y] = s1 @ x @ s2 @ y"
  using fmt_pieces [of "[x, y]" "[Literal s1, Argument 1, Literal s2, Argument 2]"] assms
  by (simp add: all_used_def digits)

lemma fmt_three:
  assumes "CHR ''%'' \<notin> set s1 \<union> set s2 \<union> set s3 \<union> set s4"
  shows "fmt (s1 @ ''%1%'' @ s2 @ ''%2%'' @ s3 @ ''%3%'' @ s4) [x, y, z] = s1 @ x @ s2 @ y @ s3 @ z @ s4"
  using fmt_pieces [of "[x, y, z]" "[Literal s1, Argument 1, Literal s2, Argument 2, Literal s3, Argument 3, Literal s4]"] assms
  by (simp add: all_used_def upt_rec digits)

end

text \<open>The lines of the four functions.\<close>

theorem logger_lines:
  assumes "boost_format fmt" and "on_log_set w"
  shows "log_process_event fmt sm x w = cl_called (Logged (''['' @ sm @ ''] process '' @ x)) w"
    "log_action fmt sm x w = cl_called (Logged (''['' @ sm @ ''] action '' @ x)) w"
    "log_guard fmt sm x pass w =
       cl_called (Logged (''['' @ sm @ ''] guard  '' @ x @ ''  ['' @ (if pass then ''OK]'' else ''Reject]''))) w"
    "log_state_change fmt sm x y w = cl_called (Logged (''['' @ sm @ ''] '' @ x @ ''  '' @ arrow @ ''  '' @ y)) w"
  using assms(2) boost_format.fmt_two [OF assms(1), of "''[''" "''] process ''" sm x]
    boost_format.fmt_two [OF assms(1), of "''[''" "''] action ''" sm x]
    boost_format.fmt_three [OF assms(1), of "''[''" "''] guard  ''" "''  [''" "'']''" sm x "if pass then ''OK'' else ''Reject''"]
    boost_format.fmt_three [OF assms(1), of "''[''" "''] ''" "''  '' @ arrow @ ''  ''" "[]" sm x y]
  by (simp_all add: log_process_event_def log_action_def log_guard_def log_state_change_def arrow_def)

lemma cl_called_upd: "(cl_called call w)\<lparr>cl_calls := cl_calls w\<rparr> = w"
  by (simp add: cl_called_def)

text \<open>
  Logging does not change what the claimer does: without a callback nothing happens, and with one only a
  line is added to the calls of the user.
\<close>

lemma logger_only_logs:
  assumes "w' \<in> {log_process_event fmt sm x w, log_action fmt sm x w, log_guard fmt sm x pass w, log_state_change fmt sm x y w}"
  shows "w'\<lparr>cl_calls := cl_calls w\<rparr> = w" "reports n w' = reports n w" "frames w' = frames w"
    "addresses w' = addresses w" "lost w' = lost w" "errors w' = errors w"
    "\<not> on_log_set w \<Longrightarrow> w' = w"
  using assms
  by (auto simp: log_process_event_def log_action_def log_guard_def log_state_change_def cl_called_upd split: if_splits)

end
