(* ===== verification/Jay_Sharing.thy ===== *)
theory Jay_Sharing
  imports Jay_Network
begin

text \<open>
  The lock of the class \<^verbatim>\<open>jay::network\<close> of \<^verbatim>\<open>src/include/jay/network.hpp\<close>. A network is shared by
  connections and claimers on several threads. Each operation takes the mutex of the object, for itself
  with \<^verbatim>\<open>std::scoped_lock\<close> or shared with other readers with \<^verbatim>\<open>std::shared_lock\<close>, and then accesses the
  maps step by step. Here the operations are programs of single accesses, which threads run interleaved.
  The theory shows that each of them is one step on the state, as \<open>Jay_Network\<close> has them.
\<close>

section \<open>Programs of single accesses\<close>

datatype ('s, 'r) act = Ret 'r | Step "'s \<Rightarrow> ('s, 'r) act \<times> 's"

primrec run_act :: "('s, 'r) act \<Rightarrow> 's \<Rightarrow> 'r \<times> 's" where
  "run_act (Ret r) = (\<lambda>s. (r, s))"
| "run_act (Step f) = (\<lambda>s. let (g, s') = map_prod run_act id (f s) in g s')"

primrec bind_act :: "('s, 'a) act \<Rightarrow> ('a \<Rightarrow> ('s, 'b) act) \<Rightarrow> ('s, 'b) act" where
  "bind_act (Ret a) k = k a"
| "bind_act (Step f) k = Step (\<lambda>s. map_prod (\<lambda>p. bind_act p k) id (f s))"

definition access :: "('s \<Rightarrow> 'r) \<Rightarrow> ('s, 'r) act" where
  "access f = Step (\<lambda>s. (Ret (f s), s))"

definition change :: "('s \<Rightarrow> 's) \<Rightarrow> ('s, unit) act" where
  "change f = Step (\<lambda>s. (Ret (), f s))"

text \<open>A program without changes.\<close>

primrec reads_only :: "('s, 'r) act \<Rightarrow> bool" where
  "reads_only (Ret r) \<longleftrightarrow> True"
| "reads_only (Step f) \<longleftrightarrow> (\<forall>s. snd (f s) = s \<and> fst (map_prod reads_only id (f s)))"

lemma act_induct [case_names Ret Step]:
  assumes "\<And>r. P (Ret r)" and "\<And>f. (\<And>s. P (fst (f s))) \<Longrightarrow> P (Step f)"
  shows "P p"
proof (induction p)
  case (Step f)
  have "P (fst (f s))" for s
    using Step [of "f s" "fst (f s)"] rangeI [of f s] by (cases "f s") simp
  then show ?case by (rule assms(2))
qed (rule assms(1))

lemma run_step: "run_act (Step f) s = run_act (fst (f s)) (snd (f s))"
  by (simp add: split_beta)

lemma run_bind [simp]: "run_act (bind_act p k) s = (let (a, s') = run_act p s in run_act (k a) s')"
  by (induction p arbitrary: s rule: act_induct) (simp_all add: split_beta Let_def)

lemma run_access [simp]: "run_act (access f) s = (f s, s)"
  by (simp add: access_def)

lemma run_change [simp]: "run_act (change f) s = ((), f s)"
  by (simp add: change_def)

lemma reads_step: "reads_only (Step f) \<Longrightarrow> snd (f s) = s \<and> reads_only (fst (f s))"
  by simp

lemma reads_bind: "reads_only p \<Longrightarrow> (\<And>a. reads_only (k a)) \<Longrightarrow> reads_only (bind_act p k)"
  by (induction p rule: act_induct) simp_all

lemma reads_access [simp]: "reads_only (access f)"
  by (simp add: access_def)

section \<open>The operations\<close>

text \<open>The accesses to the two maps.\<close>

definition find_name :: "name \<Rightarrow> (network, address_t option) act" where
  "find_name n = access (\<lambda>net. um_find (name_addr_map net) n)"

definition find_addr :: "address_t \<Rightarrow> (network, name option) act" where
  "find_addr a = access (\<lambda>net. um_find (addr_name_map net) a)"

definition index_name :: "name \<Rightarrow> (network, address_t) act" where
  "index_name n = Step (\<lambda>net. let (a, names) = um_index n 0 (name_addr_map net) in (Ret a, net\<lparr>name_addr_map := names\<rparr>))"

definition assign_name :: "name \<Rightarrow> address_t \<Rightarrow> (network, unit) act" where
  "assign_name n a = change (\<lambda>net. net\<lparr>name_addr_map := um_assign n a (name_addr_map net)\<rparr>)"

definition assign_addr :: "address_t \<Rightarrow> name \<Rightarrow> (network, unit) act" where
  "assign_addr a n = change (\<lambda>net. net\<lparr>addr_name_map := um_assign a n (addr_name_map net)\<rparr>)"

definition emplace_name :: "name \<Rightarrow> (network, unit) act" where
  "emplace_name n = change (\<lambda>net. net\<lparr>name_addr_map := um_try_emplace n J1939_IDLE_ADDR (name_addr_map net)\<rparr>)"

definition erase_name :: "name \<Rightarrow> (network, unit) act" where
  "erase_name n = change (\<lambda>net. net\<lparr>name_addr_map := um_erase n (name_addr_map net)\<rparr>)"

definition erase_addr :: "address_t \<Rightarrow> (network, unit) act" where
  "erase_addr a = change (\<lambda>net. net\<lparr>addr_name_map := um_erase a (addr_name_map net)\<rparr>)"

text \<open>The operations that change the network.\<close>

definition set_idle_act :: "name \<Rightarrow> (network, unit) act" where
  "set_idle_act n = bind_act (index_name n) (\<lambda>a. bind_act (erase_addr a) (\<lambda>_. assign_name n J1939_IDLE_ADDR))"

definition claim_act :: "name \<Rightarrow> address_t \<Rightarrow> bool \<Rightarrow> (network, unit) act" where
  "claim_act n address notify =
     bind_act (assign_name n address) (\<lambda>_. bind_act (assign_addr address n) (\<lambda>_.
       bind_act (access on_new_name_set) (\<lambda>set.
         if notify \<and> set then change (\<lambda>net. net\<lparr>new_names := new_names net @ [(n, address)]\<rparr>) else Ret ())))"

definition insert_act :: "name \<Rightarrow> address_t \<Rightarrow> (network, bool) act" where
  "insert_act n address =
     bind_act (find_name n) (\<lambda>prev_it.
       let first_time = (prev_it = None);
           prev_addr = (case prev_it of None \<Rightarrow> J1939_IDLE_ADDR | Some a \<Rightarrow> a)
       in if address > J1939_MAX_UNICAST_ADDR then
            (if first_time then bind_act (assign_name n J1939_IDLE_ADDR) (\<lambda>_. Ret True)
             else if address = J1939_IDLE_ADDR then bind_act (set_idle_act n) (\<lambda>_. Ret True)
             else Ret False)
          else
            bind_act (find_addr address) (\<lambda>addr_it.
              let notify = first_time \<or> prev_addr \<noteq> address;
                  occupied = (addr_it \<noteq> None);
                  conflict = (case addr_it of None \<Rightarrow> name_default | Some c \<Rightarrow> c)
              in if occupied \<and> name_greater n conflict then bind_act (emplace_name n) (\<lambda>_. Ret False)
                 else bind_act (emplace_name n) (\<lambda>_.
                   bind_act (if occupied \<and> conflict \<noteq> n then set_idle_act conflict else Ret ()) (\<lambda>_.
                     bind_act (claim_act n address notify) (\<lambda>_. Ret True)))))"

definition release_act :: "name \<Rightarrow> (network, unit) act" where
  "release_act n =
     bind_act (find_name n) (\<lambda>it. if it = None then Ret ()
       else bind_act (index_name n) (\<lambda>address. bind_act (assign_name n J1939_IDLE_ADDR) (\<lambda>_.
         bind_act (find_addr address) (\<lambda>it. if it = None then Ret () else erase_addr address))))"

definition remove_act :: "name \<Rightarrow> (network, unit) act" where
  "remove_act n =
     bind_act (find_name n) (\<lambda>it. if it = None then Ret ()
       else bind_act (index_name n) (\<lambda>address. bind_act (erase_name n) (\<lambda>_.
         bind_act (find_addr address) (\<lambda>it. if it = None then Ret () else erase_addr address))))"

definition clear_act :: "(network, unit) act" where
  "clear_act = bind_act (change (\<lambda>net. net\<lparr>name_addr_map := []\<rparr>)) (\<lambda>_. change (\<lambda>net. net\<lparr>addr_name_map := []\<rparr>))"

definition on_new_name_callback_act :: "bool \<Rightarrow> (network, unit) act" where
  "on_new_name_callback_act cb = change (\<lambda>net. net\<lparr>on_new_name_set := cb\<rparr>)"

text \<open>The operations that only read.\<close>

definition claimable_act :: "address_t \<Rightarrow> name \<Rightarrow> (network, bool) act" where
  "claimable_act address n =
     (if address > J1939_MAX_UNICAST_ADDR then Ret False
      else bind_act (find_addr address) (\<lambda>it. Ret (case it of Some m \<Rightarrow> name_greater m n | None \<Rightarrow> True)))"

definition available_act :: "address_t \<Rightarrow> (network, bool) act" where
  "available_act address =
     (if address > J1939_MAX_UNICAST_ADDR then Ret False
      else bind_act (find_addr address) (\<lambda>it. Ret (it = None)))"

definition in_network_act :: "name \<Rightarrow> (network, bool) act" where
  "in_network_act n = bind_act (find_name n) (\<lambda>it. Ret (it \<noteq> None))"

definition match_act :: "name \<Rightarrow> address_t \<Rightarrow> (network, bool) act" where
  "match_act n address = bind_act (find_name n) (\<lambda>it. Ret (case it of Some a \<Rightarrow> a = address | None \<Rightarrow> False))"

definition address_count_act :: "(network, nat) act" where
  "address_count_act = access (\<lambda>net. um_size (addr_name_map net))"

definition name_count_act :: "(network, nat) act" where
  "name_count_act = access (\<lambda>net. um_size (name_addr_map net))"

definition get_name_act :: "address_t \<Rightarrow> (network, name option) act" where
  "get_name_act address = find_addr address"

definition get_address_act :: "name \<Rightarrow> (network, address_t) act" where
  "get_address_act n = bind_act (find_name n) (\<lambda>it. Ret (case it of Some a \<Rightarrow> a | None \<Rightarrow> J1939_NO_ADDR))"

definition full_act :: "(network, bool) act" where
  "full_act = bind_act (access (\<lambda>net. um_size (addr_name_map net))) (\<lambda>k. Ret (k > unat J1939_MAX_UNICAST_ADDR))"

function search_act :: "name \<Rightarrow> address_t \<Rightarrow> address_t \<Rightarrow> (network, address_t) act" where
  "search_act n address end_address =
     (if address < end_address then
        bind_act (find_addr address) (\<lambda>pair. case pair of
           None \<Rightarrow> Ret address
         | Some m \<Rightarrow> if name_eq m n then Ret address else search_act n (address + 1) end_address)
      else Ret J1939_NO_ADDR)"
  by pat_completeness auto

termination
  by (relation "measure (\<lambda>(n, a, e). unat e - unat a)")
    (simp_all add: unat_plus_1 word_less_nat_alt)

declare search_act.simps [simp del]

definition find_address_act :: "name \<Rightarrow> address_t \<Rightarrow> (network, address_t) act" where
  "find_address_act n preferred_address =
     (let preferred_address = clamp preferred_address 0 J1939_MAX_UNICAST_ADDR
      in if \<not> self_config_address n \<noteq> 0 then
           bind_act (find_addr preferred_address) (\<lambda>pair. Ret (case pair of
              None \<Rightarrow> preferred_address
            | Some m \<Rightarrow> if n \<le> m then preferred_address else J1939_NO_ADDR))
         else
           bind_act (search_act n preferred_address J1939_IDLE_ADDR) (\<lambda>address.
             if address = J1939_NO_ADDR then search_act n 0 preferred_address else Ret address))"

text \<open>The loop over the map of the names, which reads one element at a time.\<close>

primrec names_act :: "nat list \<Rightarrow> name list \<Rightarrow> (network, name list) act" where
  "names_act [] s = Ret s"
| "names_act (i # is) s = bind_act (access (\<lambda>net. name_addr_map net ! i)) (\<lambda>pair. names_act is (name_set_insert (fst pair) s))"

definition get_name_set_act :: "(network, name list) act" where
  "get_name_set_act = bind_act (access (\<lambda>net. length (name_addr_map net))) (\<lambda>k. names_act [0..<k] [])"

section \<open>The lock of each operation\<close>

datatype net_call = Call_on_new_name_callback bool | Call_get_name_set | Call_insert name address_t | Call_release name
  | Call_remove name | Call_clear | Call_available address_t | Call_claimable address_t name | Call_in_network name
  | Call_match name address_t | Call_address_count | Call_name_count | Call_get_name address_t | Call_get_address name
  | Call_full | Call_find_address name address_t

datatype net_result = R_void | R_bool bool | R_size nat | R_names "name list" | R_name "name option" | R_address address_t

datatype lock = No_lock | Shared_lock | Scoped_lock

text \<open>\<^verbatim>\<open>available\<close> and \<^verbatim>\<open>claimable\<close> answer for special addresses before they take the lock.\<close>

fun net_lock :: "net_call \<Rightarrow> lock" where
  "net_lock (Call_on_new_name_callback cb) = Scoped_lock"
| "net_lock Call_get_name_set = Shared_lock"
| "net_lock (Call_insert n a) = Scoped_lock"
| "net_lock (Call_release n) = Scoped_lock"
| "net_lock (Call_remove n) = Scoped_lock"
| "net_lock Call_clear = Scoped_lock"
| "net_lock (Call_available a) = (if a > J1939_MAX_UNICAST_ADDR then No_lock else Shared_lock)"
| "net_lock (Call_claimable a n) = (if a > J1939_MAX_UNICAST_ADDR then No_lock else Shared_lock)"
| "net_lock (Call_in_network n) = Shared_lock"
| "net_lock (Call_match n a) = Shared_lock"
| "net_lock Call_address_count = Shared_lock"
| "net_lock Call_name_count = Shared_lock"
| "net_lock (Call_get_name a) = Shared_lock"
| "net_lock (Call_get_address n) = Shared_lock"
| "net_lock Call_full = Shared_lock"
| "net_lock (Call_find_address n a) = Shared_lock"

definition result :: "('a \<Rightarrow> net_result) \<Rightarrow> (network, 'a) act \<Rightarrow> (network, net_result) act" where
  "result r p = bind_act p (\<lambda>x. Ret (r x))"

fun net_act :: "net_call \<Rightarrow> (network, net_result) act" where
  "net_act (Call_on_new_name_callback cb) = result (\<lambda>_. R_void) (on_new_name_callback_act cb)"
| "net_act Call_get_name_set = result R_names get_name_set_act"
| "net_act (Call_insert n a) = result R_bool (insert_act n a)"
| "net_act (Call_release n) = result (\<lambda>_. R_void) (release_act n)"
| "net_act (Call_remove n) = result (\<lambda>_. R_void) (remove_act n)"
| "net_act Call_clear = result (\<lambda>_. R_void) clear_act"
| "net_act (Call_available a) = result R_bool (available_act a)"
| "net_act (Call_claimable a n) = result R_bool (claimable_act a n)"
| "net_act (Call_in_network n) = result R_bool (in_network_act n)"
| "net_act (Call_match n a) = result R_bool (match_act n a)"
| "net_act Call_address_count = result R_size address_count_act"
| "net_act Call_name_count = result R_size name_count_act"
| "net_act (Call_get_name a) = result R_name (get_name_act a)"
| "net_act (Call_get_address n) = result R_address (get_address_act n)"
| "net_act Call_full = result R_bool full_act"
| "net_act (Call_find_address n a) = result R_address (find_address_act n a)"

text \<open>The same calls as single steps on the state.\<close>

fun net_step :: "net_call \<Rightarrow> network \<Rightarrow> net_result \<times> network" where
  "net_step (Call_on_new_name_callback cb) net = (R_void, net_on_new_name_callback cb net)"
| "net_step Call_get_name_set net = (R_names (net_get_name_set net), net)"
| "net_step (Call_insert n a) net = map_prod R_bool id (net_insert n a net)"
| "net_step (Call_release n) net = (R_void, net_release n net)"
| "net_step (Call_remove n) net = (R_void, net_remove n net)"
| "net_step Call_clear net = (R_void, net_clear net)"
| "net_step (Call_available a) net = (R_bool (net_available a net), net)"
| "net_step (Call_claimable a n) net = (R_bool (net_claimable a n net), net)"
| "net_step (Call_in_network n) net = (R_bool (net_in_network n net), net)"
| "net_step (Call_match n a) net = (R_bool (net_match n a net), net)"
| "net_step Call_address_count net = (R_size (net_address_count net), net)"
| "net_step Call_name_count net = (R_size (net_name_count net), net)"
| "net_step (Call_get_name a) net = (R_name (net_get_name a net), net)"
| "net_step (Call_get_address n) net = (R_address (net_get_address n net), net)"
| "net_step Call_full net = (R_bool (net_full net), net)"
| "net_step (Call_find_address n a) net = (R_address (net_find_address n a net), net)"

section \<open>The programs compute the operations\<close>

lemma run_accesses [simp]:
  "run_act (find_name n) net = (um_find (name_addr_map net) n, net)"
  "run_act (find_addr a) net = (um_find (addr_name_map net) a, net)"
  "run_act (index_name n) net =
     (fst (um_index n 0 (name_addr_map net)), net\<lparr>name_addr_map := snd (um_index n 0 (name_addr_map net))\<rparr>)"
  "run_act (assign_name n a) net = ((), net\<lparr>name_addr_map := um_assign n a (name_addr_map net)\<rparr>)"
  "run_act (assign_addr a n) net = ((), net\<lparr>addr_name_map := um_assign a n (addr_name_map net)\<rparr>)"
  "run_act (emplace_name n) net = ((), net\<lparr>name_addr_map := um_try_emplace n J1939_IDLE_ADDR (name_addr_map net)\<rparr>)"
  "run_act (erase_name n) net = ((), net\<lparr>name_addr_map := um_erase n (name_addr_map net)\<rparr>)"
  "run_act (erase_addr a) net = ((), net\<lparr>addr_name_map := um_erase a (addr_name_map net)\<rparr>)"
  by (simp_all add: find_name_def find_addr_def index_name_def assign_name_def assign_addr_def emplace_name_def
      erase_name_def erase_addr_def split_beta Let_def)

lemma run_set_idle [simp]: "run_act (set_idle_act n) net = ((), net_set_idle n net)"
  by (simp add: set_idle_act_def net_set_idle_def split_beta Let_def)

lemma run_claim [simp]: "run_act (claim_act n a notify) net = ((), net_claim n a notify net)"
  by (simp add: claim_act_def net_claim_def Let_def split_beta)

lemma run_insert [simp]: "run_act (insert_act n a) net = net_insert n a net"
  by (simp add: insert_act_def net_insert_def Let_def split_beta)

lemma um_index_found: "um_find m k = Some v \<Longrightarrow> um_index k d m = (v, m)"
  by (simp add: um_index_def)

lemma run_release [simp]: "run_act (release_act n) net = ((), net_release n net)"
  by (auto simp: release_act_def net_release_def Let_def split_beta um_index_found split: option.split)

lemma run_remove [simp]: "run_act (remove_act n) net = ((), net_remove n net)"
  by (auto simp: remove_act_def net_remove_def Let_def split_beta um_index_found split: option.split)

lemma run_clear [simp]: "run_act clear_act net = ((), net_clear net)"
  by (simp add: clear_act_def net_clear_def)

lemma run_search [simp]: "run_act (search_act n a e) net = (net_search n a e net, net)"
proof (induction n a e rule: search_act.induct)
  case (1 n a e)
  then show ?case
    by (subst search_act.simps, subst net_search.simps) (auto split: option.split)
qed

lemma run_find_address [simp]: "run_act (find_address_act n a) net = (net_find_address n a net, net)"
  by (simp add: find_address_act_def net_find_address_def Let_def)

lemma run_names: "run_act (names_act is s) net =
    (fold (\<lambda>p s. name_set_insert (fst p) s) (map (\<lambda>i. name_addr_map net ! i) is) s, net)"
  by (induction "is" arbitrary: s) simp_all

lemma run_get_name_set [simp]: "run_act get_name_set_act net = (net_get_name_set net, net)"
  by (simp add: get_name_set_act_def run_names map_nth net_get_name_set_def split_beta')

lemmas query_acts = available_act_def claimable_act_def in_network_act_def match_act_def address_count_act_def
  name_count_act_def get_name_act_def get_address_act_def full_act_def

lemma run_net_act: "run_act (net_act c) net = net_step c net"
  by (cases c)
    (simp_all add: result_def Let_def split_beta map_prod_def query_acts on_new_name_callback_act_def net_available_def
      net_claimable_def net_in_network_def net_match_def net_address_count_def net_name_count_def net_get_name_def
      net_get_address_def net_full_def net_on_new_name_callback_def)

section \<open>Threads\<close>

text \<open>
  An object with a lock: its state, the calls in progress, and the calls that have returned with their
  results, in the order of their returns.
\<close>

record ('s, 'c, 'r) shared =
  obj :: 's
  running :: "('c \<times> ('s, 'r) act) list"
  history :: "('c \<times> 'r) list"

definition may_lock :: "('c \<Rightarrow> lock) \<Rightarrow> lock \<Rightarrow> ('c \<times> ('s, 'r) act) list \<Rightarrow> bool" where
  "may_lock lk l cs =
     (case l of
        No_lock \<Rightarrow> True
      | Shared_lock \<Rightarrow> list_all (\<lambda>(c, p). lk c \<noteq> Scoped_lock) cs
      | Scoped_lock \<Rightarrow> list_all (\<lambda>(c, p). lk c = No_lock) cs)"

text \<open>A call takes its lock when the others allow it, makes its accesses one by one, and returns.\<close>

inductive shared_step :: "('c \<Rightarrow> ('s, 'r) act) \<Rightarrow> ('c \<Rightarrow> lock) \<Rightarrow> ('s, 'c, 'r) shared \<Rightarrow> ('s, 'c, 'r) shared \<Rightarrow> bool"
  for act lk where
  enter: "may_lock lk (lk c) (running m) \<Longrightarrow> shared_step act lk m (m\<lparr>running := running m @ [(c, act c)]\<rparr>)"
| access: "i < length (running m) \<Longrightarrow> running m ! i = (c, Step f) \<Longrightarrow>
    shared_step act lk m (m\<lparr>obj := snd (f (obj m)), running := (running m)[i := (c, fst (f (obj m)))]\<rparr>)"
| leave: "i < length (running m) \<Longrightarrow> running m ! i = (c, Ret r) \<Longrightarrow>
    shared_step act lk m (m\<lparr>running := drop_nth i (running m), history := history m @ [(c, r)]\<rparr>)"

inductive shared_reach :: "('c \<Rightarrow> ('s, 'r) act) \<Rightarrow> ('c \<Rightarrow> lock) \<Rightarrow> 's \<Rightarrow> ('s, 'c, 'r) shared \<Rightarrow> bool"
  for act lk s where
  idle: "shared_reach act lk s \<lparr>obj = s, running = [], history = []\<rparr>"
| step: "shared_reach act lk s m \<Longrightarrow> shared_step act lk m m' \<Longrightarrow> shared_reach act lk s m'"

text \<open>The calls one after the other, when each gives the recorded result.\<close>

fun replay :: "('c \<Rightarrow> 's \<Rightarrow> 'r \<times> 's) \<Rightarrow> 's \<Rightarrow> ('c \<times> 'r) list \<Rightarrow> 's option" where
  "replay st s [] = Some s"
| "replay st s ((c, r) # h) = (if fst (st c s) = r then replay st (snd (st c s)) h else None)"

lemma replay_append: "replay st s (h @ h') = Option.bind (replay st s h) (\<lambda>s'. replay st s' h')"
  by (induction st s h rule: replay.induct) simp_all

text \<open>A given schedule: which call starts, and which call in progress goes on.\<close>

datatype 'c move = Enter 'c | Go nat

fun do_move :: "('c \<Rightarrow> ('s, 'r) act) \<Rightarrow> ('c \<Rightarrow> lock) \<Rightarrow> 'c move \<Rightarrow> ('s, 'c, 'r) shared \<Rightarrow> ('s, 'c, 'r) shared option" where
  "do_move act lk (Enter c) m =
     (if may_lock lk (lk c) (running m) then Some (m\<lparr>running := running m @ [(c, act c)]\<rparr>) else None)"
| "do_move act lk (Go i) m =
     (if i < length (running m) then
        (case running m ! i of
           (c, Step f) \<Rightarrow> Some (m\<lparr>obj := snd (f (obj m)), running := (running m)[i := (c, fst (f (obj m)))]\<rparr>)
         | (c, Ret r) \<Rightarrow> Some (m\<lparr>running := drop_nth i (running m), history := history m @ [(c, r)]\<rparr>))
      else None)"

fun do_moves :: "('c \<Rightarrow> ('s, 'r) act) \<Rightarrow> ('c \<Rightarrow> lock) \<Rightarrow> 'c move list \<Rightarrow> ('s, 'c, 'r) shared \<Rightarrow> ('s, 'c, 'r) shared option" where
  "do_moves act lk [] m = Some m"
| "do_moves act lk (x # xs) m = Option.bind (do_move act lk x m) (do_moves act lk xs)"

lemma do_move_step: "do_move act lk x m = Some m' \<Longrightarrow> shared_step act lk m m'"
  by (cases x) (auto split: if_splits prod.splits act.splits intro: shared_step.intros)

lemma do_moves_reach: "shared_reach act lk s m \<Longrightarrow> do_moves act lk xs m = Some m' \<Longrightarrow> shared_reach act lk s m'"
  by (induction xs arbitrary: m) (auto simp: bind_eq_Some_conv dest: do_move_step intro: shared_reach.step)

text \<open>
  What an object needs of its operations: those without a lock make no access, and those with a shared
  lock only read.
\<close>

locale lock_discipline =
  fixes act :: "'c \<Rightarrow> ('s, 'r) act" and lk :: "'c \<Rightarrow> lock"
  assumes unlocked: "lk c = No_lock \<Longrightarrow> \<exists>r. act c = Ret r"
    and shared_reads: "lk c = Shared_lock \<Longrightarrow> reads_only (act c)"
begin

text \<open>A call without a lock is done. A reader will still return what it would in the state \<open>s\<close>.\<close>

definition free_ok :: "'c \<times> ('s, 'r) act \<Rightarrow> bool" where
  "free_ok x \<longleftrightarrow> lk (fst x) = No_lock \<and> snd x = act (fst x) \<and> (\<exists>r. snd x = Ret r)"

definition reader_ok :: "'s \<Rightarrow> 'c \<times> ('s, 'r) act \<Rightarrow> bool" where
  "reader_ok s x \<longleftrightarrow> lk (fst x) = Shared_lock \<and> reads_only (snd x) \<and> run_act (snd x) s = run_act (act (fst x)) s"

definition writer_ok :: "'s \<Rightarrow> 's \<Rightarrow> 'c \<times> ('s, 'r) act \<Rightarrow> bool" where
  "writer_ok s s' x \<longleftrightarrow> lk (fst x) = Scoped_lock \<and> run_act (snd x) s' = run_act (act (fst x)) s"

definition locked_ok :: "'s \<Rightarrow> ('s, 'c, 'r) shared \<Rightarrow> bool" where
  "locked_ok s m \<longleftrightarrow>
     obj m = s \<and> list_all (\<lambda>x. free_ok x \<or> reader_ok s x) (running m)
     \<or> (\<exists>i < length (running m). writer_ok s (obj m) (running m ! i)
          \<and> (\<forall>j < length (running m). j \<noteq> i \<longrightarrow> free_ok (running m ! j)))"

lemma reader_pure: "reads_only p \<Longrightarrow> snd (run_act p s) = s"
  by (induction p arbitrary: s rule: act_induct) (simp_all add: split_beta Let_def)

lemma enter_ok:
  assumes "may_lock lk (lk c) (running m)" and "locked_ok s m"
  shows "locked_ok s (m\<lparr>running := running m @ [(c, act c)]\<rparr>)"
proof (cases "list_all (\<lambda>x. lk (fst x) \<noteq> Scoped_lock) (running m)")
  case True
  then have r: "obj m = s" "list_all (\<lambda>x. free_ok x \<or> reader_ok s x) (running m)"
    using assms(2) by (auto simp: locked_ok_def writer_ok_def list_all_length)
  show ?thesis
  proof (cases "lk c")
    case Scoped_lock
    then have "list_all free_ok (running m)"
      using assms(1) r(2) by (auto simp: may_lock_def list_all_iff reader_ok_def split_beta)
    with r(1) Scoped_lock show ?thesis
      by (auto simp: locked_ok_def writer_ok_def list_all_length nth_append intro!: exI [of _ "length (running m)"])
  qed (use r unlocked [of c] shared_reads [of c] in \<open>auto simp: locked_ok_def free_ok_def reader_ok_def\<close>)
next
  case False
  then have l: "lk c = No_lock"
    using assms(1) by (cases "lk c") (auto simp: may_lock_def list_all_iff split_beta)
  from False assms(2) obtain i where "i < length (running m)" "writer_ok s (obj m) (running m ! i)"
      "\<forall>j < length (running m). j \<noteq> i \<longrightarrow> free_ok (running m ! j)"
    by (auto simp: locked_ok_def list_all_iff free_ok_def reader_ok_def)
  with l unlocked [of c] show ?thesis
    by (auto simp: locked_ok_def free_ok_def nth_append intro!: exI [of _ i])
qed

lemma access_ok:
  assumes "i < length (running m)" and "running m ! i = (c, Step f)" and "locked_ok s m"
  shows "locked_ok s (m\<lparr>obj := snd (f (obj m)), running := (running m)[i := (c, fst (f (obj m)))]\<rparr>)"
  using assms(3) [unfolded locked_ok_def]
proof (elim disjE conjE exE)
  assume o: "obj m = s" and a: "list_all (\<lambda>x. free_ok x \<or> reader_ok s x) (running m)"
  then have x: "reader_ok s (c, Step f)" using assms(1,2) by (auto simp: list_all_length free_ok_def)
  then have "snd (f s) = s" "reader_ok s (c, fst (f s))"
    using reads_step [of f s] by (auto simp: reader_ok_def run_step simp del: run_act.simps)
  moreover from this(2) a have "list_all (\<lambda>x. free_ok x \<or> reader_ok s x) ((running m)[i := (c, fst (f s))])"
    by (auto simp: list_all_iff dest: set_update_subset_insert [THEN subsetD])
  ultimately show ?thesis using o by (simp add: locked_ok_def)
next
  fix k assume k: "k < length (running m)" "writer_ok s (obj m) (running m ! k)"
    and fr: "\<forall>j < length (running m). j \<noteq> k \<longrightarrow> free_ok (running m ! j)"
  have "i = k" using fr assms(1,2) by (auto simp: free_ok_def)
  with k fr assms(2) show ?thesis
    by (auto simp: locked_ok_def writer_ok_def run_step simp del: run_act.simps intro!: exI [of _ k])
qed

lemma leave_ok:
  assumes "i < length (running m)" and "running m ! i = (c, Ret r)" and "locked_ok s m"
  shows "fst (run_act (act c) s) = r
    \<and> locked_ok (snd (run_act (act c) s)) (m\<lparr>running := drop_nth i (running m), history := h\<rparr>)"
  using assms(3) [unfolded locked_ok_def]
proof (elim disjE conjE exE)
  assume o: "obj m = s" and a: "list_all (\<lambda>x. free_ok x \<or> reader_ok s x) (running m)"
  then have "run_act (act c) s = (r, s)"
    using assms(1,2) by (auto simp: list_all_length free_ok_def reader_ok_def)
  with o a show ?thesis by (simp add: locked_ok_def list_all_drop_nth)
next
  fix k assume k: "k < length (running m)" "writer_ok s (obj m) (running m ! k)"
    and fr: "\<forall>j < length (running m). j \<noteq> k \<longrightarrow> free_ok (running m ! j)"
  show ?thesis
  proof (cases "i = k")
    case True
    then have "run_act (act c) s = (r, obj m)" using k assms(2) by (simp add: writer_ok_def)
    with True fr assms(1) show ?thesis by (simp add: locked_ok_def list_all_length nth_drop_nth)
  next
    case False
    then have "run_act (act c) s = (r, s)" using fr assms(1,2) by (auto simp: free_ok_def)
    moreover obtain k' where "k' < length (drop_nth i (running m))" "drop_nth i (running m) ! k' = running m ! k"
        "\<forall>j < length (drop_nth i (running m)). j \<noteq> k' \<longrightarrow>
          (\<exists>j' < length (running m). j' \<noteq> k \<and> drop_nth i (running m) ! j = running m ! j')"
      using drop_nth_other [OF assms(1) k(1) False] by blast
    ultimately show ?thesis
      using k(2) fr unfolding locked_ok_def by (intro conjI disjI2 exI [of _ k']) auto
  qed
qed

lemma reach_ok:
  assumes "shared_reach act lk s m"
  shows "\<exists>s'. replay (\<lambda>c. run_act (act c)) s (history m) = Some s' \<and> locked_ok s' m"
  using assms
proof induction
  case idle
  show ?case by (simp add: locked_ok_def)
next
  case (step m m')
  then obtain s' where r: "replay (\<lambda>c. run_act (act c)) s (history m) = Some s'" and l: "locked_ok s' m" by blast
  show ?case using step(2)
  proof cases
    case (enter c)
    then show ?thesis using r enter_ok [OF _ l] by auto
  next
    case (access i c f)
    then show ?thesis using r access_ok [OF access(2,3) l] by auto
  next
    case (leave i c x)
    then show ?thesis using r leave_ok [OF leave(2,3) l] by (simp add: replay_append)
  qed
qed

lemma linearizable:
  assumes "shared_reach act lk s m"
  shows "\<exists>s'. replay (\<lambda>c. run_act (act c)) s (history m) = Some s'
    \<and> (list_all (\<lambda>(c, p). lk c \<noteq> Scoped_lock) (running m) \<longrightarrow> obj m = s')"
  using reach_ok [OF assms] by (fastforce simp: locked_ok_def writer_ok_def list_all_length split_beta)

end

section \<open>The network\<close>

lemma reads_accesses [simp]: "reads_only (find_name n)" "reads_only (find_addr a)"
  by (simp_all add: find_name_def find_addr_def)

lemma reads_search [simp]: "reads_only (search_act n a e)"
proof (induction n a e rule: search_act.induct)
  case (1 n a e)
  then show ?case by (subst search_act.simps) (auto intro!: reads_bind split: option.split)
qed

lemma reads_names [simp]: "reads_only (names_act is s)"
  by (induction "is" arbitrary: s) (auto intro!: reads_bind)

interpretation net: lock_discipline net_act net_lock
proof
  fix c
  show "net_lock c = No_lock \<Longrightarrow> \<exists>r. net_act c = Ret r"
    by (cases c) (auto simp: result_def query_acts split: if_splits)
  show "net_lock c = Shared_lock \<Longrightarrow> reads_only (net_act c)"
    by (cases c) (auto simp: result_def get_name_set_act_def query_acts find_address_act_def
        Let_def intro!: reads_bind split: if_splits)
qed

definition is_remove :: "net_call \<Rightarrow> bool" where
  "is_remove c = (case c of Call_remove n \<Rightarrow> True | _ \<Rightarrow> False)"

lemma net_inv_step: "net_inv net \<Longrightarrow> \<not> is_remove c \<Longrightarrow> net_inv (snd (net_step c net))"
  by (cases c) (auto simp: is_remove_def net_inv_insert net_inv_release net_inv_clear net_inv_callback)

lemma net_inv_replay:
  "net_inv net \<Longrightarrow> list_all (\<lambda>(c, r). \<not> is_remove c) h \<Longrightarrow> replay net_step net h = Some net' \<Longrightarrow> net_inv net'"
  by (induction net_step net h rule: replay.induct) (auto simp: net_inv_step split: if_splits)

text \<open>
  C8. A network may be shared by any number of threads: however their accesses interleave, the calls that
  have returned gave the results that they would have given one after the other in the order of their
  returns, and while no call with an exclusive lock is under way the network is in the state that they
  leave. So without removals every reader sees a consistent network.
\<close>

theorem network_linearizable:
  assumes "shared_reach net_act net_lock net m"
  shows "\<exists>net'. replay net_step net (history m) = Some net'
    \<and> (list_all (\<lambda>(c, p). net_lock c \<noteq> Scoped_lock) (running m) \<longrightarrow> obj m = net')
    \<and> (net_inv net \<and> list_all (\<lambda>(c, r). \<not> is_remove c) (history m) \<longrightarrow> net_inv net')"
  using net.linearizable [OF assms] net_inv_replay unfolding run_net_act by (auto 4 3)

theorem network_linearizable_witness:
  "let xs = [Enter (Call_insert (Name 7) 5), Go 0, Go 0, Enter (Call_available J1939_NO_ADDR), Go 0, Go 0, Go 1, Go 0,
         Go 0, Go 0, Enter (Call_get_address (Name 7)), Go 0, Go 0]
   in case do_moves net_act net_lock xs \<lparr>obj = net_new ''can0'' False, running = [], history = []\<rparr> of
        None \<Rightarrow> False
      | Some m \<Rightarrow> history m = [(Call_available J1939_NO_ADDR, R_bool False), (Call_insert (Name 7) 5, R_bool True),
          (Call_get_address (Name 7), R_address 5)] \<and> net_inv (obj m)"
proof -
  let ?m = "\<lparr>obj = net_new ''can0'' False, running = [], history = []\<rparr>"
  let ?xs = "[Enter (Call_insert (Name 7) 5), Go 0, Go 0, Enter (Call_available J1939_NO_ADDR), Go 0, Go 0, Go 1, Go 0,
         Go 0, Go 0, Enter (Call_get_address (Name 7)), Go 0, Go 0]"
  let ?h = "[(Call_available J1939_NO_ADDR, R_bool False), (Call_insert (Name 7) 5, R_bool True),
          (Call_get_address (Name 7), R_address 5)]"
  have "case do_moves net_act net_lock ?xs ?m of None \<Rightarrow> False | Some m \<Rightarrow> history m = ?h \<and> length (running m) = 0"
    by code_simp
  then obtain m where m: "do_moves net_act net_lock ?xs ?m = Some m" "history m = ?h" "running m = []"
    by (cases "do_moves net_act net_lock ?xs ?m") auto
  from network_linearizable [OF do_moves_reach [OF shared_reach.idle m(1)]]
  have "net_inv (obj m)" using net_inv_new [of "''can0''" False] by (auto simp: m(2,3) is_remove_def)
  with m show ?thesis by simp
qed

end
