(* ===== verification/Jay_Tests.thy ===== *)
theory Jay_Tests
  imports Jay_Claimer Jay_Transfer
begin

unbundle bit_operations_syntax

text \<open>
  The unit tests of \<^verbatim>\<open>src/tests\<close> on the definitions: what a test asserts of the code holds of the model.
  The theorems have the calls and the assertions of the tests in their order. They are proved by evaluation,
  apart from the two tests that fill the network.

  The tests of \<^verbatim>\<open>state_machine_test.cpp\<close> are taken up to the loops that fill the network, which leaves
  out that of the claiming state, and the one of \<^verbatim>\<open>address_claimer_test.cpp\<close> in three parts, with the first
  round of its loop. The tests of two claimers on one network, in \<^verbatim>\<open>network_manager_test.cpp\<close> and
  \<^verbatim>\<open>network_process_test.cpp\<close>, and those that use a real socket are left out.
\<close>

section \<open>Names, headers and frames\<close>

text \<open>\<^verbatim>\<open>name_test.cpp\<close>\<close>

theorem test_name_create:
  "let n = name_of_fields 0x1AC85D 0x4FA 7 0x1A 0xDC 0x12 4 2 0;
       n' = set_self_config_address 0 (set_industry_group 2 (set_device_class_instance 4 (set_device_class 0x12
         (set_function 0xDC (set_function_instance 0x1A (set_ecu_instance 7 (set_manufacturer_code 0x4FA
         (set_identity_number 0x1AC85D name_default))))))));
       m = Name 0xC880808480100000
   in name_to_value name_default = 0 \<and> n' = n
    \<and> identity_number n = 0x1AC85D \<and> manufacturer_code n = 0x4FA \<and> ecu_instance n = 7 \<and> function_instance n = 0x1A
    \<and> function_code n = 0xDC \<and> device_class n = 0x12 \<and> device_class_instance n = 4 \<and> industry_group n = 2
    \<and> self_config_address n = 0
    \<and> identity_number m = 0x100000 \<and> manufacturer_code m = 0x400 \<and> ecu_instance m = 4 \<and> function_instance m = 0x10
    \<and> function_code m = 0x80 \<and> device_class m = 0x40 \<and> device_class_instance m = 8 \<and> industry_group m = 4
    \<and> self_config_address m = 1"
  by code_simp

theorem test_name_payload:
  "let n = Name 0xC880808480200000
   in name_to_payload n = [0, 0, 0x20, 0x80, 0x84, 0x80, 0x80, 0xC8] \<and> name_of_payload (name_to_payload n) = n"
  by code_simp

text \<open>\<^verbatim>\<open>header_test.cpp\<close>\<close>

theorem test_header_getters:
  "let C = can_header_ops; h = fh_of_parts C 7 True 0xAF 0xFF 2 1; h1 = fh_of_pgn C 10 0xFAF0 0x64 5; h2 = fh_of_id C 0xFDFFFFFF 0
   in \<not> fh_is_broadcast C h \<and> fh_id C h = 0x1DAFFF02 \<and> fh_priority C h = 7 \<and> fh_data_page C h = 1 \<and> fh_pdu_format C h = 0xAF
    \<and> fh_pdu_specific C h = 0xFF \<and> fh_pgn C h = 0x1AF00 \<and> fh_source_address C h = 2 \<and> fh_payload_length C h = 1
    \<and> fh_is_broadcast C h1 \<and> fh_id C h1 = 0x1CFAF064 \<and> fh_priority C h1 = 7 \<and> fh_data_page C h1 = 0 \<and> fh_pdu_format C h1 = 0xFA
    \<and> fh_pdu_specific C h1 = 0xF0 \<and> fh_pgn C h1 = 0xFAF0 \<and> fh_source_address C h1 = 0x64 \<and> fh_payload_length C h1 = 5
    \<and> fh_is_broadcast C h2 \<and> fh_id C h2 = 0x1DFFFFFF \<and> fh_priority C h2 = 7 \<and> fh_data_page C h2 = 1 \<and> fh_pdu_format C h2 = 0xFF
    \<and> fh_pdu_specific C h2 = 0xFF \<and> fh_pgn C h2 = 0x1FFFF \<and> fh_source_address C h2 = 0xFF \<and> fh_payload_length C h2 = 0"
  by code_simp

theorem test_header_setters:
  "let C = can_header_ops; h = fh_set_id C 0x1DE8A501 (fh_of_parts C 7 True 0xAF 0xFF 2 1); h1 = fh_set_priority C 1 h;
       h2 = fh_set_data_page C False h1; h3 = fh_set_pdu_format C 0x23 h2; h4 = fh_set_pdu_specific C 0x28 h3;
       h5 = fh_set_source_address C 0xFF h4; h6 = fh_set_payload_length C 8 h5;
       g = fh_set_pdu_specific C 0x97 (fh_set_source_address C 100 (fh_of_parts C 3 False 0xBB 0xFE 0xFE 8))
   in fh_id C h = 0x1DE8A501 \<and> fh_priority C h1 = 1 \<and> fh_data_page C h2 = 0 \<and> fh_pdu_format C h3 = 0x23
    \<and> fh_pdu_specific C h4 = 0x28 \<and> fh_source_address C h5 = 0xFF \<and> fh_payload_length C h6 = 8
    \<and> fh_id C g = 0x0CBB9764 \<and> fh_pdu_format C g = 0xBB \<and> fh_pdu_specific C g = 0x97 \<and> fh_source_address C g = 100"
  by code_simp

text \<open>\<^verbatim>\<open>frame_test.cpp\<close>\<close>

theorem test_frame_create:
  "let C = can_header_ops; f = frame_of (fh_of_parts C 7 True 0xAF 0xFF 2 2) [0xFF, 0, 0, 0, 0, 0, 0, 0];
       req = make_address_request_all C; cant = make_cannot_claim C (Name 0); cl = make_address_claim C (Name 0) 0xAA;
       parts = (\<lambda>fr. (fh_priority C (header fr), fh_data_page C (header fr), fh_pdu_format C (header fr),
         fh_pdu_specific C (header fr), fh_source_address C (header fr), fh_payload_length C (header fr)))
   in fh_id C (header f) = 0x1DAFFF02 \<and> fh_payload_length C (header f) = 2 \<and> payload f = [0xFF, 0, 0, 0, 0, 0, 0, 0]
    \<and> fh_is_request C (header req) \<and> fh_id C (header req) = 0x18EAFFFE \<and> fh_pgn C (header req) = J1939_PGN_REQUEST
    \<and> parts req = (6, 0, PF_REQUEST, J1939_NO_ADDR, J1939_IDLE_ADDR, 3) \<and> take 3 (payload req) = [0, 0xEE, 0]
    \<and> fh_is_claim C (header cant) \<and> fh_id C (header cant) = 0x18EEFFFE \<and> fh_pgn C (header cant) = J1939_PGN_ADDRESS_CLAIMED
    \<and> parts cant = (6, 0, PF_ADDRESS_CLAIM, J1939_NO_ADDR, J1939_IDLE_ADDR, 8)
    \<and> fh_is_claim C (header cl) \<and> fh_id C (header cl) = 0x18EEFFAA \<and> fh_pgn C (header cl) = J1939_PGN_ADDRESS_CLAIMED
    \<and> parts cl = (6, 0, PF_ADDRESS_CLAIM, J1939_NO_ADDR, 0xAA, 8)"
  by code_simp

section \<open>The network\<close>

text \<open>\<^verbatim>\<open>network_test.cpp\<close>\<close>

theorem test_network_insert:
  "let c1 = Name 0xa00c81045a20021b; c2 = Name 0xa00c810c5a20021b; c3 = Name (0xa00c810c5a20021b - 1);
       c4 = Name (0xa00c810c5a20021b + 1);
       (ok1, n1) = net_insert c1 0x96 (net_new ''vcan0'' False);
       (ok2, n2) = net_insert c2 0x97 n1;
       n3 = net_release c1 n2; n4 = net_remove c2 n3;
       (ok5, n5) = net_insert c1 0x96 n4; (ok6, n6) = net_insert c2 0x96 n5; (ok7, n7) = net_insert c2 0x97 n6;
       (ok8, n8) = net_insert c3 0x97 n7; (ok9, n9) = net_insert c4 J1939_IDLE_ADDR n8;
       (ok10, n10) = net_insert c3 J1939_NO_ADDR n9;
       counts = (\<lambda>n. (net_address_count n, net_name_count n))
   in [ok1, ok2, ok5, ok6, ok7, ok8, ok9, ok10] = [True, True, True, False, True, True, True, False]
    \<and> map counts [n2, n3, n4, n5, n6, n7, n8, n9, n10] = [(2, 2), (1, 2), (0, 1), (1, 1), (1, 2), (2, 2), (2, 3), (2, 4), (2, 4)]
    \<and> net_get_interface_name n2 = ''vcan0'' \<and> net_in_network c1 n2 \<and> net_in_network c2 n2
    \<and> \<not> net_available 0x96 n2 \<and> \<not> net_available 0x97 n2 \<and> net_get_address c1 n2 = 0x96 \<and> net_get_address c2 n2 = 0x97
    \<and> net_get_name 0x96 n2 = Some c1 \<and> net_get_name 0x97 n2 = Some c2
    \<and> net_in_network c1 n3 \<and> net_available 0x96 n3 \<and> net_get_address c1 n3 = J1939_IDLE_ADDR \<and> net_get_name 0x96 n3 = None
    \<and> \<not> net_in_network c2 n4 \<and> net_available 0x97 n4 \<and> net_get_address c2 n4 = J1939_NO_ADDR \<and> net_get_name 0x97 n4 = None
    \<and> net_get_address c1 n5 = 0x96 \<and> net_get_address c2 n6 = J1939_IDLE_ADDR \<and> net_get_address c2 n7 = 0x97
    \<and> net_get_address c3 n8 = 0x97 \<and> net_get_address c2 n8 = J1939_IDLE_ADDR
    \<and> net_get_address c4 n9 = J1939_IDLE_ADDR \<and> net_get_address c3 n10 = 0x97"
  by code_simp

text \<open>Insertions one after the other, and whether all of them returned true.\<close>

definition test_inserts :: "(name \<times> address_t) list \<Rightarrow> network \<Rightarrow> bool \<times> network" where
  "test_inserts nas net = fold (\<lambda>(n, a) (ok, net). let (ok', net) = net_insert n a net in (ok \<and> ok', net)) nas (True, net)"

theorem test_network_name_set:
  "net_get_name_set (snd (test_inserts [(Name 1, 0x80), (Name 2, 0x81), (Name 3, 0x82)] (net_new ''vcan0'' False))) = [Name 1, Name 2, Name 3]"
  by code_simp

text \<open>Successive names with the addresses from 0, and the network that they fill.\<close>

definition test_names :: "nat \<Rightarrow> nat \<Rightarrow> (name \<times> address_t) list" where
  "test_names f k = map (\<lambda>i. (Name (word_of_nat (f + i)), word_of_nat i)) [0..<k]"

definition test_filled :: "nat \<Rightarrow> nat \<Rightarrow> network" where
  "test_filled f k = (net_new ''vcan0'' False)\<lparr>name_addr_map := test_names f k, addr_name_map := map (\<lambda>(n, a). (a, n)) (test_names f k)\<rparr>"

lemma update_fresh: "k \<notin> fst ` set m \<Longrightarrow> AList.update k v m = m @ [(k, v)]"
  by (induction m) auto

lemma update_last: "k \<notin> fst ` set m \<Longrightarrow> AList.update k v (m @ [(k, w)]) = m @ [(k, v)]"
  by (induction m) auto

lemma insert_fresh:
  assumes "n \<notin> fst ` set (name_addr_map net)" and "a \<notin> fst ` set (addr_name_map net)" and "unicast a"
    and "\<not> on_new_name_set net"
  shows "net_insert n a net = (True, net\<lparr>name_addr_map := name_addr_map net @ [(n, a)],
    addr_name_map := addr_name_map net @ [(a, n)]\<rparr>)"
proof -
  have u: "map_of (name_addr_map net) n = None" "map_of (addr_name_map net) a = None"
    using assms(1,2) by (simp_all add: map_of_eq_None_iff)
  show ?thesis
    using assms by (simp add: net_insert_def net_claim_def um_eval u update_fresh update_last not_less Let_def)
qed

lemma word_of_nat_neq: "i < j \<Longrightarrow> j < 2 ^ LENGTH('a) \<Longrightarrow> word_of_nat i \<noteq> (word_of_nat j :: 'a::len word)"
proof
  assume i: "i < j" "j < 2 ^ LENGTH('a)" and "word_of_nat i = (word_of_nat j :: 'a word)"
  then have "unat (word_of_nat i :: 'a word) = unat (word_of_nat j :: 'a word)" by simp
  then show False using i by (simp add: unat_of_nat take_bit_nat_eq_self)
qed

lemma test_names_fresh:
  "f + k < 2 ^ 64 \<Longrightarrow> Name (word_of_nat (f + k)) \<notin> fst ` set (test_names f k)"
  "k < 256 \<Longrightarrow> (word_of_nat k :: address_t) \<notin> snd ` set (test_names f k)"
  using word_of_nat_neq [where 'a = 64, of "f + _" "f + k"] word_of_nat_neq [where 'a = 8, of _ k]
  by (fastforce simp: test_names_def)+

lemma test_names_Suc: "test_names f (Suc k) = test_names f k @ [(Name (word_of_nat (f + k)), word_of_nat k)]"
  by (simp add: test_names_def)

lemma test_inserts_snoc: "test_inserts (nas @ [(n, a)]) net =
    (let (ok, net) = test_inserts nas net; (ok', net) = net_insert n a net in (ok \<and> ok', net))"
  by (simp add: test_inserts_def split_beta Let_def)

lemma test_fill: "k \<le> 254 \<Longrightarrow> f + k < 2 ^ 64 \<Longrightarrow> test_inserts (test_names f k) (net_new ''vcan0'' False) = (True, test_filled f k)"
proof (induction k)
  case 0
  then show ?case by (simp add: test_inserts_def test_names_def test_filled_def net_new_def)
next
  case (Suc k)
  have "unicast (word_of_nat k)" using Suc.prems(1) by (simp add: unicast_unat unat_of_nat take_bit_nat_eq_self)
  moreover have "word_of_nat k \<notin> fst ` set (addr_name_map (test_filled f k))"
    using test_names_fresh(2) [of k f] Suc.prems(1) by (force simp: test_filled_def)
  ultimately have "net_insert (Name (word_of_nat (f + k))) (word_of_nat k) (test_filled f k) = (True, test_filled f (Suc k))"
    using insert_fresh [of "Name (word_of_nat (f + k))" "test_filled f k" "word_of_nat k"] test_names_fresh(1) [of f k] Suc.prems(2)
    by (simp add: test_filled_def net_new_def test_names_Suc)
  then show ?case using Suc by (simp add: test_names_Suc test_inserts_snoc)
qed

lemma test_filled_find:
  assumes "k \<le> 254" and "unat a < k"
  shows "um_find (addr_name_map (test_filled f k)) a = Some (Name (word_of_nat (f + unat a)))"
proof -
  have "inj_on (word_of_nat :: nat \<Rightarrow> address_t) {0..<k}"
  proof (rule inj_onI, rule ccontr)
    fix i j assume "i \<in> {0..<k}" "j \<in> {0..<k}" "word_of_nat i = (word_of_nat j :: address_t)" "i \<noteq> j"
    then show False
      using assms(1) word_of_nat_neq [where 'a = 8, of i j] word_of_nat_neq [where 'a = 8, of j i] by (cases "i < j") auto
  qed
  then have "distinct (map fst (addr_name_map (test_filled f k)))"
    by (simp add: test_filled_def test_names_def comp_def distinct_map)
  moreover have "(a, Name (word_of_nat (f + unat a))) \<in> set (addr_name_map (test_filled f k))"
    using assms(2) by (force simp: test_filled_def test_names_def image_iff)
  ultimately show ?thesis by (simp add: um_find_def)
qed


lemma length_test_names [simp]: "length (test_names f k) = k"
  by (simp add: test_names_def)

theorem test_network_fill:
  "let (ok, net) = test_inserts (test_names 0 254 @ [(Name 254, 254)]) (net_new ''vcan0'' False)
   in ok \<and> net_address_count net = 254 \<and> net_name_count net = 255 \<and> net_full net"
proof -
  have "Name 254 \<notin> fst ` set (name_addr_map (test_filled 0 254))" using test_names_fresh(1) [of 0 254] by (simp add: test_filled_def)
  then have i: "net_insert (Name 254) 254 (test_filled 0 254) =
      (True, (test_filled 0 254)\<lparr>name_addr_map := test_names 0 254 @ [(Name 254, 254)]\<rparr>)"
    by (simp add: net_insert_def um_eval update_fresh map_of_eq_None_iff [THEN iffD2] test_filled_def j1939_consts)
  have "test_inserts (test_names 0 254) (net_new ''vcan0'' False) = (True, test_filled 0 254)" by (rule test_fill) simp_all
  then show ?thesis
    by (simp add: test_inserts_snoc i net_address_count_def net_name_count_def net_full_def um_size_def j1939_consts)
      (simp add: test_filled_def)
qed

lemma test_filled_get:
  assumes "k \<le> 254" and "f + k < 2 ^ 64" and "i < k"
  shows "um_find (name_addr_map (test_filled f k)) (Name (word_of_nat (f + i))) = Some (word_of_nat i)"
proof -
  have "inj_on (\<lambda>i. Name (word_of_nat (f + i))) {0..<k}"
  proof (rule inj_onI, rule ccontr)
    fix i j assume "i \<in> {0..<k}" "j \<in> {0..<k}" "Name (word_of_nat (f + i)) = Name (word_of_nat (f + j))" "i \<noteq> j"
    then show False
      using assms(2) word_of_nat_neq [where 'a = 64, of "f + i" "f + j"] word_of_nat_neq [where 'a = 64, of "f + j" "f + i"]
      by (cases "i < j") auto
  qed
  then have "distinct (map fst (name_addr_map (test_filled f k)))"
    by (simp add: test_filled_def test_names_def comp_def distinct_map)
  moreover have "(Name (word_of_nat (f + i)), word_of_nat i) \<in> set (name_addr_map (test_filled f k))"
    using assms(3) by (force simp: test_filled_def test_names_def image_iff)
  ultimately show ?thesis by (simp add: um_find_def)
qed

theorem test_network_search:
  "let (ok, net) = test_inserts (test_names 100 254) (net_new ''vcan0'' False); n = set_self_config_address 1 (Name 0);
       net2 = net_remove (Name 200) net
   in ok \<and> net_find_address n 0 net = J1939_NO_ADDR \<and> net_get_address (Name 200) net = 100
    \<and> net_available 100 net2 \<and> net_find_address n 0 net2 = 100 \<and> net_find_address n 101 net2 = 100
    \<and> fst (net_insert (Name 200) 100 net2)"
proof -
  let ?n = "set_self_config_address 1 (Name 0)" and ?net = "test_filled 100 254"
  let ?net2 = "net_remove (Name 200) ?net"
  have f: "test_inserts (test_names 100 254) (net_new ''vcan0'' False) = (True, ?net)" by (rule test_fill) simp_all
  have g: "um_find (name_addr_map ?net) (Name 200) = Some 100" using test_filled_get [of 254 100 100] by simp
  have h: "um_find (addr_name_map ?net) a = Some (Name (word_of_nat (100 + unat a)))" if "unicast a" for a
    using test_filled_find [of 254 a 100] that by (simp add: unicast_unat)
  have h2: "um_find (addr_name_map ?net2) = (um_find (addr_name_map ?net))(100 := None)"
    using h [of 100] by (simp add: net_remove_def g j1939_consts)
  have s: "self_config_address ?n \<noteq> 0" by code_simp
  have ne: "\<not> name_eq (Name (word_of_nat (100 + unat a))) ?n" if "unicast a" for a
  proof -
    let ?w = "word_of_nat (100 + unat a) :: u64"
    have w: "unat ?w = 100 + unat a" using that unfolding unat_of_nat by (intro mod_less) (simp add: unicast_unat)
    have "name_prio (Name ?w) = take_bit 63 ?w"
      by (rule bit_word_eqI) (auto simp: name_prio_def field_bits start_bits bit_simps)
    also have "\<dots> = ?w" using w that unfolding word_unat_eq_iff unsigned_take_bit_eq by (intro take_bit_nat_eq_self) (simp add: unicast_unat)
    finally have "name_prio (Name ?w) \<noteq> 0" using w by auto
    moreover have "name_prio ?n = 0" by code_simp
    ultimately show ?thesis by (simp add: name_order_prio)
  qed
  have o: "\<forall>a \<in> set (address_order (clamp p 0 J1939_MAX_UNICAST_ADDR)). unicast a" for p
    using set_address_order [OF clamp_unicast(1)] by simp
  have "net_find_address ?n 0 ?net = J1939_NO_ADDR"
    unfolding net_find_address_first [OF s] first_or_none_unicast(1) [OF o]
    using o [of 0] h ne by (auto simp: usable_def)
  moreover have "net_find_address ?n p ?net2 = 100" for p
  proof -
    have u: "usable ?n ?net2 a \<longleftrightarrow> a = 100" if "unicast a" for a
      using h [OF that] ne [OF that] by (simp add: usable_def h2)
    have "100 \<in> set (address_order (clamp p 0 J1939_MAX_UNICAST_ADDR))"
      using set_address_order [OF clamp_unicast(1)] by (simp add: unicast_unat)
    then have "net_find_address ?n p ?net2 \<noteq> J1939_NO_ADDR"
      unfolding net_find_address_first [OF s] first_or_none_unicast(1) [OF o] using u o by blast
    then show ?thesis
      using first_or_none_unicast(2) [OF o] u o unfolding net_find_address_first [OF s] by blast
  qed
  moreover have "net_get_address (Name 200) ?net = 100" by (simp add: net_get_address_def g)
  moreover have "net_available 100 ?net2" "fst (net_insert (Name 200) 100 ?net2)"
    by (simp_all add: net_available_def net_insert_def h2 unicast_unat not_less j1939_consts Let_def)
  ultimately show ?thesis by (simp add: f)
qed

section \<open>The state machine\<close>

text \<open>
  \<^verbatim>\<open>state_machine_test.cpp\<close>: the callbacks of the test change the network and record the calls.
\<close>

definition test_name :: name where
  "test_name = set_self_config_address 1 (Name 0xFF)"

fun test_callbacks :: "call \<Rightarrow> network \<Rightarrow> network" where
  "test_callbacks (Call_address n a) net = snd (net_insert n a net)"
| "test_callbacks (Call_lose_address n) net = net_release n net"
| "test_callbacks c net = net"

abbreviation test_machine :: "call list address_state_machine" where
  "test_machine \<equiv> recorder test_callbacks test_name"

text \<open>The calls an event leads to, and the state after it.\<close>

definition test_event :: "ev \<Rightarrow> st \<times> call list deps \<Rightarrow> call list \<times> (st \<times> call list deps)" where
  "test_event e c = (let c' = process_event sml_run test_machine e c in (drop (length (calls (snd c))) (calls (snd c')), c'))"

definition test_in_net :: "(network \<Rightarrow> network) \<Rightarrow> st \<times> call list deps \<Rightarrow> st \<times> call list deps" where
  "test_in_net f c = (fst c, (snd c)\<lparr>deps_env := (deps_env (snd c))\<lparr>env_net := f (env_net (deps_env (snd c)))\<rparr>\<rparr>)"

definition test_start :: "st \<times> call list deps" where
  "test_start = (St_no_address, deps_new \<lparr>env_net = net_new ''vcan0'' False, env_world = []\<rparr>)"

theorem test_machine_has_address:
  "let me = test_name;
       (k1, c1) = test_event (Ev_start_claim 0xAA) test_start;
       (k2, c2) = test_event Ev_timeout c1;
       (k3, c3) = test_event (Ev_address_request J1939_NO_ADDR) c2;
       (k4, c4) = test_event (Ev_address_claim 0 150) c3;
       (k5, c5) = test_event (Ev_address_claim 170 170) (test_in_net (\<lambda>net. snd (net_insert (Name 170) 170 net)) c4);
       (k6, c6) = test_event Ev_timeout c5;
       (k7, c7) = test_event (Ev_address_claim 0xFFFF 171) c6
   in map fst [c1, c2, c3, c4, c5, c6, c7] =
        [St_claiming, St_has_address, St_has_address, St_has_address, St_claiming, St_has_address, St_has_address]
    \<and> k1 = [Call_begin_claiming, Call_address_claim me 0xAA] \<and> k2 = [Call_address me 0xAA]
    \<and> k3 = [Call_address_claim me 0xAA] \<and> k4 = []
    \<and> k5 = [Call_lose_address me, Call_begin_claiming, Call_address_claim me 171] \<and> k6 = [Call_address me 171]
    \<and> k7 = [Call_address_claim me 171]
    \<and> net_get_address me (env_net (deps_env (snd c2))) = 0xAA \<and> net_get_address me (env_net (deps_env (snd c6))) = 171"
  by code_simp

theorem test_machine_no_address:
  "let me = test_name;
       (k1, c1) = test_event (Ev_address_request J1939_NO_ADDR) test_start;
       (k2, c2) = test_event Ev_timeout c1;
       (k3, c3) = test_event (Ev_address_claim 0xAA 0xAA) c2;
       (k4, c4) = test_event (Ev_start_claim 0xAA) c3
   in map fst [c1, c2, c3, c4] = [St_no_address, St_no_address, St_no_address, St_claiming]
    \<and> k1 = [Call_cannot_claim me] \<and> k2 = [] \<and> k3 = [] \<and> k4 = [Call_begin_claiming, Call_address_claim me 0xAA]
    \<and> net_name_count (env_net (deps_env (snd c3))) = 0"
  by code_simp

section \<open>The address claimer\<close>

text \<open>
  \<^verbatim>\<open>address_claimer_test.cpp\<close>: the posted functions run and the waits end in their order.
\<close>

definition test_claimer :: "network \<Rightarrow> can_header claimer" where
  "test_claimer net = claimer_on_error True (claimer_on_frame True (claimer_new net))"

definition test_emitted :: "can_header claimer \<Rightarrow> can_header frame list \<times> can_header claimer" where
  "test_emitted c = (frames (cl_world c), upd_claimer (upd_world (\<lambda>w. w\<lparr>cl_calls := []\<rparr>)) c)"

definition test_inserted :: "name \<Rightarrow> address_t \<Rightarrow> can_header claimer \<Rightarrow> can_header claimer" where
  "test_inserted n a = upd_claimer (\<lambda>e. e\<lparr>env_net := snd (net_insert n a (env_net e))\<rparr>)"

abbreviation test_job :: "can_header claimer \<Rightarrow> can_header claimer" where
  "test_job \<equiv> run_job can_header_ops sml_run test_name 0"

abbreviation test_wait :: "can_header claimer \<Rightarrow> can_header claimer" where
  "test_wait \<equiv> complete_wait can_header_ops sml_run test_name 0 Success"

theorem test_claimer_idle:
  "let C = can_header_ops;
       (f1, c1) = test_emitted (test_wait (test_job (claimer_process C (make_address_request_all C)
          (test_claimer (net_new ''vcan0'' False)))));
       (f2, c2) = test_emitted (test_job (claimer_process C (make_address_claim C (Name 0xa00c81045a20021b) 0x10) c1))
   in f1 = [make_cannot_claim C test_name] \<and> net_name_count (cl_net c1) = 0 \<and> net_address_count (cl_net c1) = 0
    \<and> f2 = [] \<and> net_name_count (cl_net c2) = 1 \<and> net_address_count (cl_net c2) = 1"
  by code_simp

theorem test_claimer_claims:
  "let C = can_header_ops; net = snd (net_insert (Name 0xa00c81045a20021b) 0x10 (net_new ''vcan0'' False));
       (f1, c1) = test_emitted (test_wait (test_wait (test_job (start_address_claim 0 (test_claimer net)))));
       (f2, c2) = test_emitted (test_job (claimer_process C (make_address_request_all C) c1))
   in f1 = [make_address_request_all C, make_address_claim C test_name 0] \<and> net_in_network test_name (cl_net c1)
    \<and> \<not> net_available 0 (cl_net c1) \<and> net_get_address test_name (cl_net c1) = 0
    \<and> f2 = [make_address_claim C test_name 0]"
  by code_simp

theorem test_claimer_moves:
  "let C = can_header_ops;
       c = snd (test_emitted (test_wait (test_wait (test_job (start_address_claim 0 (test_claimer (net_new ''vcan0'' False)))))));
       n0 = set_self_config_address 1 (Name 0);
       (f1, c1) = test_emitted (test_wait (test_job (claimer_process C (make_address_claim C n0 0) (test_inserted n0 0 c))))
   in f1 = [make_address_claim C test_name 1] \<and> net_in_network test_name (cl_net c1) \<and> net_get_address test_name (cl_net c1) = 1"
  by code_simp

section \<open>The transport protocol\<close>

text \<open>\<^verbatim>\<open>transport_protocol_test.cpp\<close>, with its bus that fails after the first frame.\<close>

definition fail_after_first_bus :: "address_t \<Rightarrow> ('h, 'h tp_log) bus" where
  "fail_after_first_bus me = (log_bus me)\<lparr>bus_send := \<lambda>fr b. if log_frames b = [] then bus_send (log_bus me) fr b else (False, b)\<rparr>"

definition test_control :: "address_t \<Rightarrow> address_t \<Rightarrow> u8 list \<Rightarrow> can_header frame" where
  "test_control dst src bytes = (make_base_frame can_header_ops PGN_TP_CM dst src)\<lparr>payload := bytes\<rparr>"

definition test_later :: "int \<Rightarrow> ('h, 'h tp_log) tp \<Rightarrow> ('h, 'h tp_log) tp" where
  "test_later ms t = t\<lparr>tp_bus := (tp_bus t)\<lparr>log_now := log_now (tp_bus t) + ms\<rparr>\<rparr>"

theorem test_transport_bam:
  "case transport_send can_header_ops (log_bus 0x80) (map word_of_nat [0..<20]) J1939_NO_ADDR 0x1234 log_tp of
     Inl u \<Rightarrow> False
   | Inr (ok, t) \<Rightarrow> ok \<and> log_errors (tp_bus t) = []
      \<and> map (\<lambda>fr. fh_pgn can_header_ops (header fr)) (log_frames (tp_bus t)) = [PGN_TP_CM, PGN_TP_DT, PGN_TP_DT, PGN_TP_DT]"
  by code_simp

theorem test_transport_rx_timeout:
  "case on_can_frame can_header_ops (log_bus 1) (test_control 1 0x90 [to_byte RTS, 8, 0, 2, 1, 0x34, 0x12, 0]) log_tp of
     Inl u \<Rightarrow> False
   | Inr t \<Rightarrow> (let t' = tick can_header_ops (log_bus 1) (test_later (T2 + 50) t)
      in length (log_frames (tp_bus t)) = 1 \<and> length (log_frames (tp_bus t')) = 2
       \<and> take 2 (payload (log_frames (tp_bus t') ! 1)) = [to_byte ABORT, abort_byte Timeout]
       \<and> log_errors (tp_bus t') = [(''tp timeout'', Timed_out)])"
  by code_simp

theorem test_transport_remote_abort:
  "case transport_send can_header_ops (log_bus 1) (replicate 20 0x55) 0x90 0x1234 log_tp of
     Inl u \<Rightarrow> False
   | Inr (ok, t) \<Rightarrow> ok \<and> length (log_frames (tp_bus t)) = 1
      \<and> (case on_can_frame can_header_ops (log_bus 1) (test_control 1 0x90 [to_byte ABORT, 0, 0, 0, 0, 0x34, 0x12, 0]) t of
           Inl u \<Rightarrow> False
         | Inr t \<Rightarrow> (let t = tick can_header_ops (log_bus 1) t
             in length (log_frames (tp_bus t)) = 1 \<and> length (log_errors (tp_bus t)) = 1))"
  by code_simp

theorem test_transport_no_cts:
  "case transport_send can_header_ops (log_bus 1) (replicate 20 0x55) 0x90 0x1234 log_tp of
     Inl u \<Rightarrow> False
   | Inr (ok, t) \<Rightarrow> (let t' = tick can_header_ops (log_bus 1) (test_later (T3 + 50) t)
      in ok \<and> length (log_frames (tp_bus t)) = 1 \<and> length (log_frames (tp_bus t')) = 2
       \<and> take 2 (payload (log_frames (tp_bus t') ! 1)) = [to_byte ABORT, abort_byte Timeout]
       \<and> log_errors (tp_bus t') = [(''tp timeout'', Timed_out)])"
  by code_simp

theorem test_transport_send_error:
  "case transport_send can_header_ops (fail_after_first_bus 1) (replicate 20 0x77) J1939_NO_ADDR 0x1234 log_tp of
     Inl u \<Rightarrow> False | Inr (ok, t) \<Rightarrow> \<not> ok \<and> log_errors (tp_bus t) = [(''tp send DT'', Io_error)]"
  by code_simp

end
