(* ===== verification/Spec2Isabelle.thy ===== *)
theory Spec2Isabelle
  imports Jay_Main Jay_Filters Jay_Logger Jay_Sharing Jay_Tests
begin

unbundle bit_operations_syntax

text \<open>
  A verification of jay, a C++ library for SAE J1939 on CAN (\<^verbatim>\<open>src/include/jay\<close>), and of its example
  program.

  \<^bold>\<open>The program.\<close> Devices on a J1939 network have a 64-bit name and claim an 8-bit address for it. A
  \<^verbatim>\<open>network\<close> object keeps which name has which address. An \<^verbatim>\<open>address_claimer\<close> runs an
  \<^verbatim>\<open>address_state_machine\<close> for one name: it sends requests and claims, waits, yields to names of higher
  priority, and enters its own address and those it hears of into the network. A \<^verbatim>\<open>j1939_connection\<close>
  sends and receives frames on a socket, with the addresses of its local and its target name looked up
  in the network; messages longer than a frame go through its \<^verbatim>\<open>transport_protocol\<close>. The filters
  are the socket filters for the messages of the address protocol. \<^verbatim>\<open>examples/main.cpp\<close> connects a
  claimer and a connection with callbacks.

  \<^bold>\<open>The theories.\<close>

  \<^item> \<open>Jay_Prelude\<close>: named collections of theorems, words and their bits, and \<^verbatim>\<open>std::unordered_map\<close> as an
    association list, with its contract as the locale \<open>unordered_map\<close>.
  \<^item> \<open>Jay_Types\<close> (\<^verbatim>\<open>j1939_type.hpp\<close>): the integer types and the constants.
  \<^item> \<open>Jay_Name\<close> (\<^verbatim>\<open>name.hpp\<close>): the fields of a name, its order, its hash, and its conversion to and from a
    payload. The lemmas show that every setter changes its field only, that the getters give back what
    the constructor was given, the round trip through the payload, and the order by priority.
  \<^item> \<open>Jay_Header\<close> (\<^verbatim>\<open>header.hpp\<close>): the fields of the 29-bit identifier over the class
    \<^verbatim>\<open>canary::frame_header\<close>, which is a parameter \<open>C\<close> with the contract \<open>canary_frame_header\<close>.
  \<^item> \<open>Jay_Frame\<close> (\<^verbatim>\<open>frame.hpp\<close>, \<^verbatim>\<open>data.hpp\<close>): frames, data objects, the frames of the address protocol,
    and their text.
  \<^item> \<open>Jay_Network\<close> (\<^verbatim>\<open>network.hpp\<close>): the two maps and every operation on them; the invariant that ties the
    maps together, the outcome of each contest for an address, the search for an address as the
    first usable one in an order, the contract \<open>address_book\<close> of a registry, and a refinement of an
    abstract registry.
  \<^item> \<open>Jay_Sharing\<close> (the lock of \<^verbatim>\<open>network.hpp\<close>): the operations as programs of single accesses that threads
    run interleaved, each under the mode of the lock it takes. From the contract \<open>lock_discipline\<close>, only
    holders of the exclusive lock change the state, it follows that every run is one in which the operations
    are single steps.
  \<^item> \<open>Jay_State_Machine\<close> (\<^verbatim>\<open>address_state_machine.hpp\<close>): events, guards, actions and the transition table as
    data. The engine \<^verbatim>\<open>boost::sml\<close> is a parameter with the contract \<open>boost_sml\<close>; the theorems show that on
    this table it computes the function \<open>asm_step\<close>, and the protocol the calls of the machine follow.
  \<^item> \<open>Jay_Claimer\<close> (\<^verbatim>\<open>address_claimer.hpp\<close>): the callbacks, the handlers of timers and of posted functions, and
    the steps of the claimer as an inductive relation. The invariants hold for every order of steps. The
    calls of the user's callbacks are recorded in one list, in their order.
  \<^item> \<open>Jay_Logger\<close> (the logger of \<^verbatim>\<open>address_claimer.hpp\<close>): the lines it gives to the callback for them, over
    \<^verbatim>\<open>boost::format\<close> with the contract \<open>boost_format\<close>, and that it does nothing else.
  \<^item> \<open>Jay_Transport\<close> (\<^verbatim>\<open>transport_protocol.hpp\<close>): sessions, frames, both ways of sending, the handling of every
    control frame and packet, and timeouts, over a parameter for the bus. \<open>Jay_Transfer\<close> shows that
    whole messages arrive, also broadcasts of several devices interleaved, with the contract \<open>reliable_bus\<close>.
    \<open>Jay_Transport_Safety\<close> shows that no sequence of events with consistent control frames reads or writes
    outside a buffer, and what happens to packets out of order, to sessions that time out and when the
    bus fails. Its locale \<open>bus_invariant\<close> carries any property of the surroundings that sending and the
    callbacks keep through all operations.
  \<^item> \<open>Jay_Connection\<close> (\<^verbatim>\<open>j1939_connection.hpp\<close>): the connection over a parameter for the socket, with the
    contract \<open>reliable_socket\<close>, which makes its bus adapter a \<open>reliable_bus\<close>; which frames are sent and
    accepted, messages from one connection to another, and that no run with consistent frames fails. With the weaker contract
    \<open>logged_socket\<close>, a socket that takes frames as they are or refuses them, everything that is sent is a
    well-formed frame.
  \<^item> \<open>Jay_Filters\<close> (\<^verbatim>\<open>filters.hpp\<close>): the two filters, over a parameter for \<^verbatim>\<open>canary::filter\<close>.
  \<^item> \<open>Jay_Main\<close> (\<^verbatim>\<open>examples/main.cpp\<close>): the program from opening the connection to its exit code, event by
    event, with what it writes to the console.
  \<^item> \<open>Jay_Tests\<close> (\<^verbatim>\<open>tests\<close>): unit tests of the repository on the definitions.
  \<^item> This theory: what devices do together. A device that joins asks and then avoids the address in use; two devices that
    start at the same moment keep each other from claiming, and the winner of a contest forgets the loser.

  \<^bold>\<open>Conventions.\<close> Objects are records, changed by passing them on. Integers are words of their width; the
  sequence numbers of the transport protocol wrap around as in the source, and
  \<^verbatim>\<open>std::size_t\<close> arithmetic on buffer offsets is written out modulo \<open>2 ^ 64\<close>. The callbacks of the transport
  protocol and of the state machine are functions on their surroundings; those of the user of a claimer or a
  connection are present or not, and their calls are recorded in their order. Exceptions and
  undefined behaviour are values of a sum type, so that a theorem with a right result also says that neither
  occurs. Functions given to an event loop are recorded and may run
  in any order, and a wait may end with any error code. All functions are total: the loops of the source end by
  themselves, the one that sends packets because it counts down a window of at most 255 packets, and the search
  for an address because its counter rises to a bound; no fuel is used.

  \<^bold>\<open>Parameters.\<close> \<^verbatim>\<open>canary\<close> and Boost are not part of the repository. What is used of
  them are the records \<open>canary_header\<close>, \<open>canary_filter\<close>, \<open>socket\<close> and \<open>messages\<close> (the texts of error codes), the engine
  of \<^verbatim>\<open>boost::sml\<close>, and \<^verbatim>\<open>boost::format\<close>; what is relied on are the locales named above, each with an
  instance on which the examples are evaluated.

  \<^bold>\<open>Not modelled.\<close>

  \<^item> Strands and the lifetime of objects: the operations of one object run one at a time, as its strand makes
    them, and its handlers do not outlive it.
  \<^item> Callbacks of a user that call back into the object that calls them.
  \<^item> At which moments \<^verbatim>\<open>boost::sml\<close> calls the logger, and the names of C++ types that it passes.
  \<^item> The order in which \<^verbatim>\<open>std::unordered_map\<close> iterates, which is unspecified: the model iterates in the order of
    insertion, and the results about timeouts speak of the sessions that are dropped in this order.
  \<^item> Declarations without behaviour of their own: type aliases, deleted and defaulted members, static assertions, and the
    getter \<^verbatim>\<open>get_network\<close> of a reference that is an argument here.
  \<^item> The tests of a real socket and of two claimers on one network.
\<close>

section \<open>A device that joins\<close>

lemma first_device:
  assumes "unicast a"
  shows "fst (net_insert m a (net_new i False))"
    "um_find (addr_name_map (snd (net_insert m a (net_new i False)))) = [a \<mapsto> m]"
    "\<not> net_full (net_new i False)" "\<not> net_full (snd (net_insert m a (net_new i False)))"
proof -
  have t: "may_take m a (net_new i False)" by (simp add: may_take_def net_new_def)
  show "fst (net_insert m a (net_new i False))" by (rule net_insert_won(1) [OF assms t])
  show "um_find (addr_name_map (snd (net_insert m a (net_new i False)))) = [a \<mapsto> m]"
    unfolding net_insert_won(3) [OF assms t] by (simp add: evicted_def net_new_def)
  show "\<not> net_full (net_new i False)" "\<not> net_full (snd (net_insert m a (net_new i False)))"
    unfolding net_insert_won_eq [OF assms t]
    by (simp_all add: evicted_def net_new_def net_claim_def net_full_def Let_def um_size_def um_assign_def
        J1939_MAX_UNICAST_ADDR_def)
qed

lemma find_free_address:
  assumes "self_config_address n \<noteq> 0" and "\<not> name_eq m n"
    and "um_find (addr_name_map net) = [a \<mapsto> m]"
  shows "unicast (net_find_address n p net)" "net_find_address n p net \<noteq> a"
proof -
  let ?xs = "address_order (clamp p 0 J1939_MAX_UNICAST_ADDR)"
  have s: "set ?xs = {a. unicast a}" by (rule set_address_order [OF clamp_unicast(1)])
  then have u: "\<forall>a \<in> set ?xs. unicast a" by simp
  obtain b :: address_t where b: "unicast b" "b \<noteq> a"
  proof (cases "a = 0")
    case True then show ?thesis using that [of 1] by (simp add: J1939_MAX_UNICAST_ADDR_def)
  next
    case False then show ?thesis using that [of 0] by (simp add: J1939_MAX_UNICAST_ADDR_def)
  qed
  have "usable n net b" "\<not> usable n net a" using b(2) assms(2,3) by (simp_all add: usable_def)
  with first_or_none_unicast [OF u, of "usable n net"] s b(1)
  show "unicast (net_find_address n p net)" "net_find_address n p net \<noteq> a"
    unfolding net_find_address_first [OF assms(1)] by auto
qed

lemma answers_request:
  assumes "boost_sml sml" and "canary_frame_header C" and "fst c = St_has_address" and "posted (cl_world c) = []"
    and "on_frame_set (cl_world c)"
  shows "let c' = run_job C sml m 0 (claimer_process C (make_address_request_all C) c)
    in fst c' = St_has_address \<and> has_address (snd c') = has_address (snd c)
      \<and> frames (cl_world c') = frames (cl_world c) @ [make_address_claim C m (has_address (snd c))]"
  using assms(3-5) canary_frame_header.request_frame [OF assms(2), of J1939_NO_ADDR]
  by (cases c) (simp add: claimer_process_def make_address_request_all_def process_request_def claimer_address_request_def
      run_job_def run_posted_def boost_sml.process_event_step [OF assms(1)] drop_nth_def upd_claimer_def upd_world_def
      claimer_actions Let_def)

lemma hears_claim:
  assumes "boost_sml sml" and "canary_frame_header C" and "fst (net_insert m a net)"
  shows "run_job C sml n 0 (claimer_process C (make_address_claim C m a)
      (quiet_claimer St_no_address net (quiet_world fs ws))) =
    quiet_claimer St_no_address (snd (net_insert m a net)) (quiet_world fs ws)"
  using assms(3) canary_frame_header.claim_frame [OF assms(2), of m a]
  by (simp add: claimer_process_def process_claim_def claimer_address_claim_def split_beta
      run_job_def run_posted_def boost_sml.process_event_step [OF assms(1)] drop_nth_def upd_claimer_def upd_world_def
      quiet_claimer_def quiet_world_def deps_new_def post_def Let_def)

text \<open>
  C11. A device that joins leaves the others alone: its request makes a device that has an address
  answer with its claim, and the joining device, when it can choose its address, then takes another
  one, even if it prefers the one in use. Afterwards it has an address, the other device has kept its own,
  and the network of the joining device has both.
\<close>

theorem joining_device_avoids_address:
  assumes "boost_sml sml" and "canary_frame_header C" and "fst ca = St_has_address" and "posted (cl_world ca) = []"
    and "on_frame_set (cl_world ca)" and "has_address (snd ca) = a" and "unicast a"
    and "self_config_address n \<noteq> 0" and "\<not> name_eq m n"
  shows "let cb1 = run_job C sml n 0 (start_address_claim p (claimer_ready (net_new i False)));
        ca1 = run_job C sml m 0 (claimer_process C (last (frames (cl_world cb1))) ca);
        cb2 = run_job C sml n 0 (claimer_process C (last (frames (cl_world ca1))) cb1);
        cb3 = complete_wait C sml n 0 Success (complete_wait C sml n 0 Success cb2)
    in fst cb3 = St_has_address \<and> unicast (has_address (snd cb3)) \<and> has_address (snd cb3) \<noteq> a
      \<and> net_get_address n (cl_net cb3) = has_address (snd cb3) \<and> net_get_name a (cl_net cb3) = Some m
      \<and> fst ca1 = St_has_address \<and> has_address (snd ca1) = a"
proof -
  let ?net = "net_new i False"
  let ?net1 = "snd (net_insert m a ?net)"
  let ?q = "net_find_address n p ?net1"
  note d = first_device [OF assms(7)]
  note q = find_free_address [OF assms(8,9) d(2), of p]
  have av: "net_available ?q ?net1" using q d(2) by (simp add: net_available_def not_less)
  then have cl: "net_claimable ?q n ?net1" using q(1) by (simp add: net_available_def net_claimable_def split: if_splits)
  have w: "fst (net_insert n ?q ?net1)"
    using av q(1) by (simp add: net_insert_fst may_take_def net_available_def split: if_splits)
  have g: "net_get_address n (snd (net_insert n ?q ?net1)) = ?q" by (rule net_insert_won_get [OF q(1) w])
  have h: "net_get_name a (snd (net_insert n ?q ?net1)) = Some m"
    using av q q(2) [symmetric] d(2) w by (simp add: net_insert_fst net_get_name_def net_insert_won(3) evicted_def net_available_def)
  note c1 = claim_restarted [OF assms(1) d(3), of C n p]
  have c2: "last (frames (cl_world (run_job C sml n 0 (start_address_claim p (claimer_ready ?net))))) = make_address_request_all C"
    unfolding c1 by simp
  note a1 = answers_request [OF assms(1-5), of m, unfolded assms(6) Let_def]
  show ?thesis
    unfolding Let_def c2 using a1 unfolding c1
    by (simp add: hears_claim [OF assms(1,2) d(1)] claim_begun [OF assms(1) d(4) HOL.refl] claim_completed [OF assms(1) cl] g h)
      (simp add: quiet_claimer_def q g h)
qed

theorem joining_device_avoids_address_witness:
  "let ca = complete_wait can_header_ops sml_run (Name 7) 0 Success (complete_wait can_header_ops sml_run (Name 7) 0 Success
        (run_job can_header_ops sml_run (Name 7) 0 (start_address_claim 5 (claimer_ready (net_new ''can0'' False)))));
       n = Name 0x8000000000000003;
       cb1 = run_job can_header_ops sml_run n 0 (start_address_claim 5 (claimer_ready (net_new ''can0'' False)));
       ca1 = run_job can_header_ops sml_run (Name 7) 0 (claimer_process can_header_ops (last (frames (cl_world cb1))) ca);
       cb2 = run_job can_header_ops sml_run n 0 (claimer_process can_header_ops (last (frames (cl_world ca1))) cb1);
       cb3 = complete_wait can_header_ops sml_run n 0 Success (complete_wait can_header_ops sml_run n 0 Success cb2)
   in fst cb3 = St_has_address \<and> has_address (snd cb3) \<noteq> 5 \<and> net_get_name 5 (cl_net cb3) = Some (Name 7)"
proof -
  let ?ca = "complete_wait can_header_ops sml_run (Name 7) 0 Success (complete_wait can_header_ops sml_run (Name 7) 0 Success
        (run_job can_header_ops sml_run (Name 7) 0 (start_address_claim 5 (claimer_ready (net_new ''can0'' False)))))"
  have h: "fst ?ca = St_has_address" "posted (cl_world ?ca) = []" "on_frame_set (cl_world ?ca)" "has_address (snd ?ca) = 5"
    "unicast (5 :: address_t)" "self_config_address (Name 0x8000000000000003) \<noteq> 0"
    "\<not> name_eq (Name 7) (Name 0x8000000000000003)"
    by code_simp+
  from joining_device_avoids_address [OF run.boost_sml_axioms can.canary_frame_header_axioms h, of 5 "''can0''"]
  show ?thesis unfolding Let_def by blast
qed

section \<open>Devices that start together\<close>

text \<open>
  All waits of a claimer are on one timer: starting a wait cancels those before it, which then end with
  \<^verbatim>\<open>operation_aborted\<close>.
\<close>

definition wait_cancelled :: "'h world \<Rightarrow> nat \<Rightarrow> bool" where
  "wait_cancelled w i \<longleftrightarrow> i + 1 < length (waits w)"

text \<open>
  What is left to do for a claimer whose first wait has been cancelled by a second: the first wait ends, then
  the second, and then the posted function, if there is one.
\<close>

definition after_cancel :: "'h canary_header \<Rightarrow> 'h world deps sml_engine \<Rightarrow> name \<Rightarrow> 'h claimer \<Rightarrow> 'h claimer" where
  "after_cancel C sml n c =
     (let c = complete_wait C sml n 0 Success (complete_wait C sml n 0 Operation_aborted c)
      in if posted (cl_world c) = [] then c else run_job C sml n 0 c)"

lemma request_stops_start:
  assumes "boost_sml sml" and "canary_frame_header C" and "fst c = St_no_address" and "posted (cl_world c) = []"
    and "waits (cl_world c) = [(200, Start_claim_delay p)]" and "on_frame_set (cl_world c)"
  shows "let c1 = run_job C sml n 0 (claimer_process C (make_address_request_all C) c); c2 = after_cancel C sml n c1
    in wait_cancelled (cl_world c1) 0 \<and> fst c2 = St_no_address \<and> posted (cl_world c2) = [] \<and> waits (cl_world c2) = []
      \<and> cl_net c2 = cl_net c \<and> frames (cl_world c2) = frames (cl_world c) @ [make_cannot_claim C n]"
proof -
  obtain d where c: "c = (St_no_address, d)" using assms(3) by (cases c) simp
  let ?r = "rand_delay (dworld d)"
  have c1: "run_job C sml n 0 (claimer_process C (make_address_request_all C) c) =
      (St_no_address, d\<lparr>deps_env := (deps_env d)\<lparr>env_world := (dworld d)\<lparr>posted := [],
        waits := [(200, Start_claim_delay p), (?r, Cannot_claim_delay n)]\<rparr>\<rparr>\<rparr>)"
    using assms(4,5) canary_frame_header.request_frame [OF assms(2), of J1939_NO_ADDR]
    by (simp add: c claimer_process_def make_address_request_all_def process_request_def claimer_address_request_def
      run_job_def run_posted_def boost_sml.process_event_step [OF assms(1)] drop_nth_def upd_claimer_def upd_world_def
      claimer_actions Let_def)
  show ?thesis
    unfolding Let_def c1 using assms(6)
    by (simp add: c wait_cancelled_def after_cancel_def complete_wait_def drop_nth_def on_fail_def upd_claimer_def
        upd_world_def world_ops Let_def run_job_def run_posted_def boost_sml.process_event_step [OF assms(1)])
qed

text \<open>
  C38. Two devices that start at the same time stop each other: the request of each arrives while the other
  waits to claim its address, the wait for the answer to the request cancels the wait for the claim, and
  afterwards both are without an address, with nothing left to do.
\<close>

theorem simultaneous_start_fails:
  assumes "boost_sml sml" and "canary_frame_header C" and "\<not> net_full net" and "\<not> net_full net'"
  shows "let a1 = run_job C sml n 0 (start_address_claim p (claimer_ready net));
        b1 = run_job C sml m 0 (start_address_claim q (claimer_ready net'));
        a2 = run_job C sml n 0 (claimer_process C (last (frames (cl_world b1))) a1);
        b2 = run_job C sml m 0 (claimer_process C (last (frames (cl_world a1))) b1);
        a3 = after_cancel C sml n a2; b3 = after_cancel C sml m b2
    in wait_cancelled (cl_world a2) 0 \<and> wait_cancelled (cl_world b2) 0
      \<and> fst a3 = St_no_address \<and> posted (cl_world a3) = [] \<and> waits (cl_world a3) = []
      \<and> fst b3 = St_no_address \<and> posted (cl_world b3) = [] \<and> waits (cl_world b3) = []"
proof -
  note a = claim_restarted [OF assms(1,3), of C n p] and b = claim_restarted [OF assms(1,4), of C m q]
  have on: "on_frame_set (quiet_world fs ws)" for fs ws by (simp add: quiet_world_def)
  note r = request_stops_start [OF assms(1,2) _ _ _ _, unfolded Let_def]
  show ?thesis
    unfolding Let_def a b
    using r [of "quiet_claimer St_no_address net (quiet_world [make_address_request_all C] [(200, Start_claim_delay p)])" p n]
      r [of "quiet_claimer St_no_address net' (quiet_world [make_address_request_all C] [(200, Start_claim_delay q)])" q m]
    by (simp add: on)
qed

theorem simultaneous_start_fails_witness:
  "let a1 = run_job can_header_ops sml_run (Name 7) 0 (start_address_claim 5 (claimer_ready (net_new ''can0'' False)));
       b1 = run_job can_header_ops sml_run (Name 9) 0 (start_address_claim 6 (claimer_ready (net_new ''can0'' False)));
       a3 = after_cancel can_header_ops sml_run (Name 7)
         (run_job can_header_ops sml_run (Name 7) 0 (claimer_process can_header_ops (last (frames (cl_world b1))) a1))
   in fst a3 = St_no_address \<and> posted (cl_world a3) = [] \<and> waits (cl_world a3) = []"
proof -
  have "\<not> net_full (net_new ''can0'' False)" by code_simp
  from simultaneous_start_fails [OF run.boost_sml_axioms can.canary_frame_header_axioms this this, of "Name 7" 5 "Name 9" 6]
  show ?thesis unfolding Let_def by blast
qed

section \<open>A contest during the claim\<close>

lemma contest_network:
  assumes "net_available p net" and "net_available q net" and "p \<noteq> q" and "name_less n m"
  shows "let net1 = snd (net_insert m p net); net2 = snd (net_insert m q net1); net3 = snd (net_insert n p net2)
    in fst (net_insert m p net) \<and> fst (net_insert m q net1) \<and> net_get_address m net2 = q \<and> net_claimable p n net2
      \<and> net_get_address n net3 = p \<and> net_get_address m net3 = J1939_IDLE_ADDR \<and> net_available q net3"
proof -
  let ?net1 = "snd (net_insert m p net)"
  let ?net2 = "snd (net_insert m q ?net1)"
  have u: "unicast p" "unicast q" and free: "um_find (addr_name_map net) p = None" "um_find (addr_name_map net) q = None"
    using assms(1,2) by (auto simp: net_available_def split: if_splits)
  have ne: "m \<noteq> n" and pr: "\<not> name_greater n m" "name_greater m n"
    using assms(4) by (auto simp: name_order_prio)
  have t1: "may_take m p net" "evicted m p net = None" using free by (simp_all add: may_take_def evicted_def)
  note i1 = net_insert_won [OF u(1) t1(1), unfolded t1(2) option.case]
  have t2: "may_take m q ?net1" "evicted m q ?net1 = None"
    using free assms(3) by (simp_all add: may_take_def evicted_def i1(3))
  note i2 = net_insert_won [OF u(2) t2(1), unfolded t2(2) option.case i1]
  have t3: "may_take n p ?net2" "evicted n p ?net2 = Some m"
    using assms(3) pr ne by (simp_all add: may_take_def evicted_def i2(3))
  note i3 = net_insert_won [OF u(1) t3(1), unfolded t3(2) option.case i2]
  show ?thesis
    using i1(1) i2(1) u assms(3) ne pr free(2)
    by (simp add: Let_def net_get_address_def net_claimable_def net_available_def i2 i3 not_less)
qed

lemma hears_claim_while_claiming:
  assumes "boost_sml sml" and "canary_frame_header C" and "fst c = St_claiming" and "posted (cl_world c) = []"
    and "on_frame_set (cl_world c)" and "fst (net_insert m a (cl_net c))" and "claiming (snd c) \<noteq> a \<or> name_less n m"
  shows "let c' = run_job C sml n 0 (claimer_process C (make_address_claim C m a) c)
    in fst c' = St_claiming \<and> claiming (snd c') = claiming (snd c) \<and> posted (cl_world c') = []
      \<and> waits (cl_world c') = waits (cl_world c) \<and> on_frame_set (cl_world c')
      \<and> cl_net c' = snd (net_insert m a (cl_net c))
      \<and> frames (cl_world c') = frames (cl_world c)
          @ (if claiming (snd c) = a then [make_address_claim C n a] else [])"
  using assms(3-7) canary_frame_header.claim_frame [OF assms(2), of m a]
  by (cases c) (auto simp: claimer_process_def process_claim_def claimer_address_claim_def split_beta
      run_job_def run_posted_def boost_sml.process_event_step [OF assms(1)] drop_nth_def upd_claimer_def upd_world_def
      claimer_actions Let_def)

lemma claim_times_out:
  assumes "boost_sml sml" and "fst c = St_claiming" and "waits (cl_world c) = [(250, Claim_timeout)]"
    and "net_claimable (claiming (snd c)) n (cl_net c)"
  shows "let c' = complete_wait C sml n 0 Success c
    in fst c' = St_has_address \<and> has_address (snd c') = claiming (snd c)
      \<and> cl_net c' = snd (net_insert n (claiming (snd c)) (cl_net c))"
  using assms(2-4)
  by (cases c) (simp add: complete_wait_def drop_nth_def boost_sml.process_event_step [OF assms(1)] upd_claimer_def
      upd_world_def claimer_actions Let_def set_claimed_address_def)

text \<open>
  A claimer of higher priority wins a contest but forgets the loser: while it claims an address, another device
  claims the same one and, after the answer, a second address. The claimer gets its address, but in its network
  the other device is without one, and the second address counts as free. The address map still had
  the first claim of the loser.
\<close>

theorem winner_forgets_loser:
  assumes "boost_sml sml" and "canary_frame_header C" and "fst c = St_claiming" and "claiming (snd c) = p"
    and "posted (cl_world c) = []" and "waits (cl_world c) = [(250, Claim_timeout)]" and "on_frame_set (cl_world c)"
    and "net_available p (cl_net c)" and "net_available q (cl_net c)" and "p \<noteq> q" and "name_less n m"
  shows "let c1 = run_job C sml n 0 (claimer_process C (make_address_claim C m p) c);
      c2 = run_job C sml n 0 (claimer_process C (make_address_claim C m q) c1);
      c3 = complete_wait C sml n 0 Success c2
    in frames (cl_world c1) = frames (cl_world c) @ [make_address_claim C n p]
      \<and> net_get_address m (cl_net c2) = q
      \<and> fst c3 = St_has_address \<and> has_address (snd c3) = p \<and> net_get_address n (cl_net c3) = p
      \<and> net_get_address m (cl_net c3) = J1939_IDLE_ADDR \<and> net_available q (cl_net c3)"
proof -
  note w = contest_network [OF assms(8-11), unfolded Let_def]
  let ?c1 = "run_job C sml n 0 (claimer_process C (make_address_claim C m p) c)"
  let ?c2 = "run_job C sml n 0 (claimer_process C (make_address_claim C m q) ?c1)"
  have c1: "fst ?c1 = St_claiming" "claiming (snd ?c1) = p" "posted (cl_world ?c1) = []"
      "waits (cl_world ?c1) = [(250, Claim_timeout)]" "on_frame_set (cl_world ?c1)"
      "cl_net ?c1 = snd (net_insert m p (cl_net c))" "frames (cl_world ?c1) = frames (cl_world c) @ [make_address_claim C n p]"
    using hears_claim_while_claiming [OF assms(1-3,5,7), of m p n] w assms(4,6,11) by (simp_all add: Let_def)
  have c2: "fst ?c2 = St_claiming" "claiming (snd ?c2) = p" "waits (cl_world ?c2) = [(250, Claim_timeout)]"
      "cl_net ?c2 = snd (net_insert m q (snd (net_insert m p (cl_net c))))"
    using hears_claim_while_claiming [OF assms(1,2) c1(1,3,5), of m q n] w assms(10) c1 by (simp_all add: Let_def)
  show ?thesis
    using claim_times_out [OF assms(1) c2(1,3), of n C] w c1(7) c2(2,4) by (simp add: Let_def)
qed

theorem winner_forgets_loser_witness:
  "let c = complete_wait can_header_ops sml_run (Name 7) 0 Success
         (run_job can_header_ops sml_run (Name 7) 0 (start_address_claim 5 (claimer_ready (net_new ''can0'' False))));
       c1 = run_job can_header_ops sml_run (Name 7) 0 (claimer_process can_header_ops (make_address_claim can_header_ops (Name 9) 5) c);
       c2 = run_job can_header_ops sml_run (Name 7) 0 (claimer_process can_header_ops (make_address_claim can_header_ops (Name 9) 6) c1);
       c3 = complete_wait can_header_ops sml_run (Name 7) 0 Success c2
   in net_get_address (Name 9) (cl_net c3) = J1939_IDLE_ADDR \<and> net_available 6 (cl_net c3)"
proof -
  let ?c = "complete_wait can_header_ops sml_run (Name 7) 0 Success
         (run_job can_header_ops sml_run (Name 7) 0 (start_address_claim 5 (claimer_ready (net_new ''can0'' False))))"
  have "fst ?c = St_claiming" "claiming (snd ?c) = 5" "posted (cl_world ?c) = []"
    "waits (cl_world ?c) = [(250, Claim_timeout)]" "on_frame_set (cl_world ?c)"
    "net_available 5 (cl_net ?c)" "net_available 6 (cl_net ?c)" "(5 :: address_t) \<noteq> 6" "name_less (Name 7) (Name 9)"
    by code_simp+
  from winner_forgets_loser [OF run.boost_sml_axioms can.canary_frame_header_axioms this]
  show ?thesis unfolding Let_def by blast
qed

end
